(* ===== verification/Zingo_Prelude.thy ===== *)
theory Zingo_Prelude
  imports Main "HOL-Library.Word" "HOL-Library.AList"
begin

text \<open>
  Shared vocabulary of the development: the machine integers of the Rust sources, identifiers of
  transactions and nullifiers, the model of \<open>HashMap\<close> as an association list with distinct keys
  (its order is the arbitrary iteration order of the map), the \<open>iter_mut().find(..)\<close> idiom as
  \<open>update_first\<close>, and the arithmetic of \<open>u64\<close> sums.
\<close>

section \<open>Types\<close>

type_synonym byte = "8 word"
type_synonym u16 = "16 word"
type_synonym u32 = "32 word"
type_synonym u64 = "64 word"

text \<open>A \<open>BlockHeight\<close> is a newtype of \<open>u32\<close>; a \<open>TxId\<close> and a nullifier wrap 32 bytes; an \<open>f64\<close>
  price is only stored and copied, so it is kept as its 64-bit pattern. A Rust \<open>String\<close> is the
  list of the bytes of its UTF-8 encoding, one \<open>char\<close> per byte.\<close>

type_synonym block_height = u32
type_synonym txid = "byte list"
type_synonym nullifier = "byte list"
type_synonym f64_bits = u64
type_synonym ('k, 'v) hash_map = "('k \<times> 'v) list"

named_theorems hm_simps \<open>lookup laws of the hash map operations\<close>
named_theorems query_simps \<open>unfolding of the query constructors\<close>

section \<open>Hash maps\<close>

abbreviation hm_get :: "('k, 'v) hash_map \<Rightarrow> 'k \<Rightarrow> 'v option" where
  "hm_get m k \<equiv> map_of m k"

definition hm_insert :: "'k \<Rightarrow> 'v \<Rightarrow> ('k, 'v) hash_map \<Rightarrow> ('k, 'v) hash_map" where
  "hm_insert k v m = AList.update k v m"

definition hm_remove :: "'k \<Rightarrow> ('k, 'v) hash_map \<Rightarrow> ('k, 'v) hash_map" where
  "hm_remove k m = AList.delete k m"

definition hm_values :: "('k, 'v) hash_map \<Rightarrow> 'v list" where
  "hm_values m = map snd m"

definition hm_map_values :: "('v \<Rightarrow> 'v) \<Rightarrow> ('k, 'v) hash_map \<Rightarrow> ('k, 'v) hash_map" where
  "hm_map_values f m = map (\<lambda>(k, v). (k, f v)) m"

definition hm_modify :: "'k \<Rightarrow> ('v \<Rightarrow> 'v) \<Rightarrow> ('k, 'v) hash_map \<Rightarrow> ('k, 'v) hash_map" where
  "hm_modify k f m = map (\<lambda>(k', v). (k', if k' = k then f v else v)) m"

definition hm_wf :: "('k, 'v) hash_map \<Rightarrow> bool" where
  "hm_wf m \<longleftrightarrow> distinct (map fst m)"

lemma hm_get_insert [hm_simps]:
  "hm_get (hm_insert k v m) k' = (if k' = k then Some v else hm_get m k')"
  by (simp add: hm_insert_def update_conv')

lemma hm_get_remove [hm_simps]:
  "hm_get (hm_remove k m) k' = (if k' = k then None else hm_get m k')"
  by (simp add: hm_remove_def delete_conv')

lemma hm_get_map_values [hm_simps]:
  "hm_get (hm_map_values f m) k = map_option f (hm_get m k)"
  by (induction m) (auto simp: hm_map_values_def)

lemma hm_get_modify [hm_simps]:
  "hm_get (hm_modify k f m) k' =
     (if k' = k then map_option f (hm_get m k) else hm_get m k')"
  by (induction m) (auto simp: hm_modify_def)

lemma hm_wf_insert [simp]: "hm_wf m \<Longrightarrow> hm_wf (hm_insert k v m)"
  by (simp add: hm_wf_def hm_insert_def distinct_update)

lemma hm_wf_remove [simp]: "hm_wf m \<Longrightarrow> hm_wf (hm_remove k m)"
  by (simp add: hm_wf_def hm_remove_def distinct_delete)

lemma hm_keys_map_values [simp]: "map fst (hm_map_values f m) = map fst m"
  by (induction m) (auto simp: hm_map_values_def)

lemma hm_keys_modify [simp]: "map fst (hm_modify k f m) = map fst m"
  by (induction m) (auto simp: hm_modify_def)

lemma hm_wf_map_values [simp]: "hm_wf (hm_map_values f m) \<longleftrightarrow> hm_wf m"
  by (simp add: hm_wf_def)

lemma hm_wf_modify [simp]: "hm_wf (hm_modify k f m) \<longleftrightarrow> hm_wf m"
  by (simp add: hm_wf_def)

lemma hm_wf_Nil [simp]: "hm_wf []"
  by (simp add: hm_wf_def)

lemma hm_wf_Cons: "hm_wf ((k, v) # m) \<longleftrightarrow> k \<notin> fst ` set m \<and> hm_wf m"
  by (simp add: hm_wf_def)

lemma hm_get_iff: "hm_wf m \<Longrightarrow> hm_get m k = Some v \<longleftrightarrow> (k, v) \<in> set m"
  by (simp add: hm_wf_def)

lemma hm_values_map_values [simp]: "hm_values (hm_map_values f m) = map f (hm_values m)"
  by (induction m) (auto simp: hm_values_def hm_map_values_def)

lemma hm_remove_fold_get [hm_simps]:
  "hm_get (fold hm_remove ks m) k = (if k \<in> set ks then None else hm_get m k)"
  by (induction ks arbitrary: m) (auto simp: hm_simps)

lemma hm_remove_fold_wf [simp]: "hm_wf m \<Longrightarrow> hm_wf (fold hm_remove ks m)"
  by (induction ks arbitrary: m) auto

lemma hm_remove_filter: "hm_remove k m = filter (\<lambda>p. fst p \<noteq> k) m"
  by (induction m) (auto simp: hm_remove_def)

lemma hm_remove_fold_filter: "fold hm_remove ks m = filter (\<lambda>p. fst p \<notin> set ks) m"
  by (induction ks arbitrary: m) (auto simp: hm_remove_filter conj_commute)

lemma hm_map_values_comp: "hm_map_values f (hm_map_values g m) = hm_map_values (f \<circ> g) m"
  by (induction m) (auto simp: hm_map_values_def)

lemma hm_values_get: "hm_wf m \<Longrightarrow> r \<in> set (hm_values m) \<longleftrightarrow> (\<exists>k. hm_get m k = Some r)"
  by (force simp: hm_values_def hm_wf_def)

section \<open>First-match update\<close>

text \<open>The pattern \<open>if let Some(x) = xs.iter_mut().find(p) { *x = f(x) }\<close>.\<close>

fun update_first :: "('a \<Rightarrow> bool) \<Rightarrow> ('a \<Rightarrow> 'a) \<Rightarrow> 'a list \<Rightarrow> 'a list" where
  "update_first p f [] = []"
| "update_first p f (x # xs) = (if p x then f x # xs else x # update_first p f xs)"

lemma update_first_none: "find p xs = None \<Longrightarrow> update_first p f xs = xs"
  by (induction xs) (auto split: if_splits)

lemma update_first_length [simp]: "length (update_first p f xs) = length xs"
  by (induction xs) auto

lemma update_first_map:
  "(\<And>x. p x \<Longrightarrow> g (f x) = g x) \<Longrightarrow> map g (update_first p f xs) = map g xs"
  by (induction xs) auto

lemma update_first_split:
  "find p xs = Some x \<Longrightarrow>
   \<exists>ys zs. xs = ys @ x # zs \<and> (\<forall>y \<in> set ys. \<not> p y) \<and> p x \<and>
           update_first p f xs = ys @ f x # zs"
proof (induction xs)
  case (Cons a xs)
  show ?case
  proof (cases "p a")
    case True
    then show ?thesis using Cons.prems by (intro exI [of _ "[]"] exI [of _ xs]) auto
  next
    case False
    then obtain ys zs where "xs = ys @ x # zs" "\<forall>y \<in> set ys. \<not> p y" "p x"
        "update_first p f xs = ys @ f x # zs"
      using Cons by auto
    then show ?thesis using False by (intro exI [of _ "a # ys"] exI [of _ zs]) auto
  qed
qed simp

lemma update_first_set: "y \<in> set (update_first p f xs) \<Longrightarrow> y \<in> set xs \<or> (\<exists>x \<in> set xs. p x \<and> y = f x)"
  by (induction xs) (auto split: if_splits)

lemma find_Some_set: "find p xs = Some x \<Longrightarrow> x \<in> set xs \<and> p x"
  by (auto simp: find_Some_iff)

lemma find_None_set: "find p xs = None \<longleftrightarrow> (\<forall>x \<in> set xs. \<not> p x)"
  by (auto simp: find_None_iff)

section \<open>Sums of machine integers\<close>

lemma foldl_plus_sum_list:
  fixes v :: "'a \<Rightarrow> 'b::comm_monoid_add"
  shows "foldl (\<lambda>t x. t + v x) a xs = a + sum_list (map v xs)"
  by (induction xs arbitrary: a) (auto simp: add.assoc)

lemma foldl_if_sum_list:
  fixes v :: "'a \<Rightarrow> 'b::comm_monoid_add"
  shows "foldl (\<lambda>t x. if p x then t + v x else t) a xs = a + sum_list (map v (filter p xs))"
  by (induction xs arbitrary: a) (auto simp: add.assoc)

lemma unat_sum_list_mod:
  fixes xs :: "'w::len word list"
  shows "unat (sum_list xs) = sum_list (map unat xs) mod 2 ^ LENGTH('w)"
  by (induction xs) (auto simp: unat_word_ariths mod_add_right_eq)

lemma unat_sum_list:
  fixes xs :: "'w::len word list"
  assumes "sum_list (map unat xs) < 2 ^ LENGTH('w)"
  shows "unat (sum_list xs) = sum_list (map unat xs)"
  using assms by (simp add: unat_sum_list_mod)

lemma sum_list_filter_split:
  fixes v :: "'a \<Rightarrow> 'b::comm_monoid_add"
  assumes "\<And>x. x \<in> set xs \<Longrightarrow> \<not> (p x \<and> q x)"
  shows "sum_list (map v (filter (\<lambda>x. p x \<or> q x) xs)) =
         sum_list (map v (filter p xs)) + sum_list (map v (filter q xs))"
  using assms by (induction xs) (auto simp: ac_simps)

lemma sum_list_filter_le:
  fixes v :: "'a \<Rightarrow> nat"
  shows "sum_list (map v (filter p xs)) \<le> sum_list (map v xs)"
  by (induction xs) auto

lemma sum_list_concat_filter:
  fixes v :: "'a \<Rightarrow> 'b::comm_monoid_add"
  shows "sum_list (map v (filter p (concat (map g xs)))) =
         sum_list (map (\<lambda>x. sum_list (map v (filter p (g x)))) xs)"
  by (induction xs) auto

lemma unat_sums:
  fixes f :: "'a \<Rightarrow> u64"
  shows "unat (sum_list (map f xs)) = sum_list (map (unat \<circ> f) xs) mod 2 ^ 64"
  using unat_sum_list_mod [of "map f xs"] by simp

lemma find_update_first:
  "find p xs = Some x \<Longrightarrow> p (f x) \<Longrightarrow> find p (update_first p f xs) = Some (f x)"
  by (induction xs) (auto split: if_splits)

lemma map_filter_all: "list_all (\<lambda>x. f x \<noteq> None) xs \<Longrightarrow> List.map_filter f xs = [] \<longleftrightarrow> xs = []"
  by (cases xs) (auto simp: List.map_filter_simps)

lemma find_None_list_all: "find (\<lambda>x. p x = None) xs = None \<longleftrightarrow> list_all (\<lambda>x. p x \<noteq> None) xs"
  by (auto simp: find_None_iff list_all_iff)

lemma map_filter_set: "set (List.map_filter f xs) = {v. \<exists>x \<in> set xs. f x = Some v}"
  by (force simp: List.map_filter_def)

lemma map_filter_append: "List.map_filter f (xs @ ys) = List.map_filter f xs @ List.map_filter f ys"
  by (simp add: List.map_filter_def)

text \<open>Collecting options: \<open>those\<close> fails when one of them is missing.\<close>

lemma those_total: "(\<And>x. x \<in> set xs \<Longrightarrow> f x \<noteq> None) \<Longrightarrow> \<exists>ys. those (map f xs) = Some ys"
proof (induction xs)
  case (Cons a xs)
  obtain y where "f a = Some y" using Cons.prems [of a] by auto
  moreover obtain ys where "those (map f xs) = Some ys" using Cons.IH Cons.prems by auto
  ultimately show ?case by simp
qed simp

lemma those_eq: "those xs = Some ys \<longleftrightarrow> xs = map Some ys"
  by (induction xs arbitrary: ys) (auto split: option.splits)

lemma those_map_Some: "(\<And>x. x \<in> set xs \<Longrightarrow> f x = Some (g x)) \<Longrightarrow> those (map f xs) = Some (map g xs)"
  by (induction xs) auto

lemma those_map_all: "those (map f xs) = Some ys \<Longrightarrow> list_all (\<lambda>x. f x \<noteq> None) xs"
  by (induction xs arbitrary: ys) (auto split: option.splits)

lemma those_map_return: "those (map (\<lambda>x. Some (g x)) xs) = Some (map g xs)"
  by (simp add: those_eq)

lemma those_mapE:
  assumes "those (map f xs) = Some ys" "y \<in> set ys"
  obtains x where "x \<in> set xs" "f x = Some y"
proof -
  have "Some y \<in> set (map f xs)" using assms by (simp add: those_eq)
  then show ?thesis using that by (auto dest: sym)
qed

text \<open>Rust's \<open>saturating_sub\<close> on an unsigned word.\<close>

definition saturating_sub :: "'w::len word \<Rightarrow> 'w word \<Rightarrow> 'w word" where
  "saturating_sub a b = (if a < b then 0 else a - b)"

lemma unat_saturating_sub [simp]: "unat (saturating_sub a b) = unat a - unat b"
  by (auto simp: saturating_sub_def word_less_nat_alt unat_sub_if')

end
