(* ===== verification/Confirmation_Status.thy ===== *)
theory Confirmation_Status
  imports Zingo_Prelude
begin

text \<open>
  The crate \<open>zingo-status\<close>: the confirmation status that every transaction record and every spend
  of an output carries (\<open>zingo-status/src/confirmation_status.rs\<close>), its predicates and its printing.
\<close>

section \<open>The status\<close>

datatype confirmation_status =
    Calculated block_height
  | Transmitted block_height
  | Mempool block_height
  | Confirmed block_height

definition from_blockheight_and_pending_bool :: "block_height \<Rightarrow> bool \<Rightarrow> confirmation_status" where
  "from_blockheight_and_pending_bool blockheight pending =
     (if pending then Transmitted blockheight else Confirmed blockheight)"

fun is_confirmed :: "confirmation_status \<Rightarrow> bool" where
  "is_confirmed (Confirmed _) = True"
| "is_confirmed _ = False"

fun is_confirmed_after_or_at :: "confirmation_status \<Rightarrow> block_height \<Rightarrow> bool" where
  "is_confirmed_after_or_at (Confirmed self_height) comparison_height =
     (self_height \<ge> comparison_height)"
| "is_confirmed_after_or_at _ _ = False"

fun is_confirmed_before_or_at :: "confirmation_status \<Rightarrow> block_height \<Rightarrow> bool" where
  "is_confirmed_before_or_at (Confirmed self_height) comparison_height =
     (self_height \<le> comparison_height)"
| "is_confirmed_before_or_at _ _ = False"

fun is_confirmed_before :: "confirmation_status \<Rightarrow> block_height \<Rightarrow> bool" where
  "is_confirmed_before (Confirmed self_height) comparison_height = (self_height < comparison_height)"
| "is_confirmed_before _ _ = False"

fun is_pending_before :: "confirmation_status \<Rightarrow> block_height \<Rightarrow> bool" where
  "is_pending_before (Calculated self_height) comparison_height = (self_height < comparison_height)"
| "is_pending_before (Transmitted self_height) comparison_height = (self_height < comparison_height)"
| "is_pending_before (Mempool self_height) comparison_height = (self_height < comparison_height)"
| "is_pending_before _ _ = False"

fun get_confirmed_height :: "confirmation_status \<Rightarrow> block_height option" where
  "get_confirmed_height (Confirmed self_height) = Some self_height"
| "get_confirmed_height _ = None"

fun get_height :: "confirmation_status \<Rightarrow> block_height" where
  "get_height (Calculated self_height) = self_height"
| "get_height (Mempool self_height) = self_height"
| "get_height (Transmitted self_height) = self_height"
| "get_height (Confirmed self_height) = self_height"

fun status_display :: "confirmation_status \<Rightarrow> string" where
  "status_display (Calculated _) = ''calculated''"
| "status_display (Transmitted _) = ''transmitted''"
| "status_display (Mempool _) = ''mempool''"
| "status_display (Confirmed _) = ''confirmed''"

definition string_from_status :: "confirmation_status \<Rightarrow> string" where
  "string_from_status v = status_display v"

section \<open>Laws\<close>

lemma confirmed_after_iff [simp]:
  "is_confirmed_after_or_at s h \<longleftrightarrow> is_confirmed s \<and> h \<le> get_height s"
  by (cases s) auto

lemma confirmed_before_or_at_iff [simp]:
  "is_confirmed_before_or_at s h \<longleftrightarrow> is_confirmed s \<and> get_height s \<le> h"
  by (cases s) auto

lemma confirmed_before_iff [simp]:
  "is_confirmed_before s h \<longleftrightarrow> is_confirmed s \<and> get_height s < h"
  by (cases s) auto

lemma pending_before_iff [simp]:
  "is_pending_before s h \<longleftrightarrow> \<not> is_confirmed s \<and> get_height s < h"
  by (cases s) auto

lemma get_confirmed_height_eq:
  "get_confirmed_height s = (if is_confirmed s then Some (get_height s) else None)"
  by (cases s) auto

end
