(* ===== verification/Output_Notes.thy ===== *)
theory Output_Notes
  imports Confirmation_Status
begin

text \<open>
  Outputs received by the wallet and the queries over them: \<open>wallet/notes/query.rs\<close>,
  \<open>wallet/notes/interface.rs\<close> (the traits \<open>OutputInterface\<close> and \<open>ShieldedNoteInterface\<close>),
  \<open>wallet/notes/transparent.rs\<close>, \<open>wallet/notes/sapling.rs\<close> and \<open>wallet/notes/orchard.rs\<close>.

  The two shielded note structs have the same fields up to the type of the protocol's note, so
  they are one record \<open>'n shielded_note\<close> used at the two types \<open>sapling_note\<close> and \<open>orchard_note\<close>.
  A note of the cryptography crates is the tuple of the parts the wallet builds it from and reads
  back (recipient, value, rho, rseed). The locale \<open>output_interface\<close> states the contract of the
  trait; every default method of the trait depends on the \<open>spend\<close> field and the pool only.
\<close>

section \<open>Pools and queries\<close>

datatype shielded_protocol = Sapling | Orchard

datatype pool_type = Transparent | Shielded shielded_protocol

record output_spend_status_query =
  q_unspent :: bool
  q_pending_spent :: bool
  q_spent :: bool

definition any_status :: output_spend_status_query where
  "any_status = \<lparr> q_unspent = True, q_pending_spent = True, q_spent = True \<rparr>"

definition only_unspent :: output_spend_status_query where
  "only_unspent = \<lparr> q_unspent = True, q_pending_spent = False, q_spent = False \<rparr>"

definition only_pending_spent :: output_spend_status_query where
  "only_pending_spent = \<lparr> q_unspent = False, q_pending_spent = True, q_spent = False \<rparr>"

definition only_spent :: output_spend_status_query where
  "only_spent = \<lparr> q_unspent = False, q_pending_spent = False, q_spent = True \<rparr>"

definition spentish :: output_spend_status_query where
  "spentish = \<lparr> q_unspent = False, q_pending_spent = True, q_spent = True \<rparr>"

record output_pool_query =
  q_transparent :: bool
  q_sapling :: bool
  q_orchard :: bool

definition any_pool :: output_pool_query where
  "any_pool = \<lparr> q_transparent = True, q_sapling = True, q_orchard = True \<rparr>"

definition shielded_pools :: output_pool_query where
  "shielded_pools = \<lparr> q_transparent = False, q_sapling = True, q_orchard = True \<rparr>"

fun one_pool :: "pool_type \<Rightarrow> output_pool_query" where
  "one_pool Transparent = \<lparr> q_transparent = True, q_sapling = False, q_orchard = False \<rparr>"
| "one_pool (Shielded Sapling) = \<lparr> q_transparent = False, q_sapling = True, q_orchard = False \<rparr>"
| "one_pool (Shielded Orchard) = \<lparr> q_transparent = False, q_sapling = False, q_orchard = True \<rparr>"

record output_query =
  q_spend_status :: output_spend_status_query
  q_pools :: output_pool_query

definition any_output :: output_query where
  "any_output = \<lparr> q_spend_status = any_status, q_pools = any_pool \<rparr>"

definition only_unspent_output :: output_query where
  "only_unspent_output =
     \<lparr> q_spend_status = \<lparr> q_unspent = True, q_pending_spent = False, q_spent = False \<rparr>,
       q_pools = any_pool \<rparr>"

definition stipulations :: "bool \<Rightarrow> bool \<Rightarrow> bool \<Rightarrow> bool \<Rightarrow> bool \<Rightarrow> bool \<Rightarrow> output_query" where
  "stipulations unspent pending_spent spent transparent sapling orchard =
     \<lparr> q_spend_status =
         \<lparr> q_unspent = unspent, q_pending_spent = pending_spent, q_spent = spent \<rparr>,
       q_pools =
         \<lparr> q_transparent = transparent, q_sapling = sapling, q_orchard = orchard \<rparr> \<rparr>"

lemmas query_defs [query_simps] =
  any_status_def only_unspent_def only_pending_spent_def only_spent_def spentish_def
  any_pool_def shielded_pools_def any_output_def only_unspent_output_def stipulations_def

section \<open>The default methods of the trait\<close>

text \<open>The value behind \<open>spending_tx_status()\<close>: the spending transaction and its status.\<close>

type_synonym spend = "(txid \<times> confirmation_status) option"

definition spending_txid :: "spend \<Rightarrow> txid option" where
  "spending_txid sp = map_option fst sp"

fun is_pending_spent :: "spend \<Rightarrow> bool" where
  "is_pending_spent None = False"
| "is_pending_spent (Some (_, status)) = (\<not> is_confirmed status)"

fun is_spent_confirmed :: "spend \<Rightarrow> bool" where
  "is_spent_confirmed None = False"
| "is_spent_confirmed (Some (_, status)) = is_confirmed status"

definition spend_status_query :: "spend \<Rightarrow> output_spend_status_query \<Rightarrow> bool" where
  "spend_status_query sp q \<longleftrightarrow>
     (q_unspent q \<and> \<not> is_spent_confirmed sp \<and> \<not> is_pending_spent sp) \<or>
     (q_pending_spent q \<and> is_pending_spent sp) \<or>
     (q_spent q \<and> is_spent_confirmed sp)"

definition is_unspent :: "spend \<Rightarrow> bool" where
  "is_unspent sp = spend_status_query sp only_unspent"

definition pool_query :: "pool_type \<Rightarrow> output_pool_query \<Rightarrow> bool" where
  "pool_query pool q \<longleftrightarrow>
     (q_transparent q \<and> pool = Transparent) \<or>
     (q_sapling q \<and> pool = Shielded Sapling) \<or>
     (q_orchard q \<and> pool = Shielded Orchard)"

definition output_query_matches :: "pool_type \<Rightarrow> spend \<Rightarrow> output_query \<Rightarrow> bool" where
  "output_query_matches pool sp q \<longleftrightarrow>
     spend_status_query sp (q_spend_status q) \<and> pool_query pool (q_pools q)"

lemma pending_not_confirmed: "is_pending_spent sp \<Longrightarrow> \<not> is_spent_confirmed sp"
  by (cases sp) auto

lemma is_unspent_iff [simp]: "is_unspent sp \<longleftrightarrow> sp = None"
  by (cases sp) (auto simp: is_unspent_def spend_status_query_def query_simps)

lemma spend_status_any [simp]: "spend_status_query sp any_status"
  by (auto simp: spend_status_query_def query_simps)

lemma spend_status_only_unspent [simp]: "spend_status_query sp only_unspent \<longleftrightarrow> sp = None"
  using is_unspent_iff [of sp] by (simp only: is_unspent_def)

lemma spend_status_spentish [simp]: "spend_status_query sp spentish \<longleftrightarrow> sp \<noteq> None"
  by (cases sp) (auto simp: spend_status_query_def query_simps)

lemma spend_status_only_pending [simp]:
  "spend_status_query sp only_pending_spent \<longleftrightarrow> is_pending_spent sp"
  by (simp add: spend_status_query_def query_simps)

lemma spend_status_only_spent [simp]:
  "spend_status_query sp only_spent \<longleftrightarrow> is_spent_confirmed sp"
  by (simp add: spend_status_query_def query_simps)

lemma pool_query_one_pool [simp]: "pool_query pool (one_pool pool') \<longleftrightarrow> pool = pool'"
  by (cases pool' rule: one_pool.cases; cases pool rule: one_pool.cases)
     (auto simp: pool_query_def)

lemma pool_query_any [simp]: "pool_query pool any_pool"
  by (cases pool rule: one_pool.cases) (auto simp: pool_query_def query_simps)

section \<open>Memos\<close>

text \<open>The public enum \<open>zcash_primitives::memo::Memo\<close>.\<close>

datatype memo =
    Memo_Empty
  | Memo_Text string
  | Memo_Future "byte list"
  | Memo_Arbitrary "byte list"

section \<open>Transparent outputs\<close>

record transparent_output =
  to_address :: string
  to_txid :: txid
  to_output_index :: u64
  to_script :: "byte list"
  to_value :: u64
  to_spend :: spend

definition transparent_from_parts ::
  "string \<Rightarrow> txid \<Rightarrow> u64 \<Rightarrow> byte list \<Rightarrow> u64 \<Rightarrow> spend \<Rightarrow> transparent_output" where
  "transparent_from_parts address txid output_index script v sp =
     \<lparr> to_address = address, to_txid = txid, to_output_index = output_index,
       to_script = script, to_value = v, to_spend = sp \<rparr>"

definition to_outpoint :: "transparent_output \<Rightarrow> txid \<times> u32" where
  "to_outpoint t = (to_txid t, ucast (to_output_index t))"

section \<open>Shielded notes\<close>

datatype rseed = BeforeZip212 "byte list" | AfterZip212 "byte list"

record sapling_crypto_note =
  sc_recipient :: "byte list"
  sc_value :: u64
  sc_rseed :: rseed

record orchard_crypto_note =
  oc_recipient :: "byte list"
  oc_value :: u64
  oc_rho :: "byte list"
  oc_rseed :: "byte list"

record 'n shielded_note =
  sn_diversifier :: "byte list"
  sn_note :: 'n
  sn_witnessed_position :: "u64 option"
  sn_output_index :: "u32 option"
  sn_nullifier :: "nullifier option"
  sn_spend :: spend
  sn_memo :: "memo option"
  sn_is_change :: bool
  sn_have_spending_key :: bool

type_synonym sapling_note = "sapling_crypto_note shielded_note"
type_synonym orchard_note = "orchard_crypto_note shielded_note"

definition shielded_from_parts ::
  "byte list \<Rightarrow> 'n \<Rightarrow> u64 option \<Rightarrow> nullifier option \<Rightarrow> spend \<Rightarrow> memo option \<Rightarrow> bool \<Rightarrow> bool \<Rightarrow>
   u32 option \<Rightarrow> 'n shielded_note" where
  "shielded_from_parts diversifier note witnessed_position nf sp memo is_change have_spending_key
       output_index =
     \<lparr> sn_diversifier = diversifier, sn_note = note, sn_witnessed_position = witnessed_position,
       sn_output_index = output_index, sn_nullifier = nf, sn_spend = sp, sn_memo = memo,
       sn_is_change = is_change, sn_have_spending_key = have_spending_key \<rparr>"

definition sapling_value :: "sapling_note \<Rightarrow> u64" where
  "sapling_value n = sc_value (sn_note n)"

definition orchard_value :: "orchard_note \<Rightarrow> u64" where
  "orchard_value n = oc_value (sn_note n)"

definition pending_receipt :: "'n shielded_note \<Rightarrow> bool" where
  "pending_receipt n = (sn_nullifier n = None)"

definition sapling_deprecated_view_key_buffer :: "byte list" where
  "sapling_deprecated_view_key_buffer = replicate 169 0"

definition orchard_deprecated_view_key_buffer :: "byte list" where
  "orchard_deprecated_view_key_buffer = replicate 96 0"

section \<open>The enum of all outputs\<close>

datatype wallet_output =
    TransparentOutput transparent_output
  | SaplingNote sapling_note
  | OrchardNote orchard_note

fun output_pool_type :: "wallet_output \<Rightarrow> pool_type" where
  "output_pool_type (TransparentOutput _) = Transparent"
| "output_pool_type (SaplingNote _) = Shielded Sapling"
| "output_pool_type (OrchardNote _) = Shielded Orchard"

fun output_value :: "wallet_output \<Rightarrow> u64" where
  "output_value (TransparentOutput t) = to_value t"
| "output_value (SaplingNote n) = sapling_value n"
| "output_value (OrchardNote n) = orchard_value n"

fun output_spending_tx_status :: "wallet_output \<Rightarrow> spend" where
  "output_spending_tx_status (TransparentOutput t) = to_spend t"
| "output_spending_tx_status (SaplingNote n) = sn_spend n"
| "output_spending_tx_status (OrchardNote n) = sn_spend n"

fun output_set_spend :: "spend \<Rightarrow> wallet_output \<Rightarrow> wallet_output" where
  "output_set_spend sp (TransparentOutput t) = TransparentOutput (t\<lparr>to_spend := sp\<rparr>)"
| "output_set_spend sp (SaplingNote n) = SaplingNote (n\<lparr>sn_spend := sp\<rparr>)"
| "output_set_spend sp (OrchardNote n) = OrchardNote (n\<lparr>sn_spend := sp\<rparr>)"

definition sum_gross_value :: "wallet_output list \<Rightarrow> u64" where
  "sum_gross_value xs = foldl (\<lambda>total out. total + output_value out) 0 xs"

section \<open>The contract of the trait\<close>

text \<open>What a client of \<open>OutputInterface\<close> relies on: writing through \<open>spending_tx_status_mut\<close>
  changes the spend and neither the value nor the pool.\<close>

locale output_interface =
  fixes opool :: "'o \<Rightarrow> pool_type"
    and oval :: "'o \<Rightarrow> u64"
    and ospend :: "'o \<Rightarrow> spend"
    and set_ospend :: "spend \<Rightarrow> 'o \<Rightarrow> 'o"
  assumes ospend_set: "ospend (set_ospend sp x) = sp"
    and oval_set: "oval (set_ospend sp x) = oval x"
    and opool_set: "opool (set_ospend sp x) = opool x"
    and set_same: "set_ospend (ospend x) x = x"
begin

text \<open>The three elementary statuses partition every sum of values.\<close>

lemma status_partition:
  "sum_list (map oval xs) =
   sum_list (map oval (filter (\<lambda>x. spend_status_query (ospend x) only_unspent) xs)) +
   sum_list (map oval (filter (\<lambda>x. spend_status_query (ospend x) only_pending_spent) xs)) +
   sum_list (map oval (filter (\<lambda>x. spend_status_query (ospend x) only_spent) xs))"
proof (induction xs)
  case (Cons x xs)
  then show ?case
    by (cases "ospend x") (auto simp: ac_simps)
qed simp

lemma spentish_split:
  "sum_list (map oval (filter (\<lambda>x. spend_status_query (ospend x) spentish) xs)) =
   sum_list (map oval (filter (\<lambda>x. spend_status_query (ospend x) only_pending_spent) xs)) +
   sum_list (map oval (filter (\<lambda>x. spend_status_query (ospend x) only_spent) xs))"
proof (induction xs)
  case (Cons x xs)
  then show ?case
    by (cases "ospend x") (auto simp: ac_simps)
qed simp

text \<open>Unspending every output whose spender is in a list of transactions.\<close>

definition unspend where
  "unspend txids x =
     (case ospend x of Some (t, _) \<Rightarrow> if t \<in> set txids then set_ospend None x else x | None \<Rightarrow> x)"

lemma unspend_spender: "spending_txid (ospend (unspend txids x)) = Some t \<Longrightarrow> t \<notin> set txids"
  by (auto simp: unspend_def spending_txid_def ospend_set split: option.splits if_splits)

lemma unspend_value: "oval (unspend txids x) = oval x"
  by (auto simp: unspend_def oval_set split: option.splits)

lemma unspend_pool: "opool (unspend txids x) = opool x"
  by (auto simp: unspend_def opool_set split: option.splits)

lemma unspend_idem: "unspend txids (unspend txids x) = unspend txids x"
  by (auto simp: unspend_def ospend_set split: option.splits)

end

interpretation tout: output_interface "\<lambda>_. Transparent" to_value to_spend
  "\<lambda>sp t. t\<lparr>to_spend := sp\<rparr>"
  by unfold_locales auto

interpretation snote: output_interface "\<lambda>_. Shielded Sapling" sapling_value sn_spend
  "\<lambda>sp n. n\<lparr>sn_spend := sp\<rparr>"
  by unfold_locales (auto simp: sapling_value_def)

interpretation onote: output_interface "\<lambda>_. Shielded Orchard" orchard_value sn_spend
  "\<lambda>sp n. n\<lparr>sn_spend := sp\<rparr>"
  by unfold_locales (auto simp: orchard_value_def)

interpretation outp: output_interface output_pool_type output_value output_spending_tx_status
  output_set_spend
proof unfold_locales
  fix sp and x :: wallet_output
  show "output_spending_tx_status (output_set_spend sp x) = sp" by (cases x) auto
  show "output_value (output_set_spend sp x) = output_value x"
    by (cases x) (auto simp: sapling_value_def orchard_value_def)
  show "output_pool_type (output_set_spend sp x) = output_pool_type x" by (cases x) auto
  show "output_set_spend (output_spending_tx_status x) x = x" by (cases x) auto
qed

end
