(* ===== verification/Transaction_Record.thy ===== *)
theory Transaction_Record
  imports Output_Notes
begin

text \<open>
  What the wallet knows about one transaction: \<open>wallet/transaction_record.rs\<close>, the outgoing data
  of \<open>wallet/data.rs\<close> and the outputs of a record as \<open>wallet/notes.rs\<close> collects them.

  Code generic in the domain \<open>D: DomainWalletExt\<close> takes the pair of accessors of the pool's notes
  in the record (\<open>transaction_metadata_notes\<close> and \<open>transaction_metadata_notes_mut\<close>), which for
  the two pools are the selector and the update of the record field. The locale \<open>note_pool\<close> is
  the contract of such a pair. Sums of \<open>u64\<close> wrap, as in the release build.
\<close>

section \<open>Outgoing data\<close>

record outgoing_tx_data =
  ot_recipient_address :: string
  ot_value :: u64
  ot_memo :: memo
  ot_recipient_ua :: "string option"

definition outgoing_tx_data_eq :: "outgoing_tx_data \<Rightarrow> outgoing_tx_data \<Rightarrow> bool" where
  "outgoing_tx_data_eq a b \<longleftrightarrow>
     (ot_recipient_address a = ot_recipient_address b \<or> ot_recipient_ua a = ot_recipient_ua b) \<and>
     ot_value a = ot_value b \<and> ot_memo a = ot_memo b"

datatype pool_nullifier = SaplingNullifier nullifier | OrchardNullifier nullifier

section \<open>The record\<close>

record transaction_record =
  tr_status :: confirmation_status
  tr_datetime :: u64
  tr_txid :: txid
  tr_spent_sapling_nullifiers :: "nullifier list"
  tr_spent_orchard_nullifiers :: "nullifier list"
  tr_sapling_notes :: "sapling_note list"
  tr_orchard_notes :: "orchard_note list"
  tr_transparent_outputs :: "transparent_output list"
  tr_total_transparent_value_spent :: u64
  tr_total_sapling_value_spent :: u64
  tr_total_orchard_value_spent :: u64
  tr_outgoing_tx_data :: "outgoing_tx_data list"
  tr_price :: "f64_bits option"

definition new_record :: "confirmation_status \<Rightarrow> u64 \<Rightarrow> txid \<Rightarrow> transaction_record" where
  "new_record status datetime transaction_id =
     \<lparr> tr_status = status, tr_datetime = datetime, tr_txid = transaction_id,
       tr_spent_sapling_nullifiers = [], tr_spent_orchard_nullifiers = [],
       tr_sapling_notes = [], tr_orchard_notes = [], tr_transparent_outputs = [],
       tr_total_transparent_value_spent = 0, tr_total_sapling_value_spent = 0,
       tr_total_orchard_value_spent = 0, tr_outgoing_tx_data = [], tr_price = None \<rparr>"

fun add_spent_nullifier :: "pool_nullifier \<Rightarrow> u64 \<Rightarrow> transaction_record \<Rightarrow> transaction_record" where
  "add_spent_nullifier (SaplingNullifier nf) v r =
     r\<lparr> tr_spent_sapling_nullifiers := tr_spent_sapling_nullifiers r @ [nf],
        tr_total_sapling_value_spent := tr_total_sapling_value_spent r + v \<rparr>"
| "add_spent_nullifier (OrchardNullifier nf) v r =
     r\<lparr> tr_spent_orchard_nullifiers := tr_spent_orchard_nullifiers r @ [nf],
        tr_total_orchard_value_spent := tr_total_orchard_value_spent r + v \<rparr>"

type_synonym 'n pool_get = "transaction_record \<Rightarrow> 'n shielded_note list"
type_synonym 'n pool_upd =
  "('n shielded_note list \<Rightarrow> 'n shielded_note list) \<Rightarrow> transaction_record \<Rightarrow> transaction_record"

text \<open>\<open>output_index as u32\<close> keeps the low 32 bits of the 64-bit \<open>usize\<close>.\<close>

definition add_pending_note ::
  "'n pool_get \<Rightarrow> 'n pool_upd \<Rightarrow> 'n \<Rightarrow> byte list \<Rightarrow> u64 \<Rightarrow> transaction_record \<Rightarrow>
   transaction_record" where
  "add_pending_note notes notes_upd note to_diversifier output_index r =
     (if \<not> list_ex (\<lambda>n. sn_note n = note) (notes r)
      then notes_upd (\<lambda>ns. ns @ [shielded_from_parts to_diversifier note None None None None
                                  False False (Some (ucast output_index))]) r
      else r)"

definition update_output_index ::
  "'n pool_get \<Rightarrow> 'n pool_upd \<Rightarrow> 'n \<Rightarrow> u64 \<Rightarrow> transaction_record \<Rightarrow>
   transaction_record \<times> (unit + unit)" where
  "update_output_index notes notes_upd note output_index r =
     (case find (\<lambda>n. sn_note n = note) (notes r) of
        Some n \<Rightarrow>
          (if sn_output_index n = None
           then notes_upd (update_first (\<lambda>n. sn_note n = note)
                  (\<lambda>n. n\<lparr> sn_output_index := Some (ucast output_index) \<rparr>)) r
           else r, Inr ())
      | None \<Rightarrow> (r, Inl ()))"

section \<open>Queries over a record\<close>

definition query_sum_value :: "transaction_record \<Rightarrow> output_query \<Rightarrow> u64" where
  "query_sum_value r include_notes =
     (let spend_status = q_spend_status include_notes;
          sum = 0;
          sum = (if q_transparent (q_pools include_notes)
                 then foldl (\<lambda>s note. if spend_status_query (to_spend note) spend_status
                                      then s + to_value note else s)
                        sum (tr_transparent_outputs r)
                 else sum);
          sum = (if q_sapling (q_pools include_notes)
                 then foldl (\<lambda>s note. if spend_status_query (sn_spend note) spend_status
                                      then s + sapling_value note else s)
                        sum (tr_sapling_notes r)
                 else sum);
          sum = (if q_orchard (q_pools include_notes)
                 then foldl (\<lambda>s note. if spend_status_query (sn_spend note) spend_status
                                      then s + orchard_value note else s)
                        sum (tr_orchard_notes r)
                 else sum)
      in sum)"

definition total_value_received :: "transaction_record \<Rightarrow> u64" where
  "total_value_received r = query_sum_value r any_output"

definition value_outgoing :: "transaction_record \<Rightarrow> u64" where
  "value_outgoing r =
     foldl (\<lambda>running_total tx_data. ot_value tx_data + running_total) 0 (tr_outgoing_tx_data r)"

definition total_value_output_to_explicit_receivers :: "transaction_record \<Rightarrow> u64" where
  "total_value_output_to_explicit_receivers r = total_value_received r + value_outgoing r"

definition sum_pool_change :: "('n shielded_note \<Rightarrow> u64) \<Rightarrow> 'n shielded_note list \<Rightarrow> u64" where
  "sum_pool_change nvalue notes = sum_list (map nvalue (filter sn_is_change notes))"

definition total_change_returned :: "transaction_record \<Rightarrow> u64" where
  "total_change_returned r =
     sum_pool_change sapling_value (tr_sapling_notes r) +
     sum_pool_change orchard_value (tr_orchard_notes r)"

definition value_spent_by_pool :: "transaction_record \<Rightarrow> u64 list" where
  "value_spent_by_pool r =
     [tr_total_transparent_value_spent r, tr_total_sapling_value_spent r,
      tr_total_orchard_value_spent r]"

definition total_value_spent :: "transaction_record \<Rightarrow> u64" where
  "total_value_spent r = sum_list (value_spent_by_pool r)"

text \<open>The values that \<open>MetadataUnderflow\<close> formats into its message.\<close>

datatype metadata_error = MetadataUnderflow txid confirmation_status u64 u64 u64

definition get_transaction_fee :: "transaction_record \<Rightarrow> metadata_error + u64" where
  "get_transaction_fee r =
     (let outputted = value_outgoing r + total_change_returned r in
      if total_value_spent r \<ge> outputted then Inr (total_value_spent r - outputted)
      else Inl (MetadataUnderflow (tr_txid r) (tr_status r) (total_value_spent r)
                  (value_outgoing r) (total_change_returned r)))"

definition is_outgoing_transaction :: "transaction_record \<Rightarrow> bool" where
  "is_outgoing_transaction r \<longleftrightarrow>
     tr_outgoing_tx_data r \<noteq> [] \<or> total_value_output_to_explicit_receivers r \<noteq> 0"

definition is_incoming_transaction :: "transaction_record \<Rightarrow> bool" where
  "is_incoming_transaction r \<longleftrightarrow>
     list_ex (\<lambda>note. \<not> sn_is_change note) (tr_sapling_notes r) \<or>
     list_ex (\<lambda>note. \<not> sn_is_change note) (tr_orchard_notes r) \<or>
     tr_transparent_outputs r \<noteq> []"

section \<open>Note identifiers\<close>

record note_id =
  ni_txid :: txid
  ni_protocol :: shielded_protocol
  ni_output_index :: u16

record 'n received_note =
  rn_note_id :: note_id
  rn_txid :: txid
  rn_output_index :: u16
  rn_note :: 'n
  rn_position :: u64

definition get_received_note ::
  "shielded_protocol \<Rightarrow> 'n pool_get \<Rightarrow> transaction_record \<Rightarrow> u32 \<Rightarrow> 'n received_note option" where
  "get_received_note protocol notes r index =
     (case find (\<lambda>note. sn_output_index note = Some index) (notes r) of
        None \<Rightarrow> None
      | Some note \<Rightarrow>
          (let nid = \<lparr> ni_txid = tr_txid r, ni_protocol = protocol,
                       ni_output_index = ucast index \<rparr>
           in map_option
                (\<lambda>pos. \<lparr> rn_note_id = nid, rn_txid = tr_txid r, rn_output_index = ucast index,
                         rn_note = sn_note note, rn_position = pos \<rparr>)
                (sn_witnessed_position note)))"

definition collect_note_id ::
  "txid \<Rightarrow> shielded_protocol \<Rightarrow> ('n shielded_note \<Rightarrow> u64) \<Rightarrow> note_id list \<Rightarrow>
   (note_id \<times> u64) list \<times> bool \<Rightarrow> 'n shielded_note \<Rightarrow> (note_id \<times> u64) list \<times> bool" where
  "collect_note_id txid protocol nvalue exclude acc note =
     (case acc of (all, missing_output_index) \<Rightarrow>
        if is_unspent (sn_spend note)
        then (case sn_output_index note of
                Some output_index \<Rightarrow>
                  (let nid = \<lparr> ni_txid = txid, ni_protocol = protocol,
                               ni_output_index = ucast output_index \<rparr>
                   in if nid \<notin> set exclude
                      then (all @ [(nid, nvalue note)], missing_output_index)
                      else (all, missing_output_index))
              | None \<Rightarrow> (all, True))
        else (all, missing_output_index))"

definition record_spendable_note_ids_and_values ::
  "transaction_record \<Rightarrow> shielded_protocol list \<Rightarrow> note_id list \<Rightarrow>
   unit + (note_id \<times> u64) list" where
  "record_spendable_note_ids_and_values r sources exclude =
     (let acc = ([], False);
          acc = (if Sapling \<in> set sources
                 then foldl (collect_note_id (tr_txid r) Sapling sapling_value exclude) acc
                        (tr_sapling_notes r)
                 else acc);
          acc = (if Orchard \<in> set sources
                 then foldl (collect_note_id (tr_txid r) Orchard orchard_value exclude) acc
                        (tr_orchard_notes r)
                 else acc)
      in if snd acc then Inl () else Inr (fst acc))"

section \<open>All outputs of a record\<close>

definition get_record_outputs :: "transaction_record \<Rightarrow> wallet_output list" where
  "get_record_outputs r =
     map TransparentOutput (tr_transparent_outputs r) @
     map SaplingNote (tr_sapling_notes r) @
     map OrchardNote (tr_orchard_notes r)"

definition get_all_outputs_with_status ::
  "transaction_record \<Rightarrow> output_spend_status_query \<Rightarrow> wallet_output list" where
  "get_all_outputs_with_status r q =
     map TransparentOutput (filter (\<lambda>t. spend_status_query (to_spend t) q) (tr_transparent_outputs r)) @
     map SaplingNote (filter (\<lambda>n. spend_status_query (sn_spend n) q) (tr_sapling_notes r)) @
     map OrchardNote (filter (\<lambda>n. spend_status_query (sn_spend n) q) (tr_orchard_notes r))"

section \<open>Kinds of transactions\<close>

datatype send_type = Send | Shield | SendToSelf

datatype tx_kind = Sent send_type | Received

fun transaction_kind_display :: "tx_kind \<Rightarrow> string" where
  "transaction_kind_display Received = ''received''"
| "transaction_kind_display (Sent Send) = ''sent''"
| "transaction_kind_display (Sent Shield) = ''shield''"
| "transaction_kind_display (Sent SendToSelf) = ''send-to-self''"

section \<open>The contract of a note pool\<close>

locale note_pool =
  fixes pget :: "'n pool_get" and pupd :: "'n pool_upd"
  assumes get_upd: "pget (pupd f r) = f (pget r)"
    and upd_id: "pupd (\<lambda>ns. ns) r = r"
    and upd_upd: "pupd g (pupd f r) = pupd (g \<circ> f) r"
    and upd_cong: "f (pget r) = g (pget r) \<Longrightarrow> pupd f r = pupd g r"
    and upd_txid: "tr_txid (pupd f r) = tr_txid r"
    and upd_status: "tr_status (pupd f r) = tr_status r"
begin

lemma add_pending_note_mem:
  "\<exists>n \<in> set (pget (add_pending_note pget pupd cn d i r)). sn_note n = cn"
  by (auto simp: add_pending_note_def get_upd shielded_from_parts_def list_ex_iff)

lemma add_pending_note_idem:
  "add_pending_note pget pupd cn d j (add_pending_note pget pupd cn d' i r) =
   add_pending_note pget pupd cn d' i r"
  using add_pending_note_mem [of cn d' i r]
  by (subst add_pending_note_def) (auto simp: list_ex_iff)

lemma update_output_index_keeps_notes:
  "map sn_note (pget (fst (update_output_index pget pupd cn i r))) = map sn_note (pget r)"
  by (auto simp: update_output_index_def get_upd update_first_map split: option.splits)

lemma update_output_index_err_iff:
  "snd (update_output_index pget pupd cn i r) = Inl () \<longleftrightarrow>
   cn \<notin> sn_note ` set (pget r)"
  by (auto simp: update_output_index_def find_None_set image_iff split: option.splits
           dest!: find_Some_set)

text \<open>An index that is already known is never overwritten.\<close>

lemma update_output_index_known:
  assumes "\<forall>n \<in> set (pget r). sn_output_index n \<noteq> None"
  shows "fst (update_output_index pget pupd cn i r) = r"
  using assms by (auto simp: update_output_index_def split: option.splits dest!: find_Some_set)

lemma get_received_note_sound:
  assumes "get_received_note protocol pget r index = Some rn"
  shows "\<exists>n \<in> set (pget r). sn_output_index n = Some index \<and> rn_note rn = sn_note n \<and>
           sn_witnessed_position n = Some (rn_position rn) \<and>
           rn_note_id rn = \<lparr> ni_txid = tr_txid r, ni_protocol = protocol,
                             ni_output_index = ucast index \<rparr>"
  using assms by (auto simp: get_received_note_def Let_def split: option.splits dest!: find_Some_set)

end

interpretation sapling_pool: note_pool tr_sapling_notes tr_sapling_notes_update
  by unfold_locales (auto simp: comp_def)

interpretation orchard_pool: note_pool tr_orchard_notes tr_orchard_notes_update
  by unfold_locales (auto simp: comp_def)

section \<open>Sums over a record\<close>

lemma query_sum_value_eq:
  "query_sum_value r q =
     (if q_transparent (q_pools q)
      then sum_list (map to_value (filter (\<lambda>t. spend_status_query (to_spend t) (q_spend_status q))
             (tr_transparent_outputs r))) else 0) +
     (if q_sapling (q_pools q)
      then sum_list (map sapling_value (filter (\<lambda>n. spend_status_query (sn_spend n) (q_spend_status q))
             (tr_sapling_notes r))) else 0) +
     (if q_orchard (q_pools q)
      then sum_list (map orchard_value (filter (\<lambda>n. spend_status_query (sn_spend n) (q_spend_status q))
             (tr_orchard_notes r))) else 0)"
  by (simp add: query_sum_value_def foldl_if_sum_list Let_def)

lemma sum_gross_value_eq: "sum_gross_value xs = sum_list (map output_value xs)"
  by (simp add: sum_gross_value_def foldl_plus_sum_list)

lemma value_outgoing_eq: "value_outgoing r = sum_list (map ot_value (tr_outgoing_tx_data r))"
  using foldl_plus_sum_list [of ot_value 0 "tr_outgoing_tx_data r"]
  by (simp add: value_outgoing_def add.commute)

lemma get_record_outputs_any: "get_all_outputs_with_status r any_status = get_record_outputs r"
  by (simp add: get_all_outputs_with_status_def get_record_outputs_def)

lemma filter_outputs_with_status:
  "filter (\<lambda>x. spend_status_query (output_spending_tx_status x) q) (get_record_outputs r) =
   get_all_outputs_with_status r q"
  by (simp add: get_record_outputs_def get_all_outputs_with_status_def filter_map comp_def)

end
