(* ===== verification/Zingo_Config.thy ===== *)
theory Zingo_Config
  imports Zingo_Prelude
begin

text \<open>
  Configuration: the constants, the chain types with their activation heights, the configuration
  builder and the paths of \<open>zingolib/src/config.rs\<close>. The activation heights of the two public
  networks belong to \<open>zcash_primitives\<close> and are arguments; so are the URI parser, the home
  directory and the outcome of creating a directory.
\<close>

section \<open>Constants\<close>

definition ZENNIES_FOR_ZINGO_REGTEST_ADDRESS :: string where
  "ZENNIES_FOR_ZINGO_REGTEST_ADDRESS = ''uregtest14emvr2anyul683p43d0ck55c04r65ld6f0shetcn77z8j7m64hm4ku3wguf60s75f0g3s7r7g89z22f3ff5tsfgr45efj4pe2gyg5krqp5vvl3afu0280zp9ru2379zat5y6nkqkwjxsvpq5900kchcgzaw8v8z3ggt5yymnuj9hymtv3p533fcrk2wnj48g5vg42vle08c2xtanq0e''"

definition ZENNIES_FOR_ZINGO_TESTNET_ADDRESS :: string where
  "ZENNIES_FOR_ZINGO_TESTNET_ADDRESS = ''utest19zd9laj93deq4lkay48xcfyh0tjec786x6yrng38fp6zusgm0c84h3el99fngh8eks4kxv020r2h2njku6pf69anpqmjq5c3suzcjtlyhvpse0aqje09la48xk6a2cnm822s2yhuzfr47pp4dla9rakdk90g0cee070z57d3trqk87wwj4swz6uf6ts6p5z6lep3xyvueuvt7392tww''"

definition ZENNIES_FOR_ZINGO_DONATION_ADDRESS :: string where
  "ZENNIES_FOR_ZINGO_DONATION_ADDRESS = ''u1p32nu0pgev5cr0u6t4ja9lcn29kaw37xch8nyglwvp7grl07f72c46hxvw0u3q58ks43ntg324fmulc2xqf4xl3pv42s232m25vaukp05s6av9z76s3evsstax4u6f5g7tql5yqwuks9t4ef6vdayfmrsymenqtshgxzj59hdydzygesqa7pdpw463hu7afqf4an29m69kfasdwr494''"

definition ZENNIES_FOR_ZINGO_AMOUNT :: u64 where
  "ZENNIES_FOR_ZINGO_AMOUNT = 1000000"

definition DEFAULT_LIGHTWALLETD_SERVER :: string where
  "DEFAULT_LIGHTWALLETD_SERVER = ''https://zec.rocks:443''"

definition MAX_REORG :: u64 where
  "MAX_REORG = 100"

definition DEFAULT_WALLET_NAME :: string where
  "DEFAULT_WALLET_NAME = ''zingo-wallet.dat''"

definition DEFAULT_LOGFILE_NAME :: string where
  "DEFAULT_LOGFILE_NAME = ''zingo-wallet.debug.log''"

definition REORG_BUFFER_OFFSET :: u32 where
  "REORG_BUFFER_OFFSET = 0"

definition BATCH_SIZE :: u64 where
  "BATCH_SIZE = 100"

section \<open>Chains and activation heights\<close>

datatype network_upgrade = Overwinter | Sapling_Upgrade | Blossom | Heartwood | Canopy | Nu5 | Nu6

record activation_heights =
  ah_overwinter :: block_height
  ah_sapling :: block_height
  ah_blossom :: block_height
  ah_heartwood :: block_height
  ah_canopy :: block_height
  ah_orchard :: block_height

definition new_activation_heights ::
  "u64 \<Rightarrow> u64 \<Rightarrow> u64 \<Rightarrow> u64 \<Rightarrow> u64 \<Rightarrow> u64 \<Rightarrow> activation_heights" where
  "new_activation_heights overwinter sapling blossom heartwood canopy orchard =
     \<lparr> ah_overwinter = ucast overwinter, ah_sapling = ucast sapling, ah_blossom = ucast blossom,
       ah_heartwood = ucast heartwood, ah_canopy = ucast canopy, ah_orchard = ucast orchard \<rparr>"

text \<open>\<open>None\<close> is the \<open>todo!()\<close> of the Nu6 arm, a panic.\<close>

fun get_activation_height :: "activation_heights \<Rightarrow> network_upgrade \<Rightarrow> block_height option" where
  "get_activation_height a Overwinter = Some (ah_overwinter a)"
| "get_activation_height a Sapling_Upgrade = Some (ah_sapling a)"
| "get_activation_height a Blossom = Some (ah_blossom a)"
| "get_activation_height a Heartwood = Some (ah_heartwood a)"
| "get_activation_height a Canopy = Some (ah_canopy a)"
| "get_activation_height a Nu5 = Some (ah_orchard a)"
| "get_activation_height a Nu6 = None"

record regtest_network =
  rt_activation_heights :: activation_heights

definition new_regtest_network ::
  "u64 \<Rightarrow> u64 \<Rightarrow> u64 \<Rightarrow> u64 \<Rightarrow> u64 \<Rightarrow> u64 \<Rightarrow> regtest_network" where
  "new_regtest_network overwinter sapling blossom heartwood canopy orchard =
     \<lparr> rt_activation_heights =
         new_activation_heights overwinter sapling blossom heartwood canopy orchard \<rparr>"

definition all_upgrades_active :: regtest_network where
  "all_upgrades_active = \<lparr> rt_activation_heights = new_activation_heights 1 1 1 1 1 1 \<rparr>"

definition set_orchard :: "u64 \<Rightarrow> regtest_network" where
  "set_orchard orchard_activation_height =
     \<lparr> rt_activation_heights = new_activation_heights 1 1 1 1 1 orchard_activation_height \<rparr>"

text \<open>The outer option is the panic, the inner one the value the method returns.\<close>

fun regtest_activation_height ::
  "regtest_network \<Rightarrow> network_upgrade \<Rightarrow> block_height option option" where
  "regtest_activation_height n Nu6 = Some None"
| "regtest_activation_height n nu =
     (case get_activation_height (rt_activation_heights n) nu of
        None \<Rightarrow> None | Some h \<Rightarrow> Some (Some h))"

datatype chain_type = Testnet | Regtest regtest_network | Mainnet

fun chain_type_display :: "chain_type \<Rightarrow> string" where
  "chain_type_display Testnet = ''test''"
| "chain_type_display (Regtest _) = ''regtest''"
| "chain_type_display Mainnet = ''main''"

fun hrp_orchard_spending_key :: "chain_type \<Rightarrow> string" where
  "hrp_orchard_spending_key Testnet = ''secret-orchard-sk-test''"
| "hrp_orchard_spending_key (Regtest _) = ''secret-orchard-sk-regtest''"
| "hrp_orchard_spending_key Mainnet = ''secret-orchard-sk-main''"

fun hrp_unified_full_viewing_key :: "chain_type \<Rightarrow> string" where
  "hrp_unified_full_viewing_key Testnet = ''uviewtest''"
| "hrp_unified_full_viewing_key (Regtest _) = ''uviewregtest''"
| "hrp_unified_full_viewing_key Mainnet = ''uview''"

fun base58_secretkey_prefix :: "chain_type \<Rightarrow> byte list" where
  "base58_secretkey_prefix Testnet = [0xEF]"
| "base58_secretkey_prefix (Regtest _) = [0xEF]"
| "base58_secretkey_prefix Mainnet = [0x80]"

datatype network_type = Main_Network | Test_Network | Regtest_Network

fun network_type_of :: "chain_type \<Rightarrow> network_type" where
  "network_type_of Mainnet = Main_Network"
| "network_type_of Testnet = Test_Network"
| "network_type_of (Regtest _) = Regtest_Network"

type_synonym public_heights = "network_upgrade \<Rightarrow> block_height option"

fun chain_activation_height ::
  "public_heights \<Rightarrow> public_heights \<Rightarrow> chain_type \<Rightarrow> network_upgrade \<Rightarrow> block_height option option"
where
  "chain_activation_height main test Mainnet nu = Some (main nu)"
| "chain_activation_height main test Testnet nu = Some (test nu)"
| "chain_activation_height main test (Regtest n) nu = regtest_activation_height n nu"

text \<open>\<open>activation_height(..).unwrap().into()\<close>: the two layers of failure are both panics.\<close>

definition sapling_activation_height ::
  "public_heights \<Rightarrow> public_heights \<Rightarrow> chain_type \<Rightarrow> u64 option" where
  "sapling_activation_height main test chain =
     (case chain_activation_height main test chain Sapling_Upgrade of
        Some (Some h) \<Rightarrow> Some (ucast h) | _ \<Rightarrow> None)"

definition orchard_activation_height ::
  "public_heights \<Rightarrow> public_heights \<Rightarrow> chain_type \<Rightarrow> u64 option" where
  "orchard_activation_height main test chain =
     (case chain_activation_height main test chain Nu5 of
        Some (Some h) \<Rightarrow> Some (ucast h) | _ \<Rightarrow> None)"

section \<open>The configuration and its builder\<close>

text \<open>A path is its list of components and whether it is absolute; pushing an absolute path
  replaces the receiver, as \<open>PathBuf::push\<close> does.\<close>

record path =
  p_absolute :: bool
  p_components :: "string list"

definition relative_path :: "string \<Rightarrow> path" where
  "relative_path s = \<lparr> p_absolute = False, p_components = [s] \<rparr>"

definition path_push :: "path \<Rightarrow> path \<Rightarrow> path" where
  "path_push p q =
     (if p_absolute q then q
      else p\<lparr> p_components := p_components p @ p_components q \<rparr>)"

record 'uri zingo_config_builder =
  b_lightwalletd_uri :: "'uri option"
  b_chain :: chain_type
  b_reorg_buffer_offset :: "u32 option"
  b_monitor_mempool :: "bool option"
  b_wallet_dir :: "path option"
  b_wallet_name :: "path option"
  b_logfile_name :: "path option"
  b_accept_server_txids :: bool

record 'uri zingo_config =
  c_lightwalletd_uri :: 'uri
  c_chain :: chain_type
  c_reorg_buffer_offset :: u32
  c_monitor_mempool :: bool
  c_wallet_dir :: "path option"
  c_wallet_name :: path
  c_logfile_name :: path
  c_accept_server_txids :: bool

definition default_builder :: "'uri zingo_config_builder" where
  "default_builder =
     \<lparr> b_lightwalletd_uri = None, b_chain = Mainnet, b_reorg_buffer_offset = None,
       b_monitor_mempool = None, b_wallet_dir = None, b_wallet_name = None,
       b_logfile_name = None, b_accept_server_txids = False \<rparr>"

definition build_config :: "chain_type \<Rightarrow> 'uri zingo_config_builder" where
  "build_config chain = default_builder\<lparr> b_chain := chain \<rparr>"

definition set_lightwalletd_uri ::
  "'uri \<Rightarrow> 'uri zingo_config_builder \<Rightarrow> 'uri zingo_config_builder" where
  "set_lightwalletd_uri uri b = b\<lparr> b_lightwalletd_uri := Some uri \<rparr>"

definition set_chain :: "chain_type \<Rightarrow> 'uri zingo_config_builder \<Rightarrow> 'uri zingo_config_builder" where
  "set_chain chain b = b\<lparr> b_chain := chain \<rparr>"

definition set_wallet_dir :: "path \<Rightarrow> 'uri zingo_config_builder \<Rightarrow> 'uri zingo_config_builder" where
  "set_wallet_dir dir b = b\<lparr> b_wallet_dir := Some dir \<rparr>"

definition create_config :: "'uri \<Rightarrow> 'uri zingo_config_builder \<Rightarrow> 'uri zingo_config" where
  "create_config default_uri b =
     \<lparr> c_lightwalletd_uri =
         (case b_lightwalletd_uri b of Some u \<Rightarrow> u | None \<Rightarrow> default_uri),
       c_chain = b_chain b,
       c_reorg_buffer_offset = REORG_BUFFER_OFFSET,
       c_monitor_mempool = False,
       c_wallet_dir = b_wallet_dir b,
       c_wallet_name = relative_path DEFAULT_WALLET_NAME,
       c_logfile_name = relative_path DEFAULT_LOGFILE_NAME,
       c_accept_server_txids = b_accept_server_txids b \<rparr>"

definition set_data_dir :: "path \<Rightarrow> 'uri zingo_config \<Rightarrow> 'uri zingo_config" where
  "set_data_dir dir c = c\<lparr> c_wallet_dir := Some dir \<rparr>"

text \<open>\<open>load_clientconfig\<close>: \<open>resolves\<close> is the outcome of the socket address lookup.\<close>

definition load_clientconfig ::
  "bool \<Rightarrow> 'uri \<Rightarrow> path option \<Rightarrow> chain_type \<Rightarrow> bool \<Rightarrow> string + 'uri zingo_config" where
  "load_clientconfig resolves uri data_dir chain monitor_mempool =
     (if \<not> resolves then Inl ''Couldn't resolve server!''
      else Inr \<lparr> c_lightwalletd_uri = uri, c_chain = chain,
                 c_reorg_buffer_offset = REORG_BUFFER_OFFSET,
                 c_monitor_mempool = monitor_mempool, c_wallet_dir = data_dir,
                 c_wallet_name = relative_path DEFAULT_WALLET_NAME,
                 c_logfile_name = relative_path DEFAULT_LOGFILE_NAME,
                 c_accept_server_txids = False \<rparr>)"

text \<open>The URI parser and the port of a parsed URI belong to the \<open>http\<close> crate. \<open>None\<close> is the
  panic of \<open>unwrap\<close>.\<close>

definition construct_lightwalletd_uri ::
  "(string \<Rightarrow> 'uri option) \<Rightarrow> ('uri \<Rightarrow> u16 option) \<Rightarrow> string option \<Rightarrow> 'uri option" where
  "construct_lightwalletd_uri parse port server =
     (case server of
        Some s \<Rightarrow>
          (let s = (if take 4 s = ''http'' then s else ''http://'' @ s) in
           case parse s of
             None \<Rightarrow> None
           | Some uri \<Rightarrow> parse (if port uri = None then s @ '':9067'' else s))
      | None \<Rightarrow> parse DEFAULT_LIGHTWALLETD_SERVER)"

text \<open>The desktop Linux branch of \<open>get_zingo_wallet_dir\<close>; \<open>None\<close> is a panic.\<close>

definition get_zingo_wallet_dir :: "path option \<Rightarrow> (path \<Rightarrow> bool) \<Rightarrow> 'uri zingo_config \<Rightarrow> path option" where
  "get_zingo_wallet_dir home create_dir_all c =
     (let location =
        (case c_wallet_dir c of
           Some dir \<Rightarrow> Some dir
         | None \<Rightarrow>
             (case home of
                None \<Rightarrow> None
              | Some h \<Rightarrow>
                  (let l = path_push h (relative_path ''.zcash'') in
                   Some (case c_chain c of
                           Testnet \<Rightarrow> path_push l (relative_path ''testnet3'')
                         | Regtest _ \<Rightarrow> path_push l (relative_path ''regtest'')
                         | Mainnet \<Rightarrow> l))))
      in case location of
           None \<Rightarrow> None
         | Some l \<Rightarrow> if create_dir_all l then Some l else None)"

definition get_wallet_pathbuf :: "path option \<Rightarrow> (path \<Rightarrow> bool) \<Rightarrow> 'uri zingo_config \<Rightarrow> path option" where
  "get_wallet_pathbuf home create_dir_all c =
     map_option (\<lambda>l. path_push l (c_wallet_name c)) (get_zingo_wallet_dir home create_dir_all c)"

definition get_log_path :: "path option \<Rightarrow> (path \<Rightarrow> bool) \<Rightarrow> 'uri zingo_config \<Rightarrow> path option" where
  "get_log_path home create_dir_all c =
     map_option (\<lambda>l. path_push l (c_logfile_name c)) (get_zingo_wallet_dir home create_dir_all c)"

section \<open>Laws\<close>

lemma regtest_never_panics: "regtest_activation_height n nu \<noteq> None"
  by (cases nu) auto

lemma chain_activation_height_total: "chain_activation_height main test c nu \<noteq> None"
  by (cases c) (auto simp: regtest_never_panics)

lemma default_paths_distinct:
  "get_wallet_pathbuf home mk (create_config u b) = Some w \<Longrightarrow>
   get_log_path home mk (create_config u b) = Some l \<Longrightarrow> w \<noteq> l"
  by (auto simp: get_wallet_pathbuf_def get_log_path_def path_push_def create_config_def
      relative_path_def DEFAULT_WALLET_NAME_def DEFAULT_LOGFILE_NAME_def
      dest: arg_cong [where f = p_components])

end
