(* ===== verification/Records_By_Id.thy ===== *)
theory Records_By_Id
  imports Transaction_Record Zingo_Config
begin

text \<open>
  The wallet's transaction records by id: \<open>wallet/transaction_records_by_id.rs\<close>, a
  \<open>HashMap<TxId, TransactionRecord>\<close> with the operations that scanning, sending, reorganisation
  and expiry perform on it. A panic (\<open>expect\<close>) is the result \<open>None\<close>.

  The invariant \<open>records_wf\<close> says that keys are distinct and that every record is stored under its
  own transaction id; every operation keeps it.
\<close>

section \<open>State\<close>

type_synonym records = "(txid, transaction_record) hash_map"

definition records_wf :: "records \<Rightarrow> bool" where
  "records_wf m \<longleftrightarrow> hm_wf m \<and> list_all (\<lambda>(k, r). tr_txid r = k) m"

definition new_records :: records where
  "new_records = []"

section \<open>Lookups and sums\<close>

definition records_query_sum_value :: "records \<Rightarrow> output_query \<Rightarrow> u64" where
  "records_query_sum_value m include_notes =
     foldl (\<lambda>partial_sum (_, record). partial_sum + query_sum_value record include_notes) 0 m"

definition get_received_spendable_note_from_identifier ::
  "shielded_protocol \<Rightarrow> 'n pool_get \<Rightarrow> records \<Rightarrow> note_id \<Rightarrow> 'n received_note option" where
  "get_received_spendable_note_from_identifier protocol notes m nid =
     (if ni_protocol nid = protocol
      then (case hm_get m (ni_txid nid) of
              None \<Rightarrow> None
            | Some transaction_record \<Rightarrow>
                (case find (\<lambda>n. sn_output_index n = Some (ucast (ni_output_index nid)))
                        (notes transaction_record) of
                   None \<Rightarrow> None
                 | Some n \<Rightarrow>
                     if spend_status_query (sn_spend n) only_unspent
                     then map_option
                       (\<lambda>pos. \<lparr> rn_note_id = nid, rn_txid = tr_txid transaction_record,
                                rn_output_index = ni_output_index nid, rn_note = sn_note n,
                                rn_position = pos \<rparr>)
                       (sn_witnessed_position n)
                     else None))
      else None)"

definition insert_transaction_record :: "transaction_record \<Rightarrow> records \<Rightarrow> records" where
  "insert_transaction_record r m = hm_insert (tr_txid r) r m"

section \<open>Invalidation\<close>

definition unspend_transparent :: "txid list \<Rightarrow> transparent_output \<Rightarrow> transparent_output" where
  "unspend_transparent invalidated_txids utxo =
     (if (case to_spend utxo of Some (txid, _) \<Rightarrow> txid \<in> set invalidated_txids | None \<Rightarrow> False)
      then utxo\<lparr> to_spend := None \<rparr> else utxo)"

definition invalidate_transaction_specific_transparent_spends ::
  "txid list \<Rightarrow> records \<Rightarrow> records" where
  "invalidate_transaction_specific_transparent_spends invalidated_txids m =
     hm_map_values (tr_transparent_outputs_update (map (unspend_transparent invalidated_txids))) m"

text \<open>The domain version first selects the spent or pending spent notes of the record.\<close>

definition unspend_note :: "txid list \<Rightarrow> 'n shielded_note \<Rightarrow> 'n shielded_note" where
  "unspend_note invalidated_txids n =
     (if spend_status_query (sn_spend n) spentish
      then (if (case sn_spend n of Some (txid, _) \<Rightarrow> txid \<in> set invalidated_txids | None \<Rightarrow> False)
            then n\<lparr> sn_spend := None \<rparr> else n)
      else n)"

definition invalidate_transaction_specific_domain_spends ::
  "'n pool_upd \<Rightarrow> txid list \<Rightarrow> records \<Rightarrow> records" where
  "invalidate_transaction_specific_domain_spends notes_upd invalidated_txids m =
     hm_map_values (notes_upd (map (unspend_note invalidated_txids))) m"

definition invalidate_transactions :: "txid list \<Rightarrow> records \<Rightarrow> records" where
  "invalidate_transactions txids_to_remove m =
     (let m = fold hm_remove txids_to_remove m;
          m = invalidate_transaction_specific_transparent_spends txids_to_remove m;
          m = invalidate_transaction_specific_domain_spends tr_sapling_notes_update txids_to_remove m;
          m = invalidate_transaction_specific_domain_spends tr_orchard_notes_update txids_to_remove m
      in m)"

definition invalidate_all_transactions_after_or_at_height :: "block_height \<Rightarrow> records \<Rightarrow> records" where
  "invalidate_all_transactions_after_or_at_height reorg_height m =
     (let txids_to_remove =
        List.map_filter (\<lambda>r. if get_height (tr_status r) \<ge> reorg_height then Some (tr_txid r) else None)
          (hm_values m)
      in invalidate_transactions txids_to_remove m)"

definition clear_expired_mempool :: "u64 \<Rightarrow> records \<Rightarrow> records" where
  "clear_expired_mempool latest_height m =
     (let cutoff = (ucast (saturating_sub latest_height MAX_REORG) :: block_height);
          txids_to_remove =
            map (\<lambda>(_, r). tr_txid r) (filter (\<lambda>(_, r). is_pending_before (tr_status r) cutoff) m)
      in invalidate_transactions txids_to_remove m)"

section \<open>Spend statuses of notes\<close>

definition has_nullifier :: "nullifier \<Rightarrow> 'n shielded_note \<Rightarrow> bool" where
  "has_nullifier nf n \<longleftrightarrow> (case sn_nullifier n of Some nf' \<Rightarrow> nf' = nf | None \<Rightarrow> False)"

definition update_note_spend_status ::
  "'n pool_get \<Rightarrow> 'n pool_upd \<Rightarrow> nullifier \<Rightarrow> spend \<Rightarrow> records \<Rightarrow> records option" where
  "update_note_spend_status notes notes_upd nf spend_status m =
     (let source_txid =
        map_option tr_txid (find (\<lambda>tx. list_ex (has_nullifier nf) (notes tx)) (hm_values m))
      in case source_txid of
           None \<Rightarrow> Some m
         | Some txid \<Rightarrow>
             (case hm_get m txid of
                None \<Rightarrow> None
              | Some source_tx \<Rightarrow>
                  (case find (has_nullifier nf) (notes source_tx) of
                     None \<Rightarrow> None
                   | Some _ \<Rightarrow>
                       Some (hm_modify txid
                         (notes_upd (update_first (has_nullifier nf)
                            (\<lambda>n. n\<lparr> sn_spend := spend_status \<rparr>))) m))))"

definition update_orchard_note_spend_status :: "nullifier \<Rightarrow> spend \<Rightarrow> records \<Rightarrow> records option" where
  "update_orchard_note_spend_status =
     update_note_spend_status tr_orchard_notes tr_orchard_notes_update"

definition update_sapling_note_spend_status :: "nullifier \<Rightarrow> spend \<Rightarrow> records \<Rightarrow> records option" where
  "update_sapling_note_spend_status =
     update_note_spend_status tr_sapling_notes tr_sapling_notes_update"

fun for_each_nullifier ::
  "(nullifier \<Rightarrow> records \<Rightarrow> records option) \<Rightarrow> nullifier list \<Rightarrow> records \<Rightarrow> records option" where
  "for_each_nullifier f [] m = Some m"
| "for_each_nullifier f (nf # nfs) m =
     (case f nf m of None \<Rightarrow> None | Some m' \<Rightarrow> for_each_nullifier f nfs m')"

definition update_note_spend_statuses :: "txid \<Rightarrow> spend \<Rightarrow> records \<Rightarrow> records option" where
  "update_note_spend_statuses spending_tx_id spend_status m =
     (case hm_get m spending_tx_id of
        None \<Rightarrow> Some m
      | Some spending_tx \<Rightarrow>
          (case for_each_nullifier (\<lambda>nf. update_orchard_note_spend_status nf spend_status)
                  (tr_spent_orchard_nullifiers spending_tx) m of
             None \<Rightarrow> None
           | Some m' \<Rightarrow>
               for_each_nullifier (\<lambda>nf. update_sapling_note_spend_status nf spend_status)
                 (tr_spent_sapling_nullifiers spending_tx) m'))"

section \<open>Spends of a transaction and its fee\<close>

datatype fee_error =
    SaplingSpendNotFound nullifier
  | OrchardSpendNotFound nullifier
  | ReceivedTransaction
  | OutgoingWithoutSpends "outgoing_tx_data list"
  | FeeUnderflow u64 u64

definition find_sapling_spend :: "records \<Rightarrow> nullifier \<Rightarrow> sapling_note option" where
  "find_sapling_spend m nf =
     find (has_nullifier nf) (concat (map tr_sapling_notes (hm_values m)))"

definition find_orchard_spend :: "records \<Rightarrow> nullifier \<Rightarrow> orchard_note option" where
  "find_orchard_spend m nf =
     find (has_nullifier nf) (concat (map tr_orchard_notes (hm_values m)))"

fun collect_spends ::
  "(nullifier \<Rightarrow> 'n option) \<Rightarrow> (nullifier \<Rightarrow> fee_error) \<Rightarrow> bool \<Rightarrow> nullifier list \<Rightarrow> 'n list \<Rightarrow>
   fee_error + 'n list" where
  "collect_spends find_spend not_found fail_on_miss [] spends = Inr spends"
| "collect_spends find_spend not_found fail_on_miss (nf # nfs) spends =
     (case find_spend nf of
        Some spend \<Rightarrow> collect_spends find_spend not_found fail_on_miss nfs (spends @ [spend])
      | None \<Rightarrow>
          if fail_on_miss then Inl (not_found nf)
          else collect_spends find_spend not_found fail_on_miss nfs spends)"

definition get_sapling_notes_spent_in_tx ::
  "records \<Rightarrow> transaction_record \<Rightarrow> bool \<Rightarrow> fee_error + sapling_note list" where
  "get_sapling_notes_spent_in_tx m query_record fail_on_miss =
     collect_spends (find_sapling_spend m) SaplingSpendNotFound fail_on_miss
       (tr_spent_sapling_nullifiers query_record) []"

definition get_orchard_notes_spent_in_tx ::
  "records \<Rightarrow> transaction_record \<Rightarrow> bool \<Rightarrow> fee_error + orchard_note list" where
  "get_orchard_notes_spent_in_tx m query_record fail_on_miss =
     collect_spends (find_orchard_spend m) OrchardSpendNotFound fail_on_miss
       (tr_spent_orchard_nullifiers query_record) []"

definition get_all_transparent_outputs :: "records \<Rightarrow> transparent_output list" where
  "get_all_transparent_outputs m = concat (map tr_transparent_outputs (hm_values m))"

definition get_transparent_coins_spent_in_tx ::
  "records \<Rightarrow> transaction_record \<Rightarrow> transparent_output list" where
  "get_transparent_coins_spent_in_tx m query_record =
     filter (\<lambda>t. case to_spend t of Some (txid, _) \<Rightarrow> txid = tr_txid query_record | None \<Rightarrow> False)
       (get_all_transparent_outputs m)"

definition total_value_input_to_transaction ::
  "records \<Rightarrow> transaction_record \<Rightarrow> fee_error + u64" where
  "total_value_input_to_transaction m query_record =
     (let transparent_spends = get_transparent_coins_spent_in_tx m query_record in
      case get_sapling_notes_spent_in_tx m query_record True of
        Inl e \<Rightarrow> Inl e
      | Inr sapling_spends \<Rightarrow>
          (case get_orchard_notes_spent_in_tx m query_record True of
             Inl e \<Rightarrow> Inl e
           | Inr orchard_spends \<Rightarrow>
               if sapling_spends = [] \<and> orchard_spends = [] \<and> transparent_spends = []
               then (if tr_outgoing_tx_data query_record = [] then Inl ReceivedTransaction
                     else Inl (OutgoingWithoutSpends (tr_outgoing_tx_data query_record)))
               else Inr (sum_list (map to_value transparent_spends) +
                         sum_list (map sapling_value sapling_spends) +
                         sum_list (map orchard_value orchard_spends))))"

definition calculate_transaction_fee :: "records \<Rightarrow> transaction_record \<Rightarrow> fee_error + u64" where
  "calculate_transaction_fee m query_record =
     (case total_value_input_to_transaction m query_record of
        Inl e \<Rightarrow> Inl e
      | Inr input_value \<Rightarrow>
          (let explicit_output_value = total_value_output_to_explicit_receivers query_record in
           if input_value \<ge> explicit_output_value then Inr (input_value - explicit_output_value)
           else Inl (FeeUnderflow input_value explicit_output_value)))"

section \<open>Kind of a transaction\<close>

fun zfz_address :: "chain_type \<Rightarrow> string" where
  "zfz_address Mainnet = ZENNIES_FOR_ZINGO_DONATION_ADDRESS"
| "zfz_address Testnet = ZENNIES_FOR_ZINGO_TESTNET_ADDRESS"
| "zfz_address (Regtest _) = ZENNIES_FOR_ZINGO_REGTEST_ADDRESS"

definition transaction_kind ::
  "records \<Rightarrow> transaction_record \<Rightarrow> chain_type \<Rightarrow> tx_kind option" where
  "transaction_kind m query_record chain =
     (let transparent_spends = get_transparent_coins_spent_in_tx m query_record in
      case (get_sapling_notes_spent_in_tx m query_record False,
            get_orchard_notes_spent_in_tx m query_record False) of
        (Inr sapling_spends, Inr orchard_spends) \<Rightarrow>
          Some
            (if transparent_spends = [] \<and> sapling_spends = [] \<and> orchard_spends = [] \<and>
                tr_outgoing_tx_data query_record = []
             then Received
             else if transparent_spends \<noteq> [] \<and> sapling_spends = [] \<and> orchard_spends = [] \<and>
                tr_outgoing_tx_data query_record = [] \<and>
                (tr_orchard_notes query_record \<noteq> [] \<or> tr_sapling_notes query_record \<noteq> [])
             then Sent Shield
             else if tr_outgoing_tx_data query_record = [] \<or>
                (length (tr_outgoing_tx_data query_record) = 1 \<and>
                 list_ex (\<lambda>otd. ot_recipient_address otd = zfz_address chain \<or>
                                ot_recipient_ua otd = Some (zfz_address chain))
                   (tr_outgoing_tx_data query_record))
             then Sent SendToSelf
             else Sent Send)
      | _ \<Rightarrow> None)"

section \<open>Change\<close>

definition total_funds_spent_in :: "records \<Rightarrow> txid \<Rightarrow> u64" where
  "total_funds_spent_in m txid =
     (case map_option total_value_spent (hm_get m txid) of Some v \<Rightarrow> v | None \<Rightarrow> 0)"

definition mark_notes_as_change_for_pool :: "'n shielded_note list \<Rightarrow> 'n shielded_note list" where
  "mark_notes_as_change_for_pool notes =
     map (\<lambda>n. n\<lparr> sn_is_change := (case sn_memo n of
                                    Some (Memo_Text _) \<Rightarrow> False
                                  | Some Memo_Empty \<Rightarrow> True
                                  | Some (Memo_Arbitrary _) \<Rightarrow> True
                                  | Some (Memo_Future _) \<Rightarrow> True
                                  | None \<Rightarrow> True) \<rparr>) notes"

definition check_notes_mark_change :: "txid \<Rightarrow> records \<Rightarrow> records" where
  "check_notes_mark_change txid m =
     (if total_funds_spent_in m txid > 0
      then hm_modify txid (\<lambda>r. tr_orchard_notes_update mark_notes_as_change_for_pool
                                 (tr_sapling_notes_update mark_notes_as_change_for_pool r)) m
      else m)"

section \<open>Creating and changing records\<close>

text \<open>The method returns a mutable reference to the record under \<open>txid\<close>; the caller's use of that
  reference is the continuation \<open>k\<close>.\<close>

definition create_modify_get_transaction_record ::
  "txid \<Rightarrow> confirmation_status \<Rightarrow> u32 option \<Rightarrow> (transaction_record \<Rightarrow> transaction_record) \<Rightarrow>
   records \<Rightarrow> records option" where
  "create_modify_get_transaction_record txid status datetime k m =
     (let existing_tx_confirmed =
        (case hm_get m txid of Some existing_tx \<Rightarrow> is_confirmed (tr_status existing_tx)
         | None \<Rightarrow> False);
          datetime =
        (case datetime of
           Some d \<Rightarrow> Some d
         | None \<Rightarrow> map_option (\<lambda>r. ucast (tr_datetime r)) (hm_get m txid))
      in case datetime of
           None \<Rightarrow> None
         | Some (datetime :: u32) \<Rightarrow>
             if existing_tx_confirmed \<and> \<not> is_confirmed status
             then Some (hm_modify txid k m)
             else (case hm_get m txid of
                     Some _ \<Rightarrow>
                       Some (hm_modify txid
                         (\<lambda>r. k (r\<lparr> tr_status := status, tr_datetime := ucast datetime \<rparr>)) m)
                   | None \<Rightarrow>
                       Some (hm_insert txid (k (new_record status (ucast datetime) txid)) m)))"

definition add_taddr_spent ::
  "txid \<Rightarrow> confirmation_status \<Rightarrow> u32 option \<Rightarrow> u64 \<Rightarrow> records \<Rightarrow> records option" where
  "add_taddr_spent txid status timestamp total_transparent_value_spent m =
     create_modify_get_transaction_record txid status timestamp
       (\<lambda>r. r\<lparr> tr_total_transparent_value_spent := total_transparent_value_spent \<rparr>) m"

definition is_utxo :: "txid \<Rightarrow> u32 \<Rightarrow> transparent_output \<Rightarrow> bool" where
  "is_utxo txid output_num u \<longleftrightarrow> to_txid u = txid \<and> to_output_index u = ucast output_num"

definition mark_txid_utxo_spent ::
  "txid \<Rightarrow> u32 \<Rightarrow> txid \<Rightarrow> confirmation_status \<Rightarrow> records \<Rightarrow> records \<times> u64" where
  "mark_txid_utxo_spent spent_txid output_num source_txid spending_tx_status m =
     (case hm_get m spent_txid of
        Some utxo_transaction_metadata \<Rightarrow>
          (case find (is_utxo spent_txid output_num)
                  (tr_transparent_outputs utxo_transaction_metadata) of
             Some spent_utxo \<Rightarrow>
               (hm_modify spent_txid
                  (tr_transparent_outputs_update
                     (update_first (is_utxo spent_txid output_num)
                        (\<lambda>u. u\<lparr> to_spend := Some (source_txid, spending_tx_status) \<rparr>))) m,
                to_value spent_utxo)
           | None \<Rightarrow> (m, 0))
      | None \<Rightarrow> (m, 0))"

record tx_out =
  vo_value :: u64
  vo_script_pubkey :: "byte list"

definition add_new_taddr_output ::
  "txid \<Rightarrow> string \<Rightarrow> confirmation_status \<Rightarrow> u32 option \<Rightarrow> tx_out \<Rightarrow> u32 \<Rightarrow> records \<Rightarrow>
   records option" where
  "add_new_taddr_output txid taddr status timestamp vout output_num m =
     create_modify_get_transaction_record txid status timestamp
       (\<lambda>r. if list_ex (is_utxo txid output_num) (tr_transparent_outputs r) then r
            else r\<lparr> tr_transparent_outputs := tr_transparent_outputs r @
                      [transparent_from_parts taddr txid (ucast output_num)
                         (vo_script_pubkey vout) (vo_value vout) None] \<rparr>) m"

definition add_new_note ::
  "'n pool_get \<Rightarrow> 'n pool_upd \<Rightarrow> txid \<Rightarrow> confirmation_status \<Rightarrow> u32 option \<Rightarrow> 'n \<Rightarrow> byte list \<Rightarrow>
   bool \<Rightarrow> nullifier option \<Rightarrow> u32 \<Rightarrow> u64 \<Rightarrow> records \<Rightarrow> records option" where
  "add_new_note notes notes_upd txid status timestamp note to_diversifier have_spending_key nf
       output_index position m =
     create_modify_get_transaction_record txid status timestamp
       (\<lambda>r. let nd = shielded_from_parts to_diversifier note (Some position) nf None None False
                       have_spending_key (Some output_index)
            in case find (\<lambda>n. sn_note n = note) (notes r) of
                 None \<Rightarrow> notes_upd (filter (\<lambda>n. sn_nullifier n \<noteq> None))
                           (notes_upd (\<lambda>ns. ns @ [nd]) r)
               | Some _ \<Rightarrow> notes_upd (update_first (\<lambda>n. sn_note n = note) (\<lambda>_. nd)) r) m"

definition add_memo_to_note_metadata ::
  "'n pool_upd \<Rightarrow> txid \<Rightarrow> 'n \<Rightarrow> memo \<Rightarrow> records \<Rightarrow> records" where
  "add_memo_to_note_metadata notes_upd txid note memo m =
     hm_modify txid
       (notes_upd (update_first (\<lambda>n. sn_note n = note) (\<lambda>n. n\<lparr> sn_memo := Some memo \<rparr>))) m"

definition add_outgoing_metadata :: "txid \<Rightarrow> outgoing_tx_data list \<Rightarrow> records \<Rightarrow> records" where
  "add_outgoing_metadata txid outgoing_metadata m =
     hm_modify txid (\<lambda>r. r\<lparr> tr_outgoing_tx_data := outgoing_metadata \<rparr>) m"

definition set_price :: "txid \<Rightarrow> f64_bits option \<Rightarrow> records \<Rightarrow> records" where
  "set_price txid price m =
     (case price of Some p \<Rightarrow> hm_modify txid (\<lambda>r. r\<lparr> tr_price := Some p \<rparr>) m | None \<Rightarrow> m)"

section \<open>Spendable notes\<close>

definition collect_spendable ::
  "shielded_protocol list \<Rightarrow> block_height \<Rightarrow> note_id list \<Rightarrow>
   (note_id \<times> u64) list \<times> (txid \<times> block_height) list \<Rightarrow> transaction_record \<Rightarrow>
   (note_id \<times> u64) list \<times> (txid \<times> block_height) list" where
  "collect_spendable sources anchor_height exclude acc r =
     (case acc of (ok, missing_output_index) \<Rightarrow>
        if is_confirmed_before_or_at (tr_status r) anchor_height
        then (case record_spendable_note_ids_and_values r sources exclude of
                Inr notes_from_tx \<Rightarrow> (ok @ notes_from_tx, missing_output_index)
              | Inl _ \<Rightarrow>
                  (ok, missing_output_index @ [(tr_txid r, get_height (tr_status r))]))
        else (ok, missing_output_index))"

definition get_spendable_note_ids_and_values ::
  "records \<Rightarrow> shielded_protocol list \<Rightarrow> block_height \<Rightarrow> note_id list \<Rightarrow>
   (txid \<times> block_height) list + (note_id \<times> u64) list" where
  "get_spendable_note_ids_and_values m sources anchor_height exclude =
     (let acc = foldl (collect_spendable sources anchor_height exclude) ([], []) (hm_values m)
      in if snd acc = [] then Inr (fst acc) else Inl (snd acc))"

section \<open>Invalidation removes and unspends\<close>

definition record_unspend :: "txid list \<Rightarrow> transaction_record \<Rightarrow> transaction_record" where
  "record_unspend txids r =
     tr_orchard_notes_update (map (unspend_note txids))
       (tr_sapling_notes_update (map (unspend_note txids))
         (tr_transparent_outputs_update (map (unspend_transparent txids)) r))"

lemma invalidate_transactions_eq:
  "invalidate_transactions txids m = hm_map_values (record_unspend txids) (fold hm_remove txids m)"
  by (simp add: invalidate_transactions_def Let_def record_unspend_def [abs_def] comp_def
      invalidate_transaction_specific_transparent_spends_def
      invalidate_transaction_specific_domain_spends_def hm_map_values_comp)

lemma unspend_transparent_eq: "unspend_transparent txids = tout.unspend txids"
  by (auto simp: fun_eq_iff unspend_transparent_def tout.unspend_def split: option.splits)

lemma unspend_sapling_eq: "unspend_note txids = snote.unspend txids"
  by (auto simp: fun_eq_iff unspend_note_def snote.unspend_def split: option.splits)

lemma unspend_orchard_eq: "unspend_note txids = onote.unspend txids"
  by (auto simp: fun_eq_iff unspend_note_def onote.unspend_def split: option.splits)

lemma record_unspend_outputs:
  "get_record_outputs (record_unspend txids r) = map (outp.unspend txids) (get_record_outputs r)"
  by (auto simp: get_record_outputs_def record_unspend_def unspend_transparent_def unspend_note_def
      outp.unspend_def split: option.splits)

lemma record_unspend_simps [simp]:
  "tr_txid (record_unspend txids r) = tr_txid r"
  "tr_status (record_unspend txids r) = tr_status r"
  "tr_outgoing_tx_data (record_unspend txids r) = tr_outgoing_tx_data r"
  by (auto simp: record_unspend_def)

lemma unspend_note_idem [simp]: "unspend_note txids (unspend_note txids n) = unspend_note txids n"
  by (auto simp: unspend_note_def split: option.splits)

lemma unspend_transparent_idem [simp]:
  "unspend_transparent txids (unspend_transparent txids t) = unspend_transparent txids t"
  by (auto simp: unspend_transparent_def split: option.splits)

lemma record_unspend_idem: "record_unspend txids (record_unspend txids r) = record_unspend txids r"
  by (simp add: record_unspend_def comp_def)

lemma records_wf_hm [dest]: "records_wf m \<Longrightarrow> hm_wf m"
  by (simp add: records_wf_def)

lemma records_wf_get: "records_wf m \<Longrightarrow> hm_get m k = Some r \<Longrightarrow> tr_txid r = k"
  by (auto simp: records_wf_def list_all_iff dest!: map_of_SomeD)

lemma records_wf_mem: "records_wf m \<Longrightarrow> (k, r) \<in> set m \<Longrightarrow> tr_txid r = k"
  by (auto simp: records_wf_def list_all_iff)

lemma records_wf_iff:
  "records_wf m \<longleftrightarrow> hm_wf m \<and> (\<forall>k r. hm_get m k = Some r \<longrightarrow> tr_txid r = k)"
proof -
  have "hm_wf m \<Longrightarrow> hm_get m k = Some r \<longleftrightarrow> (k, r) \<in> set m" for k r
    by (rule hm_get_iff)
  then show ?thesis
    by (auto simp: records_wf_def list_all_iff)
qed

lemma hm_get_invalidate:
  "hm_get (invalidate_transactions txids m) k =
     (if k \<in> set txids then None else map_option (record_unspend txids) (hm_get m k))"
  by (simp add: invalidate_transactions_eq hm_simps)

lemma hm_wf_invalidate: "hm_wf m \<Longrightarrow> hm_wf (invalidate_transactions txids m)"
  by (simp add: invalidate_transactions_eq)

lemma records_wf_invalidate: "records_wf m \<Longrightarrow> records_wf (invalidate_transactions txids m)"
  by (auto simp: records_wf_iff hm_get_invalidate hm_wf_invalidate split: if_splits)

lemma reorg_txids:
  assumes "records_wf m"
  shows "set (List.map_filter (\<lambda>r. if h \<le> get_height (tr_status r) then Some (tr_txid r) else None)
               (hm_values m)) =
         {k. \<exists>r. hm_get m k = Some r \<and> h \<le> get_height (tr_status r)}"
  using assms records_wf_get [OF assms]
  by (auto simp: List.map_filter_def hm_values_get records_wf_hm image_iff)

lemma expired_txids:
  assumes "records_wf m"
  shows "set (map (\<lambda>(_, r). tr_txid r) (filter (\<lambda>(_, r). p r) m)) =
         {k. \<exists>r. hm_get m k = Some r \<and> p r}"
  using assms records_wf_mem [OF assms]
  by (force simp: hm_get_iff records_wf_hm image_iff)

section \<open>An example wallet\<close>

definition example_note :: orchard_note where
  "example_note = shielded_from_parts []
     \<lparr> oc_recipient = [], oc_value = 100000, oc_rho = [], oc_rseed = [] \<rparr> (Some 7) (Some [9])
     (Some ([2], Confirmed 20)) None False True (Some 0)"

definition example_change :: orchard_note where
  "example_change = shielded_from_parts []
     \<lparr> oc_recipient = [], oc_value = 30000, oc_rho = [1], oc_rseed = [] \<rparr> (Some 8) (Some [10])
     None None True True (Some 1)"

definition example_received :: transaction_record where
  "example_received = (new_record (Confirmed 10) 0 [1])
     \<lparr> tr_orchard_notes := [example_note],
       tr_transparent_outputs := [transparent_from_parts ''t1'' [1] 0 [] 30000 None] \<rparr>"

definition example_sent :: transaction_record where
  "example_sent = (new_record (Confirmed 20) 0 [2])
     \<lparr> tr_spent_orchard_nullifiers := [[9]], tr_orchard_notes := [example_change],
       tr_total_orchard_value_spent := 100000,
       tr_outgoing_tx_data := [\<lparr> ot_recipient_address = ''u1'', ot_value = 60000,
         ot_memo = Memo_Empty, ot_recipient_ua = None \<rparr>] \<rparr>"

definition example_pending :: transaction_record where
  "example_pending = new_record (Mempool 30) 0 [3]"

definition example_records :: records where
  "example_records = [([1], example_received), ([2], example_sent), ([3], example_pending)]"

lemmas example_defs = example_records_def example_received_def example_sent_def
  example_pending_def example_note_def example_change_def

lemmas example_simps = example_defs new_record_def shielded_from_parts_def transparent_from_parts_def
  hm_values_def get_record_outputs_def sapling_value_def orchard_value_def

lemma example_wf: "records_wf example_records"
  by code_simp

section \<open>Properties of invalidation\<close>

lemma reorg_get:
  assumes "records_wf m"
  shows "\<exists>txids. set txids = {k. \<exists>r. hm_get m k = Some r \<and> h \<le> get_height (tr_status r)} \<and>
           invalidate_all_transactions_after_or_at_height h m = invalidate_transactions txids m"
  using reorg_txids [OF assms, of h]
  by (auto simp: invalidate_all_transactions_after_or_at_height_def Let_def)

lemma invalidated_outputs_not_spent_by:
  assumes "hm_get (invalidate_transactions txids m) k = Some r"
    and "x \<in> set (get_record_outputs r)" and "output_spending_tx_status x = Some (t, s)"
  shows "t \<notin> set txids"
proof -
  obtain y where "x = outp.unspend txids y"
    using assms(1,2) by (auto simp: hm_get_invalidate record_unspend_outputs split: if_splits)
  then show ?thesis
    using outp.unspend_spender [of txids y t] assms(3) by (simp add: spending_txid_def)
qed

lemma invalidated_keeps:
  assumes "hm_get m k = Some r" "k \<notin> set txids"
  shows "\<exists>r'. hm_get (invalidate_transactions txids m) k = Some r' \<and> tr_status r' = tr_status r \<and>
              map output_value (get_record_outputs r') = map output_value (get_record_outputs r)"
  using assms by (simp add: hm_get_invalidate record_unspend_outputs outp.unspend_value comp_def)

lemma expired_get:
  assumes "records_wf m"
  shows "\<exists>txids. set txids = {k. \<exists>r. hm_get m k = Some r \<and> \<not> is_confirmed (tr_status r) \<and>
                    get_height (tr_status r) < ucast (saturating_sub latest MAX_REORG)} \<and>
           clear_expired_mempool latest m = invalidate_transactions txids m"
  unfolding clear_expired_mempool_def Let_def
  by (rule exI, rule conjI, rule trans [OF expired_txids [OF assms]]) auto

lemma cutoff_nat:
  fixes h :: u32
  assumes "unat latest < 2 ^ 32"
  shows "h < ucast (saturating_sub latest MAX_REORG) \<longleftrightarrow> unat h + 100 < unat latest"
proof -
  have "unat (ucast (saturating_sub latest MAX_REORG) :: u32) = unat latest - 100"
    using assms by (simp add: unsigned_ucast_eq MAX_REORG_def take_bit_nat_def)
  then show ?thesis by (auto simp: word_less_nat_alt)
qed

text \<open>C7. Invalidating a list of transactions removes exactly those records, and in every other record it resets to unspent exactly the outputs (of the three pools) whose spending transaction is in the list; nothing else of a record changes.\<close>

theorem invalidate_transactions_refines:
  "hm_get (invalidate_transactions txids m) k =
     (if k \<in> set txids then None else map_option (record_unspend txids) (hm_get m k)) \<and>
   get_record_outputs (record_unspend txids r) =
     map (\<lambda>x. if (case output_spending_tx_status x of
                    Some (t, _) \<Rightarrow> t \<in> set txids | None \<Rightarrow> False)
              then output_set_spend None x else x) (get_record_outputs r)"
proof -
  have "outp.unspend txids =
    (\<lambda>x. if (case output_spending_tx_status x of Some (t, _) \<Rightarrow> t \<in> set txids | None \<Rightarrow> False)
          then output_set_spend None x else x)"
    by (auto simp: fun_eq_iff outp.unspend_def split: option.splits)
  then show ?thesis
    by (simp add: hm_get_invalidate record_unspend_outputs)
qed

text \<open>C1. After a reorganisation at height \<open>h\<close> no record at or above \<open>h\<close> is left, every record below
  \<open>h\<close> is kept with its status and its values, and no remaining output is marked as spent by a
  transaction of the wallet that was at or above \<open>h\<close>; the map stays well formed.\<close>

theorem reorg_invalidation_correct:
  assumes wf: "records_wf m"
  shows "let m' = invalidate_all_transactions_after_or_at_height h m in
      records_wf m' \<and>
      (\<forall>k r. hm_get m' k = Some r \<longrightarrow> get_height (tr_status r) < h) \<and>
      (\<forall>k r. hm_get m k = Some r \<and> get_height (tr_status r) < h \<longrightarrow>
         (\<exists>r'. hm_get m' k = Some r' \<and> tr_status r' = tr_status r \<and>
               map output_value (get_record_outputs r') = map output_value (get_record_outputs r))) \<and>
      (\<forall>k r x t s rt. hm_get m' k = Some r \<and> x \<in> set (get_record_outputs r) \<and>
         output_spending_tx_status x = Some (t, s) \<and> hm_get m t = Some rt \<longrightarrow>
         get_height (tr_status rt) < h)"
proof -
  obtain txids where ts: "set txids = {k. \<exists>r. hm_get m k = Some r \<and> h \<le> get_height (tr_status r)}"
    and m': "invalidate_all_transactions_after_or_at_height h m = invalidate_transactions txids m"
    using reorg_get [OF wf] by blast
  have "records_wf (invalidate_transactions txids m)"
    using wf by (rule records_wf_invalidate)
  moreover have "\<forall>k r. hm_get (invalidate_transactions txids m) k = Some r \<longrightarrow>
      get_height (tr_status r) < h"
    by (auto simp: hm_get_invalidate ts split: if_splits)
  moreover have "hm_get m k = Some r \<Longrightarrow> get_height (tr_status r) < h \<Longrightarrow> k \<notin> set txids" for k r
    by (auto simp: ts)
  moreover have "hm_get (invalidate_transactions txids m) k = Some r \<Longrightarrow>
      x \<in> set (get_record_outputs r) \<Longrightarrow> output_spending_tx_status x = Some (t, s) \<Longrightarrow>
      hm_get m t = Some rt \<Longrightarrow> get_height (tr_status rt) < h" for k r x t s rt
    using invalidated_outputs_not_spent_by [of txids m k r x t s] ts by force
  ultimately show ?thesis
    unfolding m' Let_def using invalidated_keeps [of m _ _ txids] by blast
qed

theorem reorg_invalidation_correct_witness:
  "records_wf (invalidate_all_transactions_after_or_at_height 15 example_records) \<and>
   (\<exists>r. hm_get (invalidate_all_transactions_after_or_at_height 15 example_records) [1] = Some r \<and>
        tr_status r = Confirmed 10)"
proof -
  have "hm_get example_records [1] = Some example_received" by (simp add: example_records_def)
  moreover have "tr_status example_received = Confirmed 10"
    by (simp add: example_received_def new_record_def)
  moreover have "get_height (Confirmed 10) < (15 :: block_height)" by simp
  ultimately show ?thesis
    using reorg_invalidation_correct [OF example_wf, of 15] unfolding Let_def by metis
qed

text \<open>C35. A record disappears from the wallet by mempool expiry exactly when it is not confirmed and its
  height lies more than 100 blocks below the latest height; confirmed records always stay.\<close>

theorem clear_expired_mempool_correct:
  assumes wf: "records_wf m" and "unat latest < 2 ^ 32"
  shows "hm_get (clear_expired_mempool latest m) k = None \<longleftrightarrow>
           (case hm_get m k of
              None \<Rightarrow> True
            | Some r \<Rightarrow> \<not> is_confirmed (tr_status r) \<and>
                        unat (get_height (tr_status r)) + 100 < unat latest)"
proof -
  obtain txids where "set txids = {k. \<exists>r. hm_get m k = Some r \<and> \<not> is_confirmed (tr_status r) \<and>
                    get_height (tr_status r) < ucast (saturating_sub latest MAX_REORG)}"
    and "clear_expired_mempool latest m = invalidate_transactions txids m"
    using expired_get [OF wf] by blast
  then show ?thesis
    by (auto simp: hm_get_invalidate cutoff_nat [OF assms(2)] split: option.splits)
qed

theorem clear_expired_mempool_correct_witness:
  "hm_get (clear_expired_mempool 131 example_records) [3] = None \<and>
   hm_get (clear_expired_mempool 130 example_records) [3] \<noteq> None"
proof -
  have "hm_get example_records [3] = Some (new_record (Mempool 30) 0 [3])"
    by (simp add: example_records_def example_pending_def)
  then show ?thesis
    using clear_expired_mempool_correct [OF example_wf, of 131 "[3]"]
      clear_expired_mempool_correct [OF example_wf, of 130 "[3]"]
    by (simp add: new_record_def)
qed

end
