(* ===== verification/Record_Steps.thy ===== *)
theory Record_Steps
  imports Records_By_Id
begin

text \<open>
  The operations of \<open>wallet/transaction_records_by_id.rs\<close> as one step relation with its
  invariant, the functional behaviour of the operations that create and change records, and the
  sums of values over all records.
\<close>

section \<open>Steps\<close>

inductive records_step :: "records \<Rightarrow> records \<Rightarrow> bool" where
  step_insert: "records_step m (insert_transaction_record r m)"
| step_reorg: "records_step m (invalidate_all_transactions_after_or_at_height h m)"
| step_invalidate: "records_step m (invalidate_transactions txids m)"
| step_expire: "records_step m (clear_expired_mempool latest m)"
| step_spend_status:
    "update_note_spend_statuses txid sp m = Some m' \<Longrightarrow> records_step m m'"
| step_mark_change: "records_step m (check_notes_mark_change txid m)"
| step_taddr_spent: "add_taddr_spent txid status ts v m = Some m' \<Longrightarrow> records_step m m'"
| step_utxo_spent: "records_step m (fst (mark_txid_utxo_spent txid i source status m))"
| step_taddr_output:
    "add_new_taddr_output txid taddr status ts vout i m = Some m' \<Longrightarrow> records_step m m'"
| step_sapling_note:
    "add_new_note tr_sapling_notes tr_sapling_notes_update txid status ts note d key nf i pos m = Some m'
     \<Longrightarrow> records_step m m'"
| step_orchard_note:
    "add_new_note tr_orchard_notes tr_orchard_notes_update txid status ts note d key nf i pos m = Some m'
     \<Longrightarrow> records_step m m'"
| step_sapling_memo:
    "records_step m (add_memo_to_note_metadata tr_sapling_notes_update txid note memo m)"
| step_orchard_memo:
    "records_step m (add_memo_to_note_metadata tr_orchard_notes_update txid note memo m)"
| step_outgoing: "records_step m (add_outgoing_metadata txid otd m)"
| step_price: "records_step m (set_price txid price m)"

definition all_outputs :: "records \<Rightarrow> wallet_output list" where
  "all_outputs m = concat (map get_record_outputs (hm_values m))"

section \<open>Creating and modifying a record\<close>

lemma create_modify_None_iff:
  "create_modify_get_transaction_record txid status dt k m = None \<longleftrightarrow>
     dt = None \<and> hm_get m txid = None"
  by (auto simp: create_modify_get_transaction_record_def Let_def split: option.splits)

lemma create_modify_get:
  assumes "create_modify_get_transaction_record txid status dt k m = Some m'"
  shows "hm_get m' t =
     (if t \<noteq> txid then hm_get m t
      else case hm_get m txid of
             None \<Rightarrow> Some (k (new_record status (ucast (the dt)) txid))
           | Some r \<Rightarrow>
               if is_confirmed (tr_status r) \<and> \<not> is_confirmed status then Some (k r)
               else Some (k (r\<lparr> tr_status := status,
                   tr_datetime := ucast (case dt of Some d \<Rightarrow> d | None \<Rightarrow> ucast (tr_datetime r)) \<rparr>)))"
  using assms
  by (auto simp: create_modify_get_transaction_record_def Let_def hm_simps split: option.splits if_splits)

lemma create_modify_wf:
  assumes "create_modify_get_transaction_record txid status dt k m = Some m'"
    and "records_wf m" and "\<And>r. tr_txid (k r) = tr_txid r"
  shows "records_wf m'"
proof -
  have "hm_wf m'"
    using assms(1,2)
    by (auto simp: create_modify_get_transaction_record_def Let_def records_wf_hm
        split: option.splits if_splits)
  moreover have "tr_txid r = t" if "hm_get m' t = Some r" for t r
    using that assms(2,3) create_modify_get [OF assms(1), of t]
    by (auto simp: records_wf_iff new_record_def split: if_splits option.splits)
  ultimately show ?thesis by (simp add: records_wf_iff)
qed

section \<open>Preservation of the invariant\<close>

lemma records_wf_modify:
  assumes "records_wf m" "\<And>r. tr_txid (f r) = tr_txid r"
  shows "records_wf (hm_modify k f m)"
  using assms by (auto simp: records_wf_iff hm_simps split: if_splits)

lemma records_wf_insert: "records_wf m \<Longrightarrow> tr_txid r = k \<Longrightarrow> records_wf (hm_insert k r m)"
  by (auto simp: records_wf_iff hm_simps split: if_splits)

lemma update_note_spend_status_total:
  assumes "records_wf m"
  shows "\<exists>m'. update_note_spend_status notes upd nf sp m = Some m'"
proof (cases "find (\<lambda>tx. list_ex (has_nullifier nf) (notes tx)) (hm_values m)")
  case (Some tx)
  then have tx: "tx \<in> set (hm_values m)" "list_ex (has_nullifier nf) (notes tx)"
    by (auto dest: find_Some_set)
  then have "hm_get m (tr_txid tx) = Some tx"
    using assms by (auto simp: hm_values_get records_wf_hm dest: records_wf_get)
  moreover have "find (has_nullifier nf) (notes tx) \<noteq> None"
    using tx(2) by (auto simp: find_None_iff list_ex_iff)
  ultimately show ?thesis
    using Some by (auto simp: update_note_spend_status_def)
qed (simp add: update_note_spend_status_def)

lemma update_note_spend_status_wf:
  assumes "update_note_spend_status notes upd nf sp m = Some m'" "records_wf m"
    and "\<And>f r. tr_txid (upd f r) = tr_txid r"
  shows "records_wf m'"
  using assms
  by (auto simp: update_note_spend_status_def Let_def split: option.splits intro!: records_wf_modify)

lemma for_each_nullifier_total:
  assumes "\<And>nf m. records_wf m \<Longrightarrow> \<exists>m'. f nf m = Some m' \<and> records_wf m'" "records_wf m"
  shows "\<exists>m'. for_each_nullifier f nfs m = Some m' \<and> records_wf m'"
  using assms(2)
proof (induction nfs arbitrary: m)
  case (Cons nf nfs)
  then obtain m1 where "f nf m = Some m1" "records_wf m1" using assms(1) by blast
  then show ?case using Cons.IH by simp
qed simp

lemma update_statuses_step:
  assumes "records_wf m"
  shows "\<exists>m'. update_orchard_note_spend_status nf sp m = Some m' \<and> records_wf m'"
    and "\<exists>m'. update_sapling_note_spend_status nf sp m = Some m' \<and> records_wf m'"
  unfolding update_orchard_note_spend_status_def update_sapling_note_spend_status_def
  using update_note_spend_status_total [OF assms] assms
  by (metis update_note_spend_status_wf orchard_pool.upd_txid sapling_pool.upd_txid)+

lemma for_each_status_total:
  assumes "records_wf m"
  shows "\<exists>m'. for_each_nullifier (\<lambda>nf. update_orchard_note_spend_status nf sp) nfs m = Some m' \<and>
              records_wf m'"
    and "\<exists>m'. for_each_nullifier (\<lambda>nf. update_sapling_note_spend_status nf sp) nfs m = Some m' \<and>
              records_wf m'"
  by (rule for_each_nullifier_total; use update_statuses_step assms in blast)+

lemma update_note_spend_statuses_total:
  assumes "records_wf m"
  shows "\<exists>m'. update_note_spend_statuses txid sp m = Some m' \<and> records_wf m'"
proof (cases "hm_get m txid")
  case (Some tx)
  obtain m1 where "for_each_nullifier (\<lambda>nf. update_orchard_note_spend_status nf sp)
      (tr_spent_orchard_nullifiers tx) m = Some m1" "records_wf m1"
    using for_each_status_total(1) assms by blast
  moreover from this obtain m2 where "for_each_nullifier (\<lambda>nf. update_sapling_note_spend_status nf sp)
      (tr_spent_sapling_nullifiers tx) m1 = Some m2" "records_wf m2"
    using for_each_status_total(2) by blast
  ultimately show ?thesis using Some by (simp add: update_note_spend_statuses_def)
qed (use assms in \<open>simp add: update_note_spend_statuses_def\<close>)

lemma mark_txid_utxo_spent_wf:
  "records_wf m \<Longrightarrow> records_wf (fst (mark_txid_utxo_spent t i s st m))"
  by (auto simp: mark_txid_utxo_spent_def split: option.splits intro: records_wf_modify)

lemma add_new_note_wf:
  assumes "add_new_note notes upd txid status ts cn d key nf i pos m = Some m'" "records_wf m"
    and "\<And>f r. tr_txid (upd f r) = tr_txid r"
  shows "records_wf m'"
  using assms unfolding add_new_note_def
  by (elim create_modify_wf) (auto simp: Let_def split: option.splits)

lemma records_step_wf: "records_step m m' \<Longrightarrow> records_wf m \<Longrightarrow> records_wf m'"
proof (induction rule: records_step.induct)
  case (step_insert m r)
  then show ?case by (simp add: insert_transaction_record_def records_wf_insert)
next
  case (step_reorg m h)
  then show ?case by (simp add: invalidate_all_transactions_after_or_at_height_def records_wf_invalidate)
next
  case (step_expire m latest)
  then show ?case by (simp add: clear_expired_mempool_def Let_def records_wf_invalidate)
next
  case (step_spend_status txid sp m m')
  then show ?case using update_note_spend_statuses_total [of m txid sp] by auto
next
  case (step_taddr_spent txid status ts v m m')
  then show ?case unfolding add_taddr_spent_def by (elim create_modify_wf) auto
next
  case (step_taddr_output txid taddr status ts vout i m m')
  then show ?case unfolding add_new_taddr_output_def by (elim create_modify_wf) auto
qed (auto simp: records_wf_invalidate check_notes_mark_change_def mark_txid_utxo_spent_wf
     add_memo_to_note_metadata_def add_outgoing_metadata_def set_price_def
     intro!: records_wf_modify elim!: add_new_note_wf split: option.splits)

section \<open>Sums over all records\<close>

lemma record_query_sum_outputs:
  "query_sum_value r q =
     sum_list (map output_value
       (filter (\<lambda>x. output_query_matches (output_pool_type x) (output_spending_tx_status x) q)
          (get_record_outputs r)))"
  by (auto simp: query_sum_value_eq get_record_outputs_def filter_map comp_def
      output_query_matches_def pool_query_def add.assoc)

lemma records_query_sum_concat:
  "records_query_sum_value m q =
     sum_list (map output_value
       (filter (\<lambda>x. output_query_matches (output_pool_type x) (output_spending_tx_status x) q)
          (concat (map get_record_outputs (hm_values m)))))"
  using foldl_plus_sum_list [of "\<lambda>(k, r). query_sum_value r q" 0 m]
  by (simp add: records_query_sum_value_def hm_values_def comp_def case_prod_beta'
      sum_list_concat_filter record_query_sum_outputs)

lemma add_new_note_get:
  assumes "add_new_note notes upd txid status ts cn d key nf i pos m = Some m'"
    and "\<And>f r. notes (upd f r) = f (notes r)" "nf \<noteq> None"
  shows "\<exists>r n. hm_get m' txid = Some r \<and> n \<in> set (notes r) \<and>
     n = shielded_from_parts d cn (Some pos) nf None None False key (Some i)"
proof -
  let ?nd = "shielded_from_parts d cn (Some pos) nf None None False key (Some i)"
  let ?k = "\<lambda>r. let nd = ?nd
            in case find (\<lambda>n. sn_note n = cn) (notes r) of
                 None \<Rightarrow> upd (filter (\<lambda>n. sn_nullifier n \<noteq> None)) (upd (\<lambda>ns. ns @ [nd]) r)
               | Some _ \<Rightarrow> upd (update_first (\<lambda>n. sn_note n = cn) (\<lambda>_. nd)) r"
  have k: "?nd \<in> set (notes (?k r))" for r
  proof (cases "find (\<lambda>n. sn_note n = cn) (notes r)")
    case None
    then show ?thesis using assms(2,3) by (auto simp: shielded_from_parts_def)
  next
    case (Some n)
    then show ?thesis using update_first_split [OF Some, of "\<lambda>_. ?nd"] by (auto simp: assms(2))
  qed
  obtain r where "hm_get m' txid = Some (?k r)"
    using create_modify_get [OF assms(1) [unfolded add_new_note_def], of txid]
    by (auto split: option.splits if_splits)
  then show ?thesis using k by blast
qed

section \<open>Properties\<close>



text \<open>Updating the spend statuses of the notes spent in a transaction never panics on a well-formed
  wallet: both \<open>expect\<close> calls of the two note update functions succeed.\<close>

theorem update_note_spend_statuses_never_panics:
  assumes "records_wf m"
  shows "\<exists>m'. update_note_spend_statuses txid sp m = Some m' \<and> records_wf m'"
  using assms by (rule update_note_spend_statuses_total)

theorem update_note_spend_statuses_never_panics_witness:
  "\<exists>m'. update_note_spend_statuses [2] (Some ([2], Mempool 20)) example_records = Some m' \<and>
        records_wf m'"
  by (rule update_note_spend_statuses_never_panics) (rule example_wf)

text \<open>C37. A confirmed record is never replaced by a pending one: after creating or modifying any record
  with any status, a record that was confirmed is still there and confirmed; its status changes only
  to another confirmed one, and other records are untouched.\<close>

theorem confirmed_never_downgraded:
  assumes "create_modify_get_transaction_record txid status dt k m = Some m'"
    and "\<And>r. tr_status (k r) = tr_status r"
    and "hm_get m t = Some r" and "is_confirmed (tr_status r)"
  shows "\<exists>r'. hm_get m' t = Some r' \<and> is_confirmed (tr_status r') \<and>
           (t \<noteq> txid \<longrightarrow> r' = r) \<and> (\<not> is_confirmed status \<longrightarrow> tr_status r' = tr_status r)"
  using create_modify_get [OF assms(1), of t] assms(2-4) by auto

theorem confirmed_never_downgraded_witness:
  "\<exists>m' r'. add_taddr_spent [2] (Mempool 40) (Some 1) 5 example_records = Some m' \<and>
        hm_get m' [2] = Some r' \<and> is_confirmed (tr_status r')"
proof -
  have "hm_get example_records [2] = Some example_sent" "is_confirmed (tr_status example_sent)"
    by (simp_all add: example_simps)
  moreover obtain m' where "create_modify_get_transaction_record [2] (Mempool 40) (Some 1)
      (\<lambda>r. r\<lparr> tr_total_transparent_value_spent := 5 \<rparr>) example_records = Some m'"
    using create_modify_None_iff by fastforce
  ultimately show ?thesis
    unfolding add_taddr_spent_def using confirmed_never_downgraded by fastforce
qed

text \<open>Marking a transparent output as spent returns its value, sets its spend to the spending
  transaction, and changes neither another field, another record nor the identity or value of any
  output.\<close>

theorem mark_txid_utxo_spent_correct:
  assumes "hm_get m t = Some r" "find (is_utxo t i) (tr_transparent_outputs r) = Some u"
  shows "let (m', v) = mark_txid_utxo_spent t i s st m in
      v = to_value u \<and>
      (\<exists>r'. hm_get m' t = Some r' \<and>
         find (is_utxo t i) (tr_transparent_outputs r') = Some (u\<lparr> to_spend := Some (s, st) \<rparr>) \<and>
         r' = r\<lparr> tr_transparent_outputs := tr_transparent_outputs r' \<rparr> \<and>
         map (\<lambda>w. (to_txid w, to_output_index w, to_value w)) (tr_transparent_outputs r') =
         map (\<lambda>w. (to_txid w, to_output_index w, to_value w)) (tr_transparent_outputs r)) \<and>
      (\<forall>k. k \<noteq> t \<longrightarrow> hm_get m' k = hm_get m k)"
  using assms
  by (auto simp: mark_txid_utxo_spent_def hm_simps find_update_first is_utxo_def update_first_map
      intro!: find_update_first dest: find_Some_set)

theorem mark_txid_utxo_spent_correct_witness:
  "snd (mark_txid_utxo_spent [1] 0 [3] (Mempool 30) example_records) = 30000"
  using mark_txid_utxo_spent_correct [of example_records "[1]" example_received 0
      "transparent_from_parts ''t1'' [1] 0 [] 30000 None" "[3]" "Mempool 30"]
  by (simp add: example_simps is_utxo_def case_prod_beta)

text \<open>The query sums are exact: over all records, \<open>query_sum_value\<close> is the sum of the values of
  precisely the outputs whose pool and spend status match the query, provided the wallet's outputs
  together stay within \<open>u64\<close>.\<close>

theorem query_sum_value_exact:
  assumes "sum_list (map (unat \<circ> output_value) (all_outputs m)) < 2 ^ 64"
  shows "unat (records_query_sum_value m q) =
     sum_list (map (unat \<circ> output_value)
       (filter (\<lambda>x. output_query_matches (output_pool_type x) (output_spending_tx_status x) q)
          (all_outputs m)))"
proof -
  let ?f = "\<lambda>x. output_query_matches (output_pool_type x) (output_spending_tx_status x) q"
  have "sum_list (map (unat \<circ> output_value) (filter ?f (all_outputs m))) < 2 ^ 64"
    using sum_list_filter_le [of "unat \<circ> output_value" ?f "all_outputs m"] assms by linarith
  then show ?thesis
    by (simp add: records_query_sum_concat all_outputs_def unat_sums)
qed

theorem query_sum_value_exact_witness:
  "unat (records_query_sum_value example_records only_unspent_output) = 60000"
proof -
  have "sum_list (map (unat \<circ> output_value) (all_outputs example_records)) < 2 ^ 64"
    by (simp add: all_outputs_def example_simps)
  from query_sum_value_exact [OF this, of only_unspent_output] show ?thesis
    by (simp add: all_outputs_def example_simps output_query_matches_def pool_query_def
        only_unspent_output_def any_pool_def spend_status_query_def)
qed

text \<open>The value received splits exactly into unspent, pending spent and confirmed spent value.\<close>

theorem balance_partition:
  "records_query_sum_value m any_output =
     records_query_sum_value m \<lparr> q_spend_status = only_unspent, q_pools = any_pool \<rparr> +
     records_query_sum_value m \<lparr> q_spend_status = only_pending_spent, q_pools = any_pool \<rparr> +
     records_query_sum_value m \<lparr> q_spend_status = only_spent, q_pools = any_pool \<rparr>"
  using outp.status_partition [of "all_outputs m"]
  by (simp add: records_query_sum_concat all_outputs_def output_query_matches_def any_output_def)

end
