(* ===== verification/Input_Source.thy ===== *)
theory Input_Source
  imports Record_Steps "HOL-Library.Multiset"
begin

text \<open>
  Selection of the notes that fund a transaction:
  \<open>wallet/transaction_records_by_id/trait_inputsource.rs\<close>.

  \<open>NonNegativeAmount\<close> and \<open>MARGINAL_FEE\<close> belong to \<open>zcash_primitives\<close>: the conversion from \<open>u64\<close>,
  checked addition and subtraction are the record \<open>amount_ops\<close> of arguments, with their documented
  behaviour (values up to the maximum supply, results outside the range are \<open>None\<close>) as the
  hypothesis \<open>amount_laws\<close>; the marginal fee is the argument \<open>marginal_fee\<close>. A panic is \<open>None\<close>.
\<close>

section \<open>Amounts of the protocol crate\<close>

datatype balance_error = Overflow | Underflow

record amount_ops =
  amt_from_u64 :: "u64 \<Rightarrow> balance_error + u64"
  amt_add :: "u64 \<Rightarrow> u64 \<Rightarrow> u64 option"
  amt_sub :: "u64 \<Rightarrow> u64 \<Rightarrow> u64 option"

definition amount_laws :: "nat \<Rightarrow> amount_ops \<Rightarrow> bool" where
  "amount_laws max_money ops \<longleftrightarrow>
     max_money < 2 ^ 63 \<and>
     (\<forall>v. amt_from_u64 ops v = (if unat v \<le> max_money then Inr v else Inl Overflow)) \<and>
     (\<forall>a b. amt_add ops a b = (if unat a + unat b \<le> max_money then Some (a + b) else None)) \<and>
     (\<forall>a b. amt_sub ops a b = (if b \<le> a then Some (a - b) else None))"

section \<open>Errors\<close>

datatype input_source_error =
    WitnessPositionNotFound note_id
  | InvalidValue balance_error
  | MissingOutputIndexes "(txid \<times> block_height) list"

section \<open>The remaining need\<close>

datatype remaining_needed = Positive u64 | GracelessChangeAmount u64

definition calculate_remaining_needed :: "amount_ops \<Rightarrow> u64 \<Rightarrow> u64 \<Rightarrow> remaining_needed option" where
  "calculate_remaining_needed ops target_value selected_value =
     (case amt_sub ops target_value selected_value of
        Some amount \<Rightarrow>
          if amount = 0 then Some (GracelessChangeAmount 0) else Some (Positive amount)
      | None \<Rightarrow> map_option GracelessChangeAmount (amt_sub ops selected_value target_value))"

definition sweep_dust_into_grace ::
  "(note_id \<times> u64) list \<Rightarrow> (note_id \<times> u64) list \<Rightarrow> (note_id \<times> u64) list" where
  "sweep_dust_into_grace selected dust_notes =
     (let sapling_dust = filter (\<lambda>x. ni_protocol (fst x) = Sapling) dust_notes;
          orchard_dust = filter (\<lambda>x. ni_protocol (fst x) = Orchard) dust_notes;
          sapling_selected = filter (\<lambda>x. ni_protocol (fst x) = Sapling) selected;
          orchard_selected = filter (\<lambda>x. ni_protocol (fst x) = Orchard) selected;
          selected = (if length sapling_selected = 1 \<and> sapling_dust \<noteq> []
                      then selected @ [last sapling_dust] else selected);
          selected = (if length orchard_selected = 1 \<and> orchard_dust \<noteq> []
                      then selected @ [last orchard_dust] else selected)
      in selected)"

section \<open>The selection loop\<close>

definition selected_notes_total_value :: "amount_ops \<Rightarrow> ('i \<times> u64) list \<Rightarrow> u64 option" where
  "selected_notes_total_value ops selected =
     foldl (\<lambda>acc (_, v). case acc of None \<Rightarrow> None | Some a \<Rightarrow> amt_add ops a v) (Some 0) selected"

function select_loop ::
  "amount_ops \<Rightarrow> u64 \<Rightarrow> ('i \<times> u64) list \<Rightarrow> ('i \<times> u64) list \<Rightarrow> nat \<Rightarrow>
   (input_source_error + ('i \<times> u64) list) option" where
  "select_loop ops target_value unselected selected index_of_unselected =
     (if unselected = [] then Some (Inr selected)
      else case selected_notes_total_value ops selected of
        None \<Rightarrow> Some (Inl (InvalidValue Overflow))
      | Some total_value \<Rightarrow>
          (case calculate_remaining_needed ops target_value total_value of
             None \<Rightarrow> None
           | Some (GracelessChangeAmount _) \<Rightarrow> Some (Inr selected)
           | Some (Positive updated_target_value) \<Rightarrow>
               if index_of_unselected < length unselected
               then (let smallest_unselected = unselected ! index_of_unselected in
                     if snd smallest_unselected \<ge> updated_target_value
                     then select_loop ops target_value
                            (take index_of_unselected unselected @
                             drop (Suc index_of_unselected) unselected)
                            (selected @ [smallest_unselected]) index_of_unselected
                     else select_loop ops target_value unselected selected
                            (Suc index_of_unselected))
               else select_loop ops target_value (butlast unselected)
                      (selected @ [last unselected]) 0))"
  by pat_completeness auto
termination
  by (relation "measures [\<lambda>(_, _, u, _, _). length u, \<lambda>(_, _, u, _, i). length u - i]") auto

declare select_loop.simps [simp del]

section \<open>The whole selection\<close>

fun amounts_from :: "amount_ops \<Rightarrow> ('i \<times> u64) list \<Rightarrow> balance_error + ('i \<times> u64) list" where
  "amounts_from ops [] = Inr []"
| "amounts_from ops ((i, v) # xs) =
     (case amt_from_u64 ops v of
        Inl e \<Rightarrow> Inl e
      | Inr a \<Rightarrow> (case amounts_from ops xs of Inl e \<Rightarrow> Inl e | Inr ys \<Rightarrow> Inr ((i, a) # ys)))"

definition eligible_notes :: "u64 \<Rightarrow> ('i \<times> u64) list \<Rightarrow> ('i \<times> u64) list" where
  "eligible_notes marginal_fee unselected =
     (let unselected = sort_key snd unselected;
          dust_spendable_index = length (takeWhile (\<lambda>(_, v). v \<le> marginal_fee) unselected)
      in drop dust_spendable_index unselected)"

type_synonym spendable_notes =
  "sapling_crypto_note received_note list \<times> orchard_crypto_note received_note list"

fun receive_notes ::
  "records \<Rightarrow> (note_id \<times> u64) list \<Rightarrow> spendable_notes \<Rightarrow>
   (input_source_error + spendable_notes) option" where
  "receive_notes m [] acc = Some (Inr acc)"
| "receive_notes m ((nid, _) # xs) (saplings, orchards) =
     (case hm_get m (ni_txid nid) of
        None \<Rightarrow> None
      | Some transaction_record \<Rightarrow>
          (let output_index = (ucast (ni_output_index nid) :: u32) in
           case ni_protocol nid of
             Sapling \<Rightarrow>
               (case get_received_note Sapling tr_sapling_notes transaction_record output_index of
                  None \<Rightarrow> Some (Inl (WitnessPositionNotFound nid))
                | Some received_note \<Rightarrow> receive_notes m xs (saplings @ [received_note], orchards))
           | Orchard \<Rightarrow>
               (case get_received_note Orchard tr_orchard_notes transaction_record output_index of
                  None \<Rightarrow> Some (Inl (WitnessPositionNotFound nid))
                | Some received_note \<Rightarrow> receive_notes m xs (saplings, orchards @ [received_note]))))"

definition select_spendable_notes ::
  "amount_ops \<Rightarrow> u64 \<Rightarrow> records \<Rightarrow> u64 \<Rightarrow> shielded_protocol list \<Rightarrow> block_height \<Rightarrow> note_id list \<Rightarrow>
   (input_source_error + spendable_notes) option" where
  "select_spendable_notes ops marginal_fee m target_value sources anchor_height exclude =
     (case get_spendable_note_ids_and_values m sources anchor_height exclude of
        Inl e \<Rightarrow> Some (Inl (MissingOutputIndexes e))
      | Inr ids \<Rightarrow>
          (case amounts_from ops ids of
             Inl e \<Rightarrow> Some (Inl (InvalidValue e))
           | Inr unselected \<Rightarrow>
               (case select_loop ops target_value (eligible_notes marginal_fee unselected) [] 0 of
                  None \<Rightarrow> None
                | Some (Inl e) \<Rightarrow> Some (Inl e)
                | Some (Inr selected) \<Rightarrow> receive_notes m selected ([], []))))"

text \<open>\<open>WalletTransparentOutput::from_parts\<close> belongs to the backend crate: \<open>mk\<close>. A value that is not
  a valid amount is a panic.\<close>

fun transparent_spendable ::
  "amount_ops \<Rightarrow> (txid \<times> u32 \<Rightarrow> tx_out \<Rightarrow> block_height \<Rightarrow> 'w option) \<Rightarrow> block_height \<Rightarrow>
   transparent_output list \<Rightarrow> 'w list option" where
  "transparent_spendable ops mk height [] = Some []"
| "transparent_spendable ops mk height (out # outs) =
     (if to_spend out = None
      then (case amt_from_u64 ops (to_value out) of
              Inl _ \<Rightarrow> None
            | Inr v \<Rightarrow>
                (case transparent_spendable ops mk height outs of
                   None \<Rightarrow> None
                 | Some ws \<Rightarrow>
                     Some (case mk (to_outpoint out)
                                  \<lparr> vo_value = v, vo_script_pubkey = to_script out \<rparr> height of
                             Some w \<Rightarrow> w # ws | None \<Rightarrow> ws)))
      else transparent_spendable ops mk height outs)"

fun concat_options :: "'w list option list \<Rightarrow> 'w list option" where
  "concat_options [] = Some []"
| "concat_options (x # xs) =
     (case x of
        None \<Rightarrow> None
      | Some ws \<Rightarrow> map_option (\<lambda>vs. ws @ vs) (concat_options xs))"

definition get_spendable_transparent_outputs ::
  "amount_ops \<Rightarrow> (txid \<times> u32 \<Rightarrow> tx_out \<Rightarrow> block_height \<Rightarrow> 'w option) \<Rightarrow> records \<Rightarrow> block_height \<Rightarrow>
   'w list option" where
  "get_spendable_transparent_outputs ops mk m target_height =
     concat_options
       (map (\<lambda>tx. transparent_spendable ops mk (get_height (tr_status tx)) (tr_transparent_outputs tx))
          (filter (\<lambda>tx. case get_confirmed_height (tr_status tx) of
                          Some height \<Rightarrow> height \<le> target_height | None \<Rightarrow> False)
             (hm_values m)))"

end
