(* ===== verification/Note_Selection.thy ===== *)
theory Note_Selection
  imports Input_Source
begin

text \<open>
  Correctness of the note selection of \<open>trait_inputsource.rs\<close>: the loop always returns, it
  returns enough value or everything that is not dust, with the smallest possible number of notes,
  and the notes handed to the transaction builder are the selected ones.
\<close>

section \<open>Values of lists of notes\<close>

definition notes_value :: "('i \<times> u64) list \<Rightarrow> nat" where
  "notes_value xs = sum_list (map (unat \<circ> snd) xs)"

definition mvalue :: "('i \<times> u64) multiset \<Rightarrow> nat" where
  "mvalue M = sum_mset (image_mset (unat \<circ> snd) M)"

lemma notes_value_simps [simp]:
  "notes_value [] = 0" "notes_value (x # xs) = unat (snd x) + notes_value xs"
  "notes_value (xs @ ys) = notes_value xs + notes_value ys"
  "notes_value (rev xs) = notes_value xs"
  by (auto simp: notes_value_def rev_map [symmetric])

lemma notes_value_mset: "mset xs = mset ys \<Longrightarrow> notes_value xs = notes_value ys"
  unfolding notes_value_def by (metis mset_map sum_mset_sum_list)

lemma notes_value_take_drop: "notes_value (take n xs) + notes_value (drop n xs) = notes_value xs"
  by (metis append_take_drop_id notes_value_simps(3))

lemma total_fold:
  assumes "amount_laws mx ops" "unat a + notes_value xs \<le> mx"
  shows "\<exists>w. foldl (\<lambda>acc (_, v). case acc of None \<Rightarrow> None | Some a \<Rightarrow> amt_add ops a v) (Some a) xs =
             Some w \<and> unat w = unat a + notes_value xs"
  using assms(2)
proof (induction xs arbitrary: a)
  case (Cons x xs)
  have "mx < 2 ^ 63" using assms(1) by (simp add: amount_laws_def)
  then have s: "unat (a + snd x) = unat a + unat (snd x)"
    using Cons.prems by (simp add: unat_word_ariths)
  have "amt_add ops a (snd x) = Some (a + snd x)"
    using assms(1) Cons.prems by (simp add: amount_laws_def)
  then show ?case
    using Cons.IH [of "a + snd x"] Cons.prems s by (simp add: case_prod_beta add.assoc)
qed simp

lemma selected_total:
  assumes "amount_laws mx ops" "notes_value xs \<le> mx"
  shows "\<exists>w. selected_notes_total_value ops xs = Some w \<and> unat w = notes_value xs"
  using total_fold [OF assms(1), of 0 xs] assms(2) by (simp add: selected_notes_total_value_def)

lemma remaining_needed_cases:
  assumes "amount_laws mx ops"
  shows "calculate_remaining_needed ops t s =
    (if unat s < unat t then Some (Positive (t - s)) else Some (GracelessChangeAmount (s - t)))"
  using assms by (auto simp: calculate_remaining_needed_def amount_laws_def word_le_nat_alt
      word_less_nat_alt) (metis unsigned_word_eqI)

lemma select_loop_unfold:
  assumes "amount_laws mx ops" "notes_value selected \<le> mx" "unselected \<noteq> []"
  shows "select_loop ops t unselected selected i =
    (if unat t \<le> notes_value selected then Some (Inr selected)
     else if i < length unselected
     then (if unat t \<le> notes_value selected + unat (snd (unselected ! i))
           then select_loop ops t (take i unselected @ drop (Suc i) unselected)
                  (selected @ [unselected ! i]) i
           else select_loop ops t unselected selected (Suc i))
     else select_loop ops t (butlast unselected) (selected @ [last unselected]) 0)"
proof -
  obtain w where w: "selected_notes_total_value ops selected = Some w" "unat w = notes_value selected"
    using selected_total assms(1,2) by blast
  have "notes_value selected < unat t \<Longrightarrow> unat (t - w) = unat t - notes_value selected"
    using w(2) by (simp add: unat_sub word_le_nat_alt)
  then have "notes_value selected < unat t \<Longrightarrow>
     t - w \<le> v \<longleftrightarrow> unat t \<le> notes_value selected + unat v" for v
    by (auto simp: word_le_nat_alt)
  then show ?thesis
    using assms(3) w
    by (subst select_loop.simps) (auto simp: remaining_needed_cases [OF assms(1)] Let_def)
qed

lemma select_loop_done:
  assumes "amount_laws mx ops" "notes_value selected \<le> mx" "unat t \<le> notes_value selected"
  shows "select_loop ops t unselected selected i = Some (Inr selected)"
proof (cases "unselected = []")
  case True
  then show ?thesis by (subst select_loop.simps) simp
next
  case False
  then show ?thesis using assms(3) by (simp add: select_loop_unfold [OF assms(1,2)])
qed

text \<open>The outcome on the sorted list of eligible notes: the notes from position \<open>n\<close> up, biggest
  first, and then, when the target is reached, the smallest note below \<open>n\<close> that completes it.\<close>

definition selection_shape :: "nat \<Rightarrow> ('i \<times> u64) list \<Rightarrow> ('i \<times> u64) list \<Rightarrow> bool" where
  "selection_shape target xs sel \<longleftrightarrow>
     (sel = rev xs \<and> notes_value xs < target) \<or> (sel = [] \<and> target = 0) \<or> (xs = [] \<and> sel = []) \<or>
     (\<exists>n i. i < n \<and> n \<le> length xs \<and> sel = rev (drop n xs) @ [xs ! i] \<and>
        notes_value (drop n xs) < target \<and> target \<le> notes_value sel \<and>
        (\<forall>j<i. notes_value (drop n xs) + unat (snd (xs ! j)) < target))"

lemma take_Suc_butlast: "n \<le> length xs \<Longrightarrow> n > 0 \<Longrightarrow> butlast (take n xs) = take (n - 1) xs"
  by (simp add: butlast_take)

lemma last_take: "n \<le> length xs \<Longrightarrow> n > 0 \<Longrightarrow> last (take n xs) = xs ! (n - Suc 0)"
  by (subst last_conv_nth) auto

lemma drop_pred: "n \<le> length xs \<Longrightarrow> n > 0 \<Longrightarrow> drop (n - Suc 0) xs = xs ! (n - Suc 0) # drop n xs"
  by (cases n) (simp_all add: Cons_nth_drop_Suc)

lemma rev_drop_step:
  "n \<le> length xs \<Longrightarrow> n > 0 \<Longrightarrow> rev (drop n xs) @ [xs ! (n - Suc 0)] = rev (drop (n - Suc 0) xs)"
  by (simp add: drop_pred)

lemma notes_value_mem: "x \<in> set xs \<Longrightarrow> unat (snd x) \<le> notes_value xs"
  by (induction xs) auto

lemma select_loop_shape:
  assumes laws: "amount_laws mx ops" and bound: "notes_value xs \<le> mx"
    and "n \<le> length xs" "i \<le> n" "notes_value (drop n xs) < unat t"
    and "\<forall>j<i. notes_value (drop n xs) + unat (snd (xs ! j)) < unat t"
  shows "\<exists>sel. select_loop ops t (take n xs) (rev (drop n xs)) i = Some (Inr sel) \<and>
               selection_shape (unat t) xs sel"
  using assms(3-6)
proof (induction "n * (length xs + 2) + (n - i)" arbitrary: n i rule: less_induct)
  case less
  note IH = less.hyps and nl = less.prems(1) and il = less.prems(2)
    and lt = less.prems(3) and before = less.prems(4)
  have vb: "notes_value (rev (drop n xs)) \<le> mx"
    using bound notes_value_take_drop [of n xs] by simp
  show ?case
  proof (cases "n = 0")
    case True
    then show ?thesis using lt
      by (simp add: select_loop.simps selection_shape_def)
  next
    case False
    then have ne: "take n xs \<noteq> []" "n > 0" using nl by auto
    note unfold = select_loop_unfold [OF laws vb ne(1), of t i]
    show ?thesis
    proof (cases "i < n")
      case True
      show ?thesis
      proof (cases "unat t \<le> notes_value (drop n xs) + unat (snd (xs ! i))")
        case hit: True
        let ?sel = "rev (drop n xs) @ [xs ! i]"
        have "unat (snd (xs ! i)) \<le> notes_value (take n xs)"
          using True nl by (intro notes_value_mem) (auto simp: in_set_conv_nth)
        then have "notes_value ?sel \<le> mx"
          using bound notes_value_take_drop [of n xs] by simp
        then have "select_loop ops t u ?sel i = Some (Inr ?sel)" for u
          using hit by (intro select_loop_done [OF laws]) auto
        moreover have "selection_shape (unat t) xs ?sel"
          unfolding selection_shape_def using True nl lt hit before by (intro disjI2) auto
        ultimately show ?thesis
          using unfold lt True hit nl by simp
      next
        case miss: False
        have "\<forall>j<Suc i. notes_value (drop n xs) + unat (snd (xs ! j)) < unat t"
          using before miss by (auto simp: less_Suc_eq)
        then show ?thesis
          using IH [of n "Suc i"] unfold True miss lt nl by auto
      qed
    next
      case False
      then have i: "i = n" using il by simp
      have step: "select_loop ops t (take n xs) (rev (drop n xs)) i =
          select_loop ops t (take (n - 1) xs) (rev (drop (n - 1) xs)) 0"
        using unfold i lt nl ne by (simp add: take_Suc_butlast last_take rev_drop_step)
      have "notes_value (drop (n - 1) xs) < unat t"
        using before i ne nl by (auto simp: drop_pred add.commute)
      moreover have "(n - 1) * (length xs + 2) + (n - 1 - 0) < n * (length xs + 2) + (n - i)"
        using nl ne by (cases n) auto
      ultimately show ?thesis
        unfolding step using IH [of "n - 1" 0] nl by auto
    qed
  qed
qed

lemma mvalue_mset [simp]: "mvalue (mset xs) = notes_value xs"
  unfolding mvalue_def notes_value_def by (metis mset_map sum_mset_sum_list)

lemma mvalue_mono: "M \<subseteq># N \<Longrightarrow> mvalue M \<le> mvalue N"
  unfolding mvalue_def by (metis image_mset_union mset_subset_eq_exists_conv sum_mset.union le_add1)

lemma sorted_unat_iff: "sorted (map snd xs) \<Longrightarrow> i \<le> j \<Longrightarrow> j < length xs \<Longrightarrow>
   unat (snd (xs ! i)) \<le> unat (snd ((xs :: ('i \<times> u64) list) ! j))"
  by (auto simp: sorted_iff_nth_mono word_le_nat_alt)

lemma top_notes_dominate:
  fixes xs :: "('i \<times> u64) list"
  assumes "sorted (map snd xs)" "M \<subseteq># mset xs" "size M \<le> length xs - n"
  shows "mvalue M \<le> notes_value (drop n xs)"
  using assms
proof (induction xs arbitrary: M n)
  case (Cons x xs)
  show ?case
  proof (cases n)
    case 0
    then show ?thesis using mvalue_mono [OF Cons.prems(2)] by (simp flip: mvalue_mset)
  next
    case (Suc n')
    have srt: "sorted (map snd xs)" using Cons.prems(1) by simp
    show ?thesis
    proof (cases "x \<in># M")
      case False
      then have "M \<subseteq># mset xs"
        using Cons.prems(2) by (metis inter_add_left1 mset.simps(2) subset_mset.inf.absorb_iff2 subset_mset.inf.orderE subset_mset.inf_commute)
      then show ?thesis using Cons.IH [OF srt, of M n'] Cons.prems(3) Suc by simp
    next
      case True
      then obtain M' where M: "M = add_mset x M'" by (meson mset_add)
      then have sub: "M' \<subseteq># mset xs" using Cons.prems(2) by simp
      have len: "n' < length xs" using Cons.prems(3) Suc M by auto
      have "mvalue M' \<le> notes_value (drop (Suc n') xs)"
        using Cons.IH [OF srt sub, of "Suc n'"] Cons.prems(3) Suc M by auto
      moreover have "unat (snd x) \<le> unat (snd (xs ! n'))"
        using Cons.prems(1) len by (auto simp: word_le_nat_alt)
      moreover have "drop n' xs = xs ! n' # drop (Suc n') xs"
        using len by (simp add: Cons_nth_drop_Suc)
      ultimately show ?thesis by (simp add: M Suc mvalue_def)
    qed
  qed
qed (simp add: mvalue_def)

lemma select_loop_start:
  assumes "amount_laws mx ops" "notes_value xs \<le> mx"
  shows "\<exists>sel. select_loop ops t xs [] 0 = Some (Inr sel) \<and> selection_shape (unat t) xs sel"
proof (cases "unat t = 0")
  case True
  then show ?thesis
    using select_loop_done [OF assms(1), of "[]" t xs 0] by (auto simp: selection_shape_def)
next
  case False
  then show ?thesis
    using select_loop_shape [OF assms, of "length xs" 0 t] by simp
qed

lemma selection_shape_subset:
  assumes "selection_shape t xs sel"
  shows "mset sel \<subseteq># mset xs \<and> (t \<le> notes_value sel \<or> mset sel = mset xs)"
proof -
  have "mset (drop n xs) + {#xs ! i#} \<subseteq># mset xs" if "i < n" "n \<le> length xs" for n i
  proof -
    have "xs ! i \<in># mset (take n xs)"
      using that by (auto simp: in_set_conv_nth)
    then have "{#xs ! i#} \<subseteq># mset (take n xs)" by simp
    then have "mset (drop n xs) + {#xs ! i#} \<subseteq># mset (drop n xs) + mset (take n xs)" by simp
    also have "\<dots> = mset xs"
      by (metis append_take_drop_id mset_append union_commute)
    finally show ?thesis .
  qed
  then show ?thesis using assms by (auto simp: selection_shape_def)
qed

lemma selection_shape_minimal:
  assumes "selection_shape t xs sel" "sorted (map snd xs)" "M \<subseteq># mset xs" "t \<le> mvalue M"
  shows "t \<le> notes_value sel \<and> length sel \<le> size M"
proof -
  have le: "mvalue M \<le> notes_value xs" using mvalue_mono [OF assms(3)] by simp
  from assms(1) consider "sel = []" "t = 0" | "sel = []" "xs = []"
    | (pick) n i where "i < n" "n \<le> length xs" "sel = rev (drop n xs) @ [xs ! i]"
        "notes_value (drop n xs) < t" "t \<le> notes_value sel"
    using le assms(4) unfolding selection_shape_def by auto
  then show ?thesis
  proof cases
    case pick
    have "\<not> size M \<le> length xs - n"
      using top_notes_dominate [OF assms(2,3), of n] pick(4) assms(4) by auto
    then show ?thesis using pick by simp
  qed (use le assms(4) in auto)
qed

lemma selection_shape_single:
  assumes "selection_shape t xs sel" "sorted (map snd xs)" "0 < t" "x \<in> set xs" "t \<le> unat (snd x)"
  shows "\<exists>y. sel = [y] \<and> find (\<lambda>z. t \<le> unat (snd z)) xs = Some y"
proof -
  have "{#x#} \<subseteq># mset xs" "t \<le> mvalue {#x#}" using assms by (auto simp: mvalue_def)
  then have len: "length sel \<le> 1" "t \<le> notes_value sel"
    using selection_shape_minimal [OF assms(1,2)] by (metis size_single)+
  have "notes_value xs \<ge> t" using notes_value_mem [OF assms(4)] assms(5) by simp
  then obtain n i where p: "i < n" "n \<le> length xs" "sel = rev (drop n xs) @ [xs ! i]"
      "\<forall>j<i. notes_value (drop n xs) + unat (snd (xs ! j)) < t"
    using assms(1,3,4) len(2) unfolding selection_shape_def by auto
  then have n: "n = length xs" using len by simp
  then have "sel = [xs ! i]" "i < length xs" "\<forall>j<i. unat (snd (xs ! j)) < t" using p by auto
  moreover from this have "t \<le> unat (snd (xs ! i))" using len(2) by simp
  ultimately show ?thesis by (auto simp: find_Some_iff not_le intro!: exI [of _ i])
qed

lemma eligible_notes_eq: "eligible_notes fee xs = filter (\<lambda>x. fee < snd x) (sort_key snd xs)"
proof -
  have "drop (length (takeWhile (\<lambda>(_, v). v \<le> fee) ys)) ys = filter (\<lambda>x. fee < snd x) ys"
    if "sorted (map snd ys)" for ys :: "('a \<times> u64) list"
    using that
  proof (induction ys)
    case (Cons y ys)
    show ?case
    proof (cases "snd y \<le> fee")
      case True
      then show ?thesis using Cons by (auto simp: case_prod_beta)
    next
      case False
      then have "\<forall>z \<in> set ys. fee < snd z" using Cons.prems by auto
      then show ?thesis using False by (auto simp: case_prod_beta)
    qed
  qed simp
  then show ?thesis by (simp add: eligible_notes_def Let_def)
qed

lemma eligible_notes_sorted: "sorted (map snd (eligible_notes fee xs))"
  by (simp add: eligible_notes_eq sorted_filter)

lemma eligible_notes_mset: "mset (eligible_notes fee xs) = filter_mset (\<lambda>x. fee < snd x) (mset xs)"
  by (simp add: eligible_notes_eq mset_filter)

lemma eligible_notes_value: "notes_value (eligible_notes fee xs) \<le> notes_value xs"
  using mvalue_mono [of "mset (eligible_notes fee xs)" "mset xs"]
  by (simp add: eligible_notes_mset del: mvalue_mset) (simp flip: mvalue_mset add: eligible_notes_mset)

lemma amounts_from_ok:
  assumes "amount_laws mx ops" "\<forall>x \<in> set xs. unat (snd x) \<le> mx"
  shows "amounts_from ops xs = Inr xs"
  using assms(2)
proof (induction xs)
  case (Cons x xs)
  then show ?case using assms(1) by (cases x) (simp add: amount_laws_def)
qed simp

section \<open>From identifiers to notes\<close>

lemma amounts_from_values: "amounts_from ops xs = Inr ys \<Longrightarrow> amount_laws mx ops \<Longrightarrow> ys = xs"
  by (induction ops xs arbitrary: ys rule: amounts_from.induct)
     (auto simp: amount_laws_def split: sum.splits if_splits)

lemma collect_note_ids_txid:
  assumes "\<forall>p \<in> set (fst acc). ni_txid (fst p) = t"
  shows "\<forall>p \<in> set (fst (foldl (collect_note_id t pr v ex) acc ns)). ni_txid (fst p) = t"
  using assms
proof (induction ns arbitrary: acc)
  case (Cons n ns)
  have "\<forall>p \<in> set (fst (collect_note_id t pr v ex acc n)). ni_txid (fst p) = t"
    using Cons.prems
    by (auto simp: collect_note_id_def Let_def split: prod.splits option.splits)
  then show ?case using Cons.IH by simp
qed simp

lemma record_spendable_txid:
  "record_spendable_note_ids_and_values r sources ex = Inr ids \<Longrightarrow>
   \<forall>p \<in> set ids. ni_txid (fst p) = tr_txid r"
proof -
  assume "record_spendable_note_ids_and_values r sources ex = Inr ids"
  moreover define a where "a = (if Sapling \<in> set sources
     then foldl (collect_note_id (tr_txid r) Sapling sapling_value ex) ([], False) (tr_sapling_notes r)
     else ([], False))"
  moreover have "\<forall>p \<in> set (fst a). ni_txid (fst p) = tr_txid r"
    using collect_note_ids_txid [of "([], False)" "tr_txid r" Sapling sapling_value ex "tr_sapling_notes r"]
    by (simp add: a_def)
  ultimately show ?thesis
    using collect_note_ids_txid [of a "tr_txid r" Orchard orchard_value ex "tr_orchard_notes r"]
    unfolding record_spendable_note_ids_and_values_def Let_def a_def [symmetric]
    by (auto split: if_splits)
qed

lemma collect_spendable_known:
  assumes "\<forall>p \<in> set (fst acc). \<exists>r \<in> S. ni_txid (fst p) = tr_txid r" "set rs \<subseteq> S"
  shows "\<forall>p \<in> set (fst (foldl (collect_spendable sources h ex) acc rs)).
           \<exists>r \<in> S. ni_txid (fst p) = tr_txid r"
  using assms
proof (induction rs arbitrary: acc)
  case (Cons r rs)
  have "\<forall>p \<in> set (fst (collect_spendable sources h ex acc r)). \<exists>r \<in> S. ni_txid (fst p) = tr_txid r"
  proof (cases "record_spendable_note_ids_and_values r sources ex")
    case (Inr ids)
    then show ?thesis
      using Cons.prems record_spendable_txid [OF Inr]
      by (auto simp: collect_spendable_def case_prod_beta)
  qed (use Cons.prems in \<open>auto simp: collect_spendable_def case_prod_beta\<close>)
  then show ?case using Cons.IH [of "collect_spendable sources h ex acc r"] Cons.prems(2) by simp
qed simp

lemma spendable_ids_known:
  assumes "records_wf m" "get_spendable_note_ids_and_values m sources h ex = Inr ids" "p \<in> set ids"
  shows "\<exists>r. hm_get m (ni_txid (fst p)) = Some r"
proof -
  have "\<exists>r \<in> set (hm_values m). ni_txid (fst p) = tr_txid r"
    using collect_spendable_known [of "([], [])" "set (hm_values m)" "hm_values m" sources h ex] assms(2,3)
    by (auto simp: get_spendable_note_ids_and_values_def Let_def split: if_splits)
  then show ?thesis
    using assms(1) by (metis hm_values_get records_wf_hm records_wf_get)
qed

lemma receive_notes_total:
  assumes "\<forall>p \<in> set sel. \<exists>r. hm_get m (ni_txid (fst p)) = Some r"
  shows "receive_notes m sel acc \<noteq> None"
  using assms
  by (induction m sel acc rule: receive_notes.induct)
     (auto simp: Let_def split: option.splits shielded_protocol.splits)

lemma ucast_u16_u32_u16 [simp]: "ucast (ucast (i :: u16) :: u32) = i"
  by (rule bit_word_eqI) (simp add: bit_simps)

lemma receive_notes_ids:
  assumes "receive_notes m sel (ss, os) = Some (Inr (ss', os'))" "records_wf m"
  shows "map rn_note_id ss' = map rn_note_id ss @ map fst (filter (\<lambda>p. ni_protocol (fst p) = Sapling) sel) \<and>
         map rn_note_id os' = map rn_note_id os @ map fst (filter (\<lambda>p. ni_protocol (fst p) = Orchard) sel)"
  using assms(1)
proof (induction sel arbitrary: ss os)
  case (Cons p sel)
  obtain nid v where p: "p = (nid, v)" by (cases p)
  obtain r where r: "hm_get m (ni_txid nid) = Some r"
    using Cons.prems by (auto simp: p split: option.splits)
  then have "tr_txid r = ni_txid nid" using assms(2) by (simp add: records_wf_get)
  then have nid: "\<lparr> ni_txid = tr_txid r, ni_protocol = ni_protocol nid,
      ni_output_index = ucast (ucast (ni_output_index nid) :: u32) \<rparr> = nid" by simp
  show ?case
  proof (cases "ni_protocol nid")
    case Sapling
    then obtain rn where rn: "get_received_note Sapling tr_sapling_notes r (ucast (ni_output_index nid)) = Some rn"
      and rec: "receive_notes m sel (ss @ [rn], os) = Some (Inr (ss', os'))"
      using Cons.prems r by (auto simp: p Let_def split: option.splits)
    have "rn_note_id rn = nid"
      using sapling_pool.get_received_note_sound [OF rn] nid Sapling by auto
    then show ?thesis using Cons.IH [OF rec] p Sapling by simp
  next
    case Orchard
    then obtain rn where rn: "get_received_note Orchard tr_orchard_notes r (ucast (ni_output_index nid)) = Some rn"
      and rec: "receive_notes m sel (ss, os @ [rn]) = Some (Inr (ss', os'))"
      using Cons.prems r by (auto simp: p Let_def split: option.splits)
    have "rn_note_id rn = nid"
      using orchard_pool.get_received_note_sound [OF rn] nid Orchard by auto
    then show ?thesis using Cons.IH [OF rec] p Orchard by simp
  qed
qed simp

lemma select_loop_mset:
  assumes "select_loop ops t u s i = Some (Inr sel)"
  shows "set sel \<subseteq> set s \<union> set u"
  using assms
proof (induction ops t u s i arbitrary: sel rule: select_loop.induct)
  case (1 ops t u s i)
  have sub1: "i < length u \<Longrightarrow> insert (u ! i) (set (take i u) \<union> set (drop (Suc i) u)) \<subseteq> set u"
    by (auto dest: in_set_takeD in_set_dropD)
  have sub2: "u \<noteq> [] \<Longrightarrow> insert (last u) (set (butlast u)) \<subseteq> set u"
    by (auto dest: in_set_butlastD)
  note prems = "1.prems" [unfolded select_loop.simps [of ops t u s i]]
  show ?case
  proof (cases "u = []")
    case False
    then obtain w where w: "selected_notes_total_value ops s = Some w"
      using prems by (cases "selected_notes_total_value ops s") auto
    then obtain rn where rn: "calculate_remaining_needed ops t w = Some rn"
      using prems False by (cases "calculate_remaining_needed ops t w") auto
    show ?thesis
    proof (cases rn)
      case (Positive need)
      note IH = "1.IH" [OF False w rn Positive]
      consider (hit) "i < length u" "need \<le> snd (u ! i)" | (miss) "i < length u" "\<not> need \<le> snd (u ! i)"
        | (pop) "\<not> i < length u" by blast
      then show ?thesis
      proof cases
        case hit
        then have "select_loop ops t (take i u @ drop (Suc i) u) (s @ [u ! i]) i = Some (Inr sel)"
          using prems False w rn Positive by simp
        from IH(1) [OF hit(1) refl hit(2) this] sub1 [OF hit(1)] show ?thesis by auto
      next
        case miss
        then have "select_loop ops t u s (Suc i) = Some (Inr sel)"
          using prems False w rn Positive by simp
        from IH(2) [OF miss(1) refl miss(2) this] show ?thesis .
      next
        case pop
        then have "select_loop ops t (butlast u) (s @ [last u]) 0 = Some (Inr sel)"
          using prems False w rn Positive by simp
        from IH(3) [OF pop this] sub2 [OF False] show ?thesis by auto
      qed
    qed (use prems False w rn in auto)
  qed (use prems in auto)
qed

lemma select_loop_no_panic:
  assumes "amount_laws mx ops"
  shows "select_loop ops t u s i \<noteq> None"
  using assms
proof (induction ops t u s i rule: select_loop.induct)
  case (1 ops t u s i)
  show ?case
  proof (cases "u = [] \<or> selected_notes_total_value ops s = None")
    case True
    then show ?thesis by (subst select_loop.simps) auto
  next
    case False
    then obtain w where "u \<noteq> []" "selected_notes_total_value ops s = Some w" by auto
    then show ?thesis
      using "1.IH" "1.prems"
      by (subst select_loop.simps) (simp add: remaining_needed_cases [OF "1.prems"] Let_def)
  qed
qed

text \<open>What the collected identifiers stand for.\<close>

definition spendable_id ::
  "txid \<Rightarrow> shielded_protocol \<Rightarrow> ('n shielded_note \<Rightarrow> u64) \<Rightarrow> note_id list \<Rightarrow> 'n shielded_note list \<Rightarrow>
   note_id \<times> u64 \<Rightarrow> bool" where
  "spendable_id t pr v ex ns p \<longleftrightarrow>
     (\<exists>n \<in> set ns. \<exists>i. sn_spend n = None \<and> sn_output_index n = Some i \<and>
        p = (\<lparr> ni_txid = t, ni_protocol = pr, ni_output_index = ucast i \<rparr>, v n) \<and> fst p \<notin> set ex)"

lemma collect_note_ids_spec:
  "set (fst (foldl (collect_note_id t pr v ex) acc ns)) =
     set (fst acc) \<union> {p. spendable_id t pr v ex ns p} \<and>
   (snd (foldl (collect_note_id t pr v ex) acc ns) \<longleftrightarrow>
     snd acc \<or> (\<exists>n \<in> set ns. sn_spend n = None \<and> sn_output_index n = None))"
proof (induction ns arbitrary: acc)
  case (Cons n ns)
  have "set (fst (collect_note_id t pr v ex acc n)) = set (fst acc) \<union> {p. spendable_id t pr v ex [n] p}"
    "snd (collect_note_id t pr v ex acc n) \<longleftrightarrow>
       snd acc \<or> (sn_spend n = None \<and> sn_output_index n = None)"
    by (cases acc; cases "sn_output_index n"; auto simp: collect_note_id_def spendable_id_def Let_def)+
  moreover have "{p. spendable_id t pr v ex (n # ns) p} =
      {p. spendable_id t pr v ex [n] p} \<union> {p. spendable_id t pr v ex ns p}"
    by (auto simp: spendable_id_def)
  ultimately show ?case using Cons.IH [of "collect_note_id t pr v ex acc n"] by auto
qed (auto simp: spendable_id_def)

lemma record_spendable_spec:
  "record_spendable_note_ids_and_values r sources ex = Inr ids \<Longrightarrow>
   set ids = {p. (Sapling \<in> set sources \<and> spendable_id (tr_txid r) Sapling sapling_value ex (tr_sapling_notes r) p) \<or>
                 (Orchard \<in> set sources \<and> spendable_id (tr_txid r) Orchard orchard_value ex (tr_orchard_notes r) p)}"
  unfolding record_spendable_note_ids_and_values_def Let_def
  by (auto simp: collect_note_ids_spec [THEN conjunct1] split: if_splits)

lemma collect_spendable_spec:
  "fst (foldl (collect_spendable sources h ex) acc rs) = fst acc @
     concat (map (\<lambda>r. case record_spendable_note_ids_and_values r sources ex of Inr xs \<Rightarrow> xs | Inl _ \<Rightarrow> [])
       (filter (\<lambda>r. is_confirmed_before_or_at (tr_status r) h) rs))"
  by (induction rs arbitrary: acc)
     (auto simp: collect_spendable_def case_prod_beta split: sum.splits)

lemma collect_spendable_missing:
  "snd (foldl (collect_spendable sources h ex) acc rs) = snd acc @
     map (\<lambda>r. (tr_txid r, get_height (tr_status r)))
       (filter (\<lambda>r. is_confirmed_before_or_at (tr_status r) h \<and>
                    record_spendable_note_ids_and_values r sources ex = Inl ()) rs)"
  by (induction rs arbitrary: acc)
     (auto simp: collect_spendable_def case_prod_beta split: sum.splits)

section \<open>A concrete instance\<close>

definition example_amount_ops :: amount_ops where
  "example_amount_ops =
     \<lparr> amt_from_u64 = (\<lambda>v. if unat v \<le> 2100000000000000 then Inr v else Inl Overflow),
       amt_add = (\<lambda>a b. if unat a + unat b \<le> 2100000000000000 then Some (a + b) else None),
       amt_sub = (\<lambda>a b. if b \<le> a then Some (a - b) else None) \<rparr>"

lemma example_amount_laws: "amount_laws 2100000000000000 example_amount_ops"
  by (simp add: amount_laws_def example_amount_ops_def)

definition example_amounts :: "(nat \<times> u64) list" where
  "example_amounts = [(0, 70000), (1, 4000), (2, 20000), (3, 50000)]"

lemma example_amounts_bound: "notes_value example_amounts \<le> 2100000000000000"
  by (simp add: example_amounts_def notes_value_def)

lemma example_spendable:
  "get_spendable_note_ids_and_values example_records [Orchard] 25 [] =
     Inr [(\<lparr> ni_txid = [2], ni_protocol = Orchard, ni_output_index = 1 \<rparr>, 30000)]"
  by (simp add: get_spendable_note_ids_and_values_def example_simps collect_spendable_def
      record_spendable_note_ids_and_values_def collect_note_id_def)

lemma example_select:
  "select_spendable_notes example_amount_ops 5000 example_records 10000 [Orchard] 25 [] =
     Some (Inr ([], [\<lparr> rn_note_id = \<lparr> ni_txid = [2], ni_protocol = Orchard, ni_output_index = 1 \<rparr>,
       rn_txid = [2], rn_output_index = 1, rn_note = sn_note example_change, rn_position = 8 \<rparr>]))"
  by (simp add: select_spendable_notes_def example_spendable eligible_notes_eq select_loop.simps
      selected_notes_total_value_def calculate_remaining_needed_def example_amount_ops_def
      get_received_note_def) (simp add: example_simps get_received_note_def)

section \<open>Properties\<close>

text \<open>C6. Note selection returns a part of the notes worth more than the marginal fee. It reaches the
  target, or it is all of them; and whenever the target can be reached at all, it is reached and no
  other choice of notes reaches it with fewer notes (so with a smaller fee).\<close>

theorem note_selection_minimal:
  assumes "amount_laws max_money ops" "notes_value xs \<le> max_money"
  shows "\<exists>sel. select_loop ops target (eligible_notes fee xs) [] 0 = Some (Inr sel) \<and>
     mset sel \<subseteq># filter_mset (\<lambda>x. fee < snd x) (mset xs) \<and>
     (unat target \<le> notes_value sel \<or> mset sel = filter_mset (\<lambda>x. fee < snd x) (mset xs)) \<and>
     (\<forall>M. M \<subseteq># filter_mset (\<lambda>x. fee < snd x) (mset xs) \<and> unat target \<le> mvalue M \<longrightarrow>
          unat target \<le> notes_value sel \<and> length sel \<le> size M)"
proof -
  let ?xs = "eligible_notes fee xs"
  have "notes_value ?xs \<le> max_money"
    using eligible_notes_value [of fee xs] assms(2) by linarith
  then obtain sel where "select_loop ops target ?xs [] 0 = Some (Inr sel)"
    and "selection_shape (unat target) ?xs sel"
    using select_loop_start [OF assms(1)] by blast
  then show ?thesis
    using selection_shape_subset selection_shape_minimal [OF _ eligible_notes_sorted]
    unfolding eligible_notes_mset [symmetric] by blast
qed

theorem note_selection_minimal_witness:
  "\<exists>sel. select_loop example_amount_ops 80000 (eligible_notes 5000 example_amounts) [] 0 =
           Some (Inr sel) \<and> 80000 \<le> notes_value sel \<and> length sel \<le> 2"
proof -
  have "{#(0, 70000), (2, 20000)#} \<subseteq># filter_mset (\<lambda>x. (5000 :: u64) < snd x) (mset example_amounts)"
    by (simp add: example_amounts_def)
  moreover have "unat (80000 :: u64) \<le> mvalue {#(0 :: nat, 70000), (2, 20000)#}"
    by (simp add: mvalue_def)
  ultimately show ?thesis
    using note_selection_minimal [OF example_amount_laws example_amounts_bound, of 80000 5000]
    by fastforce
qed

text \<open>When one note alone covers the target, exactly one note is selected: the smallest of those that
  cover it.\<close>

theorem note_selection_single:
  assumes "amount_laws max_money ops" "notes_value xs \<le> max_money"
    and "0 < target" "x \<in> set xs" "fee < snd x" "target \<le> snd x"
  shows "\<exists>y. select_loop ops target (eligible_notes fee xs) [] 0 = Some (Inr [y]) \<and>
     y \<in> set xs \<and> target \<le> snd y \<and>
     (\<forall>z \<in> set xs. fee < snd z \<and> target \<le> snd z \<longrightarrow> snd y \<le> snd z)"
proof -
  let ?xs = "eligible_notes fee xs"
  have set: "set ?xs = {z \<in> set xs. fee < snd z}"
    by (simp add: eligible_notes_eq)
  have "notes_value ?xs \<le> max_money"
    using eligible_notes_value [of fee xs] assms(2) by linarith
  then obtain sel where sel: "select_loop ops target ?xs [] 0 = Some (Inr sel)"
    and shape: "selection_shape (unat target) ?xs sel"
    using select_loop_start [OF assms(1)] by blast
  have "0 < unat target" using assms(3) by (simp add: word_less_nat_alt)
  then obtain y where y: "sel = [y]" "find (\<lambda>z. unat target \<le> unat (snd z)) ?xs = Some y"
    using selection_shape_single [OF shape eligible_notes_sorted, of x] assms(4-6) set
    by (auto simp: word_le_nat_alt)
  then obtain i where i: "i < length ?xs" "?xs ! i = y" "target \<le> snd y"
      "\<forall>j<i. snd (?xs ! j) < target"
    by (auto simp: find_Some_iff word_le_nat_alt word_less_nat_alt not_le)
  have "snd y \<le> snd z" if z: "z \<in> set ?xs" "target \<le> snd z" for z
  proof -
    obtain j where j: "j < length ?xs" "?xs ! j = z" using z(1) by (auto simp: in_set_conv_nth)
    then have "i \<le> j" using i(4) z(2) by (metis leD not_le)
    then show ?thesis
      using eligible_notes_sorted [of fee xs] i j by (auto simp: sorted_iff_nth_mono)
  qed
  moreover have "y \<in> set xs" using i set by (metis (no_types, lifting) mem_Collect_eq nth_mem)
  ultimately show ?thesis using sel y(1) i(3) set by auto
qed

theorem note_selection_single_witness:
  "\<exists>y. select_loop example_amount_ops 30000 (eligible_notes 5000 example_amounts) [] 0 =
         Some (Inr [y]) \<and> snd y \<le> 50000"
  using note_selection_single [OF example_amount_laws example_amounts_bound, of 30000 "(3, 50000)" 5000]
  by (force simp: example_amounts_def)

text \<open>On a well-formed wallet the selection never panics: the two \<open>expect\<close> calls of the loop and the
  lookup of the record of a selected note always succeed, and the loop ends.\<close>

theorem select_spendable_notes_never_panics:
  assumes "records_wf m" "amount_laws max_money ops"
  shows "select_spendable_notes ops fee m target sources anchor exclude \<noteq> None"
proof (cases "get_spendable_note_ids_and_values m sources anchor exclude")
  case (Inr ids)
  have "receive_notes m sel acc \<noteq> None"
    if "amounts_from ops ids = Inr us" "select_loop ops target (eligible_notes fee us) [] 0 = Some (Inr sel)"
    for us sel acc
  proof (rule receive_notes_total)
    have "set sel \<subseteq> set ids"
      using select_loop_mset [OF that(2)] amounts_from_values [OF that(1) assms(2)]
      by (auto simp: eligible_notes_eq)
    then show "\<forall>p \<in> set sel. \<exists>r. hm_get m (ni_txid (fst p)) = Some r"
      using spendable_ids_known [OF assms(1) Inr] by blast
  qed
  moreover have "\<exists>x. select_loop ops target (eligible_notes fee us) [] 0 = Some x"
    for us :: "(note_id \<times> u64) list"
    using select_loop_no_panic [OF assms(2)] by blast
  ultimately show ?thesis
    unfolding select_spendable_notes_def Inr
    by (cases "amounts_from ops ids"; simp split: option.splits sum.splits)
qed (simp add: select_spendable_notes_def)

theorem select_spendable_notes_never_panics_witness:
  "select_spendable_notes example_amount_ops 5000 example_records 10000 [Orchard] 25 [] \<noteq> None"
  by (rule select_spendable_notes_never_panics [OF example_wf example_amount_laws])



text \<open>The spendable identifiers are exactly those of the unspent notes with a known index, in the
  requested pools and not excluded, of records confirmed at or before the anchor height.\<close>

theorem spendable_ids_exact:
  assumes "get_spendable_note_ids_and_values m sources anchor exclude = Inr ids"
  shows "set ids = {p. \<exists>r \<in> set (hm_values m). is_confirmed_before_or_at (tr_status r) anchor \<and>
     ((Sapling \<in> set sources \<and>
       spendable_id (tr_txid r) Sapling sapling_value exclude (tr_sapling_notes r) p) \<or>
      (Orchard \<in> set sources \<and>
       spendable_id (tr_txid r) Orchard orchard_value exclude (tr_orchard_notes r) p))}"
proof -
  let ?rs = "hm_values m"
  let ?acc = "foldl (collect_spendable sources anchor exclude) ([], []) ?rs"
  have ids: "ids = fst ?acc" and none: "snd ?acc = []"
    using assms by (auto simp: get_spendable_note_ids_and_values_def Let_def split: if_splits)
  have ok: "\<exists>xs. record_spendable_note_ids_and_values r sources exclude = Inr xs"
    if "r \<in> set ?rs" "is_confirmed_before_or_at (tr_status r) anchor" for r
  proof -
    have "filter (\<lambda>r. is_confirmed_before_or_at (tr_status r) anchor \<and>
        record_spendable_note_ids_and_values r sources exclude = Inl ()) ?rs = []"
      using none unfolding collect_spendable_missing by (simp del: confirmed_before_or_at_iff)
    then have "record_spendable_note_ids_and_values r sources exclude \<noteq> Inl ()"
      using that unfolding filter_empty_conv by blast
    then show ?thesis
      by (cases "record_spendable_note_ids_and_values r sources exclude") auto
  qed
  show ?thesis
    unfolding ids collect_spendable_spec
    using ok record_spendable_spec by (fastforce simp del: confirmed_before_or_at_iff)
qed

theorem spendable_ids_exact_witness:
  "\<exists>r \<in> set (hm_values example_records). is_confirmed_before_or_at (tr_status r) 25 \<and>
     spendable_id (tr_txid r) Orchard orchard_value [] (tr_orchard_notes r)
       (\<lparr> ni_txid = [2], ni_protocol = Orchard, ni_output_index = 1 \<rparr>, 30000)"
  using spendable_ids_exact [OF example_spendable] by auto

end
