(* ===== verification/Record_Fees.thy ===== *)
theory Record_Fees
  imports Records_By_Id
begin

text \<open>
  Fees and kinds of transactions (\<open>calculate_transaction_fee\<close>, \<open>transaction_kind\<close> and the
  functions they call in \<open>wallet/transaction_records_by_id.rs\<close>), related to sums over the
  natural numbers: when no sum leaves the range of \<open>u64\<close> the fee is inputs minus outputs.
\<close>

section \<open>Sums without a bound\<close>

definition input_total :: "records \<Rightarrow> transaction_record \<Rightarrow> nat" where
  "input_total m r =
     sum_list (map (unat \<circ> to_value) (get_transparent_coins_spent_in_tx m r)) +
     sum_list (map (unat \<circ> sapling_value)
       (List.map_filter (find_sapling_spend m) (tr_spent_sapling_nullifiers r))) +
     sum_list (map (unat \<circ> orchard_value)
       (List.map_filter (find_orchard_spend m) (tr_spent_orchard_nullifiers r)))"

definition output_total :: "transaction_record \<Rightarrow> nat" where
  "output_total r =
     sum_list (map (unat \<circ> output_value) (get_record_outputs r)) +
     sum_list (map (unat \<circ> ot_value) (tr_outgoing_tx_data r))"

definition spends_known :: "records \<Rightarrow> transaction_record \<Rightarrow> bool" where
  "spends_known m r \<longleftrightarrow>
     list_all (\<lambda>nf. find_sapling_spend m nf \<noteq> None) (tr_spent_sapling_nullifiers r) \<and>
     list_all (\<lambda>nf. find_orchard_spend m nf \<noteq> None) (tr_spent_orchard_nullifiers r)"

definition has_spends :: "records \<Rightarrow> transaction_record \<Rightarrow> bool" where
  "has_spends m r \<longleftrightarrow>
     tr_spent_sapling_nullifiers r \<noteq> [] \<or> tr_spent_orchard_nullifiers r \<noteq> [] \<or>
     get_transparent_coins_spent_in_tx m r \<noteq> []"

section \<open>Collecting spends\<close>

lemma collect_spends_lenient:
  "collect_spends f e False nfs acc = Inr (acc @ List.map_filter f nfs)"
  by (induction nfs arbitrary: acc) (auto simp: List.map_filter_simps split: option.splits)

lemma collect_spends_strict:
  "collect_spends f e True nfs acc =
     (case find (\<lambda>nf. f nf = None) nfs of
        Some nf \<Rightarrow> Inl (e nf) | None \<Rightarrow> Inr (acc @ List.map_filter f nfs))"
  by (induction nfs arbitrary: acc) (auto simp: List.map_filter_simps split: option.splits)

lemma has_nullifier_iff: "has_nullifier nf n \<longleftrightarrow> sn_nullifier n = Some nf"
  by (auto simp: has_nullifier_def split: option.splits)

lemma total_value_received_outputs:
  "total_value_received r = sum_list (map output_value (get_record_outputs r))"
proof -
  have "q_spend_status any_output = any_status" by (simp add: any_output_def)
  then show ?thesis
    by (simp add: total_value_received_def query_sum_value_eq get_record_outputs_def comp_def
        any_output_def any_pool_def)
qed

lemma output_total_unat:
  "output_total r < 2 ^ 64 \<Longrightarrow>
   unat (total_value_output_to_explicit_receivers r) = output_total r"
  unfolding total_value_output_to_explicit_receivers_def total_value_received_outputs
    value_outgoing_eq output_total_def
  by (simp add: unat_word_ariths unat_sums mod_simps)

lemma total_input_known:
  assumes "spends_known m r" "has_spends m r"
  shows "\<exists>v. total_value_input_to_transaction m r = Inr v \<and> unat v = input_total m r mod 2 ^ 64"
proof -
  have s: "find (\<lambda>nf. find_sapling_spend m nf = None) (tr_spent_sapling_nullifiers r) = None"
   "find (\<lambda>nf. find_orchard_spend m nf = None) (tr_spent_orchard_nullifiers r) = None"
    using assms(1) by (simp_all add: spends_known_def find_None_list_all)
  have "\<not> (List.map_filter (find_sapling_spend m) (tr_spent_sapling_nullifiers r) = [] \<and>
     List.map_filter (find_orchard_spend m) (tr_spent_orchard_nullifiers r) = [] \<and>
     get_transparent_coins_spent_in_tx m r = [])"
    using assms by (auto simp: spends_known_def has_spends_def map_filter_all)
  then show ?thesis
    by (auto simp: total_value_input_to_transaction_def get_sapling_notes_spent_in_tx_def
        get_orchard_notes_spent_in_tx_def collect_spends_strict s input_total_def unat_word_ariths
        unat_sums mod_simps Let_def)
qed

lemma find_spend_None:
  "find_sapling_spend m nf = None \<longleftrightarrow>
     (\<forall>r \<in> set (hm_values m). \<forall>n \<in> set (tr_sapling_notes r). sn_nullifier n \<noteq> Some nf)"
  "find_orchard_spend m nf = None \<longleftrightarrow>
     (\<forall>r \<in> set (hm_values m). \<forall>n \<in> set (tr_orchard_notes r). sn_nullifier n \<noteq> Some nf)"
  by (auto simp: find_sapling_spend_def find_orchard_spend_def find_None_iff has_nullifier_iff)

lemma total_input_error:
  "total_value_input_to_transaction m r =
     (case find (\<lambda>nf. find_sapling_spend m nf = None) (tr_spent_sapling_nullifiers r) of
        Some nf \<Rightarrow> Inl (SaplingSpendNotFound nf)
      | None \<Rightarrow>
          (case find (\<lambda>nf. find_orchard_spend m nf = None) (tr_spent_orchard_nullifiers r) of
             Some nf \<Rightarrow> Inl (OrchardSpendNotFound nf)
           | None \<Rightarrow>
               if \<not> has_spends m r
               then Inl (if tr_outgoing_tx_data r = [] then ReceivedTransaction
                         else OutgoingWithoutSpends (tr_outgoing_tx_data r))
               else total_value_input_to_transaction m r))"
  by (auto simp: total_value_input_to_transaction_def get_sapling_notes_spent_in_tx_def
      get_orchard_notes_spent_in_tx_def collect_spends_strict Let_def has_spends_def
      List.map_filter_simps split: option.splits)

lemma fee_no_spends:
  assumes "spends_known m r" "\<not> has_spends m r"
  shows "calculate_transaction_fee m r =
        Inl (if tr_outgoing_tx_data r = [] then ReceivedTransaction
             else OutgoingWithoutSpends (tr_outgoing_tx_data r))"
proof -
  have "find (\<lambda>nf. find_sapling_spend m nf = None) (tr_spent_sapling_nullifiers r) = None"
    "find (\<lambda>nf. find_orchard_spend m nf = None) (tr_spent_orchard_nullifiers r) = None"
    using assms(1) unfolding spends_known_def find_None_list_all by auto
  then show ?thesis
    using total_input_error [of m r] assms(2) by (simp add: calculate_transaction_fee_def)
qed

lemma transaction_kind_Received:
  "transaction_kind m r chain = Some Received \<longleftrightarrow>
     get_transparent_coins_spent_in_tx m r = [] \<and>
     List.map_filter (find_sapling_spend m) (tr_spent_sapling_nullifiers r) = [] \<and>
     List.map_filter (find_orchard_spend m) (tr_spent_orchard_nullifiers r) = [] \<and>
     tr_outgoing_tx_data r = []"
  by (auto simp: transaction_kind_def get_sapling_notes_spent_in_tx_def
      get_orchard_notes_spent_in_tx_def collect_spends_lenient Let_def)

lemma example_fee_facts:
  "spends_known example_records example_sent" "has_spends example_records example_sent"
  "input_total example_records example_sent = 100000" "output_total example_sent = 90000"
  by (simp_all add: example_simps spends_known_def has_spends_def input_total_def output_total_def
      find_sapling_spend_def find_orchard_spend_def get_transparent_coins_spent_in_tx_def
      get_all_transparent_outputs_def has_nullifier_def List.map_filter_simps)

section \<open>Properties\<close>

text \<open>C5. When every nullifier the transaction spends is known to the wallet and it has some spend, the
  fee is the exact difference of the value of its inputs and the value of its outputs, or the
  underflow error carrying both, provided neither sum exceeds the range of \<open>u64\<close>.\<close>

theorem fee_is_inputs_minus_outputs:
  assumes "spends_known m r" "has_spends m r"
    and "input_total m r < 2 ^ 64" "output_total r < 2 ^ 64"
  shows "calculate_transaction_fee m r =
           (if output_total r \<le> input_total m r
            then Inr (word_of_nat (input_total m r - output_total r))
            else Inl (FeeUnderflow (word_of_nat (input_total m r)) (word_of_nat (output_total r))))"
proof -
  obtain v where v: "total_value_input_to_transaction m r = Inr v" "unat v = input_total m r"
    using total_input_known [OF assms(1,2)] assms(3) by auto
  let ?out = "total_value_output_to_explicit_receivers r"
  have o: "unat ?out = output_total r"
    using assms(4) by (rule output_total_unat)
  have c: "v = word_of_nat (input_total m r)" "?out = word_of_nat (output_total r)"
    by (simp_all flip: v(2) o)
  show ?thesis
  proof (cases "output_total r \<le> input_total m r")
    case True
    then have "v - ?out = word_of_nat (input_total m r - output_total r)"
      by (simp add: c of_nat_diff)
    then show ?thesis using True v o
      by (simp add: calculate_transaction_fee_def Let_def word_le_nat_alt)
  next
    case False
    then show ?thesis using v o
      by (simp add: calculate_transaction_fee_def Let_def word_le_nat_alt flip: c)
  qed
qed

theorem fee_is_inputs_minus_outputs_witness:
  "calculate_transaction_fee example_records example_sent = Inr 10000"
  using fee_is_inputs_minus_outputs [OF example_fee_facts(1,2)] example_fee_facts(3,4) by simp



text \<open>The two \<open>expect\<close> calls of \<open>transaction_kind\<close> never panic.\<close>

theorem transaction_kind_total: "\<exists>kind. transaction_kind m r chain = Some kind"
  by (simp add: transaction_kind_def get_sapling_notes_spent_in_tx_def
      get_orchard_notes_spent_in_tx_def collect_spends_lenient Let_def)

text \<open>For a transaction whose spends are all known, being of kind \<open>Received\<close> and failing the fee
  calculation with \<open>ReceivedTransaction\<close> coincide.\<close>

theorem received_kind_iff_fee_error:
  assumes "spends_known m r"
  shows "transaction_kind m r chain = Some Received \<longleftrightarrow>
         calculate_transaction_fee m r = Inl ReceivedTransaction"
proof (cases "has_spends m r")
  case True
  then obtain v where "total_value_input_to_transaction m r = Inr v"
    using total_input_known assms by blast
  then have "calculate_transaction_fee m r \<noteq> Inl ReceivedTransaction"
    by (simp add: calculate_transaction_fee_def Let_def)
  moreover have "transaction_kind m r chain \<noteq> Some Received"
    using True assms by (auto simp: transaction_kind_Received has_spends_def spends_known_def map_filter_all)
  ultimately show ?thesis by simp
next
  case False
  then have "calculate_transaction_fee m r =
        Inl (if tr_outgoing_tx_data r = [] then ReceivedTransaction
             else OutgoingWithoutSpends (tr_outgoing_tx_data r))"
    using fee_no_spends assms by simp
  then show ?thesis
    using False by (auto simp: transaction_kind_Received has_spends_def List.map_filter_simps)
qed

theorem received_kind_iff_fee_error_witness:
  "transaction_kind example_records example_received Mainnet = Some Received \<longleftrightarrow>
   calculate_transaction_fee example_records example_received = Inl ReceivedTransaction"
  by (rule received_kind_iff_fee_error) code_simp

end
