(* ===== verification/Tx_Map.thy ===== *)
theory Tx_Map
  imports Note_Selection Record_Fees
begin

text \<open>
  The transaction map of the wallet, \<open>wallet/tx_map.rs\<close>: the records together with the spending
  data (witness trees and cached raw transactions), the recording of spends and positions
  (\<open>tx_map/recording.rs\<close>), its queries (\<open>tx_map/get.rs\<close>) and the heights it reports to the
  transaction builder (\<open>tx_map/trait_walletread.rs\<close>, \<open>tx_map/trait_walletwrite.rs\<close>).

  The shard trees, block height arithmetic and nullifier derivation belong to other crates; their
  operations are the record \<open>'t tree_ops\<close> and further arguments. A result \<open>None\<close> is a panic; a
  fallible method returns the state it leaves together with its result.
\<close>

section \<open>State\<close>

record 't tree_ops =
  st_empty :: 't
  st_truncate :: "block_height \<Rightarrow> 't \<Rightarrow> 't"
  st_checkpoint :: "block_height \<Rightarrow> 't \<Rightarrow> 't option"
  st_remove_mark :: "u64 \<Rightarrow> block_height \<Rightarrow> 't \<Rightarrow> 't option"
  st_max_checkpoint :: "'t \<Rightarrow> block_height option"
  bh_sub :: "block_height \<Rightarrow> u32 \<Rightarrow> block_height option"
  bh_add :: "block_height \<Rightarrow> u32 \<Rightarrow> block_height"

record 't witness_trees =
  wt_sapling :: 't
  wt_orchard :: 't

record 't spending_data =
  sd_witness_trees :: "'t witness_trees"
  sd_cached_raw_transactions :: "(txid \<times> byte list) list"
  sd_rejection_ivk :: "byte list"

record 't tx_map =
  tm_records :: records
  tm_spending_data :: "'t spending_data option"
  tm_transparent_child_addresses :: "(u64 \<times> string) list"
  tm_rejection_addresses :: "(string \<times> u32) list"

definition default_trees :: "'t tree_ops \<Rightarrow> 't witness_trees" where
  "default_trees ops = \<lparr> wt_sapling = st_empty ops, wt_orchard = st_empty ops \<rparr>"

definition new_spending_data :: "'t witness_trees \<Rightarrow> byte list \<Rightarrow> 't spending_data" where
  "new_spending_data trees rejection_ivk =
     \<lparr> sd_witness_trees = trees, sd_cached_raw_transactions = [],
       sd_rejection_ivk = rejection_ivk \<rparr>"

definition new_with_witness_trees ::
  "'t tree_ops \<Rightarrow> (u64 \<times> string) list \<Rightarrow> (string \<times> u32) list \<Rightarrow> byte list \<Rightarrow> 't tx_map" where
  "new_with_witness_trees ops child_addresses rejection_addresses rejection_ivk =
     \<lparr> tm_records = new_records,
       tm_spending_data = Some (new_spending_data (default_trees ops) rejection_ivk),
       tm_transparent_child_addresses = child_addresses,
       tm_rejection_addresses = rejection_addresses \<rparr>"

definition new_treeless :: "(u64 \<times> string) list \<Rightarrow> 't tx_map" where
  "new_treeless child_addresses =
     \<lparr> tm_records = new_records, tm_spending_data = None,
       tm_transparent_child_addresses = child_addresses, tm_rejection_addresses = [] \<rparr>"

definition witness_trees_of :: "'t tx_map \<Rightarrow> 't witness_trees option" where
  "witness_trees_of tm = map_option sd_witness_trees (tm_spending_data tm)"

definition update_witness_trees ::
  "('t witness_trees \<Rightarrow> 't witness_trees option) \<Rightarrow> 't tx_map \<Rightarrow> 't tx_map option" where
  "update_witness_trees f tm =
     (case tm_spending_data tm of
        None \<Rightarrow> Some tm
      | Some sd \<Rightarrow>
          map_option (\<lambda>trees. tm\<lparr> tm_spending_data := Some (sd\<lparr> sd_witness_trees := trees \<rparr>) \<rparr>)
            (f (sd_witness_trees sd)))"

definition clear_tx_map :: "'t tree_ops \<Rightarrow> 't tx_map \<Rightarrow> 't tx_map option" where
  "clear_tx_map ops tm =
     update_witness_trees (\<lambda>_. Some (default_trees ops)) (tm\<lparr> tm_records := [] \<rparr>)"

definition add_checkpoint ::
  "'t tree_ops \<Rightarrow> block_height \<Rightarrow> 't witness_trees \<Rightarrow> 't witness_trees option" where
  "add_checkpoint ops height trees =
     (case st_checkpoint ops height (wt_sapling trees) of
        None \<Rightarrow> None
      | Some sap \<Rightarrow>
          map_option (\<lambda>orch. trees\<lparr> wt_sapling := sap, wt_orchard := orch \<rparr>)
            (st_checkpoint ops height (wt_orchard trees)))"

section \<open>Errors\<close>

text \<open>An \<open>io::Error\<close> is its message.\<close>

datatype zingo_lib_error =
    UnknownError
  | LibError string
  | NoWalletLocation
  | MetadataUnderflow string
  | InternalWriteBufferError string
  | WriteFileError string
  | EmptySaveBuffer
  | CantReadWallet string
  | NoSuchTxId txid
  | NoSuchSaplingOutputInTx txid u32
  | NoSuchOrchardOutputInTx txid u32
  | NoSuchNullifierInTx txid
  | MissingOutputIndex txid
  | CouldNotDecodeMemo string

datatype tx_map_trait_error =
    NoSpendCapability
  | InputSource input_source_error
  | TransactionWrite

type_synonym ('s, 'a) outcome = "('s \<times> (zingo_lib_error + 'a)) option"

section \<open>Recording\<close>

text \<open>Reorganisation: the height arrives as \<open>u64\<close> and is cut to 32 bits.\<close>

definition tm_invalidate_all_transactions_after_or_at_height ::
  "'t tree_ops \<Rightarrow> u64 \<Rightarrow> 't tx_map \<Rightarrow> 't tx_map option" where
  "tm_invalidate_all_transactions_after_or_at_height ops reorg_height tm =
     (let reorg_height = (ucast reorg_height :: block_height);
          tm = tm\<lparr> tm_records :=
                 invalidate_all_transactions_after_or_at_height reorg_height (tm_records tm) \<rparr>
      in update_witness_trees
           (\<lambda>trees. case bh_sub ops reorg_height 1 of
              None \<Rightarrow> None
            | Some h \<Rightarrow>
                add_checkpoint ops h
                  (trees\<lparr> wt_sapling := st_truncate ops h (wt_sapling trees),
                          wt_orchard := st_truncate ops h (wt_orchard trees) \<rparr>)) tm)"

text \<open>The \<open>find_map\<close> of the two methods below: the first note whose index is present when the
  searched one is absent (or the other way round) is an error.\<close>

fun find_by_output_index ::
  "u32 option \<Rightarrow> 'n shielded_note list \<Rightarrow> (unit + 'n shielded_note) option" where
  "find_by_output_index output_index [] = None"
| "find_by_output_index output_index (n # ns) =
     (if (sn_output_index n \<noteq> None) \<noteq> (output_index \<noteq> None) then Some (Inl ())
      else if sn_output_index n = output_index then Some (Inr n)
      else find_by_output_index output_index ns)"

definition remove_sapling_mark ::
  "'t tree_ops \<Rightarrow> u64 \<Rightarrow> block_height \<Rightarrow> 't witness_trees \<Rightarrow> 't witness_trees option" where
  "remove_sapling_mark ops position h trees =
     map_option (\<lambda>s. trees\<lparr> wt_sapling := s \<rparr>) (st_remove_mark ops position h (wt_sapling trees))"

definition remove_orchard_mark ::
  "'t tree_ops \<Rightarrow> u64 \<Rightarrow> block_height \<Rightarrow> 't witness_trees \<Rightarrow> 't witness_trees option" where
  "remove_orchard_mark ops position h trees =
     map_option (\<lambda>s. trees\<lparr> wt_orchard := s \<rparr>) (st_remove_mark ops position h (wt_orchard trees))"

type_synonym 't remove_mark = "u64 \<Rightarrow> block_height \<Rightarrow> 't witness_trees \<Rightarrow> 't witness_trees option"

definition remove_witness_mark ::
  "'t tree_ops \<Rightarrow> 'n pool_get \<Rightarrow> 't remove_mark \<Rightarrow> block_height \<Rightarrow> txid \<Rightarrow> txid \<Rightarrow> u32 option \<Rightarrow>
   't tx_map \<Rightarrow> ('t tx_map, unit) outcome" where
  "remove_witness_mark ops notes remove_mark height txid source_txid output_index tm =
     (case hm_get (tm_records tm) source_txid of
        None \<Rightarrow> None
      | Some transaction_record \<Rightarrow>
          (case find_by_output_index output_index (notes transaction_record) of
             None \<Rightarrow> Some (tm, Inr ())
           | Some (Inl _) \<Rightarrow> Some (tm, Inl (MissingOutputIndex txid))
           | Some (Inr note_datum) \<Rightarrow>
               (case sn_witnessed_position note_datum of
                  None \<Rightarrow> None
                | Some position \<Rightarrow>
                    map_option (\<lambda>tm. (tm, Inr ()))
                      (update_witness_trees
                         (\<lambda>trees. case bh_sub ops height 1 of
                            None \<Rightarrow> None
                          | Some h \<Rightarrow> remove_mark position h trees) tm))))"

definition mark_note_as_spent ::
  "'t tree_ops \<Rightarrow> 'n pool_get \<Rightarrow> 'n pool_upd \<Rightarrow> ('n shielded_note \<Rightarrow> u64) \<Rightarrow> 't remove_mark \<Rightarrow>
   nullifier \<Rightarrow> txid \<Rightarrow> confirmation_status \<Rightarrow> txid \<Rightarrow> u32 option \<Rightarrow> 't tx_map \<Rightarrow>
   ('t tx_map, u64) outcome" where
  "mark_note_as_spent ops notes notes_upd nvalue remove_mark spent_nullifier spending_tx_id status
       source_txid output_index tm =
     (let after_marks =
        (case get_confirmed_height status of
           Some height \<Rightarrow>
             remove_witness_mark ops notes remove_mark height spending_tx_id source_txid
               output_index tm
         | None \<Rightarrow> Some (tm, Inr ()))
      in case after_marks of
           None \<Rightarrow> None
         | Some (tm, Inl e) \<Rightarrow> Some (tm, Inl e)
         | Some (tm, Inr _) \<Rightarrow>
             (case hm_get (tm_records tm) source_txid of
                None \<Rightarrow> Some (tm, Inl (NoSuchTxId spending_tx_id))
              | Some transaction_spent_from \<Rightarrow>
                  (case find (\<lambda>n. sn_nullifier n = Some spent_nullifier)
                          (notes transaction_spent_from) of
                     None \<Rightarrow> Some (tm, Inl (NoSuchNullifierInTx spending_tx_id))
                   | Some spent_note \<Rightarrow>
                       Some (tm\<lparr> tm_records := hm_modify source_txid
                               (notes_upd (update_first
                                  (\<lambda>n. sn_nullifier n = Some spent_nullifier)
                                  (\<lambda>n. n\<lparr> sn_spend := Some (spending_tx_id, status) \<rparr>)))
                               (tm_records tm) \<rparr>,
                             Inr (nvalue spent_note)))))"

definition found_spent_nullifier_internal ::
  "'t tree_ops \<Rightarrow> 'n pool_get \<Rightarrow> 'n pool_upd \<Rightarrow> ('n shielded_note \<Rightarrow> u64) \<Rightarrow> 't remove_mark \<Rightarrow>
   (transaction_record \<Rightarrow> nullifier list) \<Rightarrow> (nullifier \<Rightarrow> pool_nullifier) \<Rightarrow>
   txid \<Rightarrow> confirmation_status \<Rightarrow> u32 option \<Rightarrow> nullifier \<Rightarrow> txid \<Rightarrow> u32 option \<Rightarrow> 't tx_map \<Rightarrow>
   ('t tx_map, unit) outcome" where
  "found_spent_nullifier_internal ops notes notes_upd nvalue remove_mark spent_nullifiers into_pool
       spending_tx_id status timestamp spent_nullifier source_txid output_index tm =
     (case mark_note_as_spent ops notes notes_upd nvalue remove_mark spent_nullifier spending_tx_id
             status source_txid output_index tm of
        None \<Rightarrow> None
      | Some (tm, Inl e) \<Rightarrow> Some (tm, Inl e)
      | Some (tm, Inr v) \<Rightarrow>
          map_option (\<lambda>rs. (tm\<lparr> tm_records := rs \<rparr>, Inr ()))
            (create_modify_get_transaction_record spending_tx_id status timestamp
               (\<lambda>r. if \<not> list_ex (\<lambda>nf. nf = spent_nullifier) (spent_nullifiers r)
                    then add_spent_nullifier (into_pool spent_nullifier) v r else r)
               (tm_records tm)))"

fun found_spent_nullifier ::
  "'t tree_ops \<Rightarrow> txid \<Rightarrow> confirmation_status \<Rightarrow> u32 option \<Rightarrow> pool_nullifier \<Rightarrow> txid \<Rightarrow>
   u32 option \<Rightarrow> 't tx_map \<Rightarrow> ('t tx_map, unit) outcome" where
  "found_spent_nullifier ops spending_tx_id status timestamp (OrchardNullifier nf) source_txid
       output_index tm =
     found_spent_nullifier_internal ops tr_orchard_notes tr_orchard_notes_update orchard_value
       (remove_orchard_mark ops) tr_spent_orchard_nullifiers OrchardNullifier
       spending_tx_id status timestamp nf source_txid output_index tm"
| "found_spent_nullifier ops spending_tx_id status timestamp (SaplingNullifier nf) source_txid
       output_index tm =
     found_spent_nullifier_internal ops tr_sapling_notes tr_sapling_notes_update sapling_value
       (remove_sapling_mark ops) tr_spent_sapling_nullifiers SaplingNullifier
       spending_tx_id status timestamp nf source_txid output_index tm"

text \<open>\<open>derive\<close> is \<open>get_nullifier_from_note_fvk_and_witness_position\<close> with the viewing key applied.
  The note that is changed is the one \<open>find_by_output_index\<close> returns, the first with that index.\<close>

definition mark_note_position ::
  "'n pool_get \<Rightarrow> 'n pool_upd \<Rightarrow> ('n \<Rightarrow> u64 \<Rightarrow> nullifier) \<Rightarrow> txid \<Rightarrow> u32 option \<Rightarrow> u64 \<Rightarrow>
   't tx_map \<Rightarrow> 't tx_map \<times> (zingo_lib_error + unit)" where
  "mark_note_position notes notes_upd derive txid output_index position tm =
     (case hm_get (tm_records tm) txid of
        None \<Rightarrow> (tm, Inr ())
      | Some tmd \<Rightarrow>
          (case find_by_output_index output_index (notes tmd) of
             None \<Rightarrow> (tm, Inr ())
           | Some (Inl _) \<Rightarrow> (tm, Inl (MissingOutputIndex txid))
           | Some (Inr _) \<Rightarrow>
               (tm\<lparr> tm_records := hm_modify txid
                   (notes_upd (update_first (\<lambda>n. sn_output_index n = output_index)
                      (\<lambda>n. n\<lparr> sn_witnessed_position := Some position,
                              sn_nullifier := Some (derive (sn_note n) position) \<rparr>)))
                   (tm_records tm) \<rparr>, Inr ())))"

section \<open>Queries\<close>

text \<open>A note with a spending key and no nullifier is the \<open>todo!\<close> panic.\<close>

fun notes_for_updating ::
  "(nullifier \<Rightarrow> pool_nullifier) \<Rightarrow> txid \<Rightarrow> 'n shielded_note list \<Rightarrow>
   (txid \<times> pool_nullifier \<times> u32 option) list option" where
  "notes_for_updating into_pool txid [] = Some []"
| "notes_for_updating into_pool txid (n # ns) =
     (if sn_have_spending_key n \<and> \<not> is_spent_confirmed (sn_spend n)
      then (case sn_nullifier n of
              None \<Rightarrow> None
            | Some nf \<Rightarrow>
                map_option (\<lambda>xs. (txid, into_pool nf, sn_output_index n) # xs)
                  (notes_for_updating into_pool txid ns))
      else notes_for_updating into_pool txid ns)"

definition get_notes_for_updating ::
  "u64 \<Rightarrow> 't tx_map \<Rightarrow> (txid \<times> pool_nullifier \<times> u32 option) list option" where
  "get_notes_for_updating before_block tm =
     (let before_block = (ucast before_block :: block_height) in
      concat_options
        (map (\<lambda>(txid, r).
                case notes_for_updating SaplingNullifier txid (tr_sapling_notes r) of
                  None \<Rightarrow> None
                | Some xs \<Rightarrow>
                    map_option (\<lambda>ys. xs @ ys)
                      (notes_for_updating OrchardNullifier txid (tr_orchard_notes r)))
           (filter (\<lambda>(_, r). is_confirmed_before_or_at (tr_status r) before_block) (tm_records tm))))"

definition get_nullifier_value_txid_outputindex_of_unspent_notes ::
  "'n pool_get \<Rightarrow> ('n shielded_note \<Rightarrow> u64) \<Rightarrow> 't tx_map \<Rightarrow>
   (nullifier \<times> u64 \<times> txid \<times> u32 option) list" where
  "get_nullifier_value_txid_outputindex_of_unspent_notes notes nvalue tm =
     concat (map (\<lambda>(_, r).
       List.map_filter
         (\<lambda>n. map_option (\<lambda>nf. (nf, nvalue n, tr_txid r, sn_output_index n)) (sn_nullifier n))
         (filter (\<lambda>n. spend_status_query (sn_spend n) only_unspent) (notes r))) (tm_records tm))"

definition get_some_txid_from_highest_wallet_block :: "'t tx_map \<Rightarrow> txid option" where
  "get_some_txid_from_highest_wallet_block tm =
     map_option fst
       (foldl (\<lambda>highest w.
          case get_confirmed_height (tr_status w) of
            None \<Rightarrow> highest
          | Some w_height \<Rightarrow>
              (case highest of
                 None \<Rightarrow> Some (tr_txid w, w_height)
               | Some (t, h) \<Rightarrow> if h > w_height then highest else Some (tr_txid w, w_height)))
        None (hm_values (tm_records tm)))"

definition get_fee_by_txid :: "txid \<Rightarrow> 't tx_map \<Rightarrow> u64 option" where
  "get_fee_by_txid txid tm =
     (case hm_get (tm_records tm) txid of
        None \<Rightarrow> None
      | Some transaction_record \<Rightarrow>
          (case calculate_transaction_fee (tm_records tm) transaction_record of
             Inr tx_fee \<Rightarrow> Some tx_fee | Inl _ \<Rightarrow> None))"

section \<open>Heights for the transaction builder\<close>

definition has_unspent_shielded_outputs :: "transaction_record \<Rightarrow> bool" where
  "has_unspent_shielded_outputs r =
     list_ex (\<lambda>out. case output_pool_type out of Shielded _ \<Rightarrow> True | Transparent \<Rightarrow> False)
       (get_all_outputs_with_status r only_unspent)"

definition get_target_and_anchor_heights ::
  "'t tree_ops \<Rightarrow> u32 \<Rightarrow> 't tx_map \<Rightarrow> tx_map_trait_error + (block_height \<times> block_height) option" where
  "get_target_and_anchor_heights ops min_confirmations tm =
     (case witness_trees_of tm of
        Some trees \<Rightarrow>
          Inr (map_option
            (\<lambda>max_downloaded_height.
               let anticipated_next_block_height = bh_add ops max_downloaded_height 1 in
               (anticipated_next_block_height,
                max 1 (saturating_sub anticipated_next_block_height min_confirmations)))
            (st_max_checkpoint ops (wt_orchard trees)))
      | None \<Rightarrow> Inl NoSpendCapability)"

definition get_min_unspent_height :: "'t tx_map \<Rightarrow> block_height option" where
  "get_min_unspent_height tm =
     foldl (\<lambda>height_rolling_min transaction.
       case get_confirmed_height (tr_status transaction) of
         None \<Rightarrow> height_rolling_min
       | Some transaction_height \<Rightarrow>
           if has_unspent_shielded_outputs transaction
           then Some (case height_rolling_min of
                        None \<Rightarrow> transaction_height
                      | Some min_height \<Rightarrow> min min_height transaction_height)
           else height_rolling_min) None (hm_values (tm_records tm))"

definition get_tx_height :: "txid \<Rightarrow> 't tx_map \<Rightarrow> block_height option" where
  "get_tx_height txid tm =
     (case hm_get (tm_records tm) txid of
        None \<Rightarrow> None | Some transaction \<Rightarrow> get_confirmed_height (tr_status transaction))"

definition chain_height :: "'t tree_ops \<Rightarrow> 't tx_map \<Rightarrow> tx_map_trait_error + block_height option" where
  "chain_height ops tm =
     (case witness_trees_of tm of
        None \<Rightarrow> Inl NoSpendCapability
      | Some trees \<Rightarrow> Inr (st_max_checkpoint ops (wt_orchard trees)))"

text \<open>\<open>NonHardenedChildIndex::from_index\<close> accepts the indexes below \<open>2 ^ 31\<close>; it belongs to
  another crate and is the argument \<open>child_index\<close>.\<close>

definition get_transparent_receivers ::
  "(u32 \<Rightarrow> 'i option) \<Rightarrow> 't tx_map \<Rightarrow> (string, 'i option) hash_map" where
  "get_transparent_receivers child_index tm =
     fold (\<lambda>(index, taddr). hm_insert taddr (child_index (ucast index)))
       (tm_transparent_child_addresses tm) []"

section \<open>Storing created transactions\<close>

text \<open>\<open>write\<close> serialises a transaction and may fail; \<open>txid_of\<close> is its id.\<close>

fun store_transactions_to_be_sent ::
  "('x \<Rightarrow> byte list option) \<Rightarrow> ('x \<Rightarrow> txid) \<Rightarrow> 'x list \<Rightarrow> 't tx_map \<Rightarrow>
   't tx_map \<times> (tx_map_trait_error + unit)" where
  "store_transactions_to_be_sent write txid_of [] tm = (tm, Inr ())"
| "store_transactions_to_be_sent write txid_of (tx # txs) tm =
     (case write tx of
        None \<Rightarrow> (tm, Inl TransactionWrite)
      | Some raw_tx \<Rightarrow>
          (case tm_spending_data tm of
             None \<Rightarrow> (tm, Inl NoSpendCapability)
           | Some sd \<Rightarrow>
               store_transactions_to_be_sent write txid_of txs
                 (tm\<lparr> tm_spending_data := Some (sd\<lparr> sd_cached_raw_transactions :=
                     sd_cached_raw_transactions sd @ [(txid_of tx, raw_tx)] \<rparr>) \<rparr>)))"

end
