(* ===== verification/Tx_Map_Laws.thy ===== *)
theory Tx_Map_Laws
  imports Tx_Map
begin

text \<open>
  Laws of the transaction map: recording a spend marks the note and lists the nullifier once, the
  spend is known to the fee calculation afterwards, and the heights reported to the transaction
  builder are the ones the records and the checkpoints determine.
\<close>

section \<open>Marking notes\<close>

lemma update_witness_trees_records [simp]:
  "update_witness_trees f tm = Some tm' \<Longrightarrow> tm_records tm' = tm_records tm"
  by (auto simp: update_witness_trees_def split: option.splits)

lemma remove_witness_mark_records:
  "remove_witness_mark ops gn rm h t s oi tm = Some (tm', res) \<Longrightarrow> tm_records tm' = tm_records tm"
  by (auto simp: remove_witness_mark_def split: option.splits sum.splits)

lemma mark_note_as_spent_ok:
  assumes "mark_note_as_spent ops gn upd nvalue rm nf t st src oi tm = Some (tm', Inr v)"
  shows "\<exists>r n. hm_get (tm_records tm) src = Some r \<and>
     find (\<lambda>n. sn_nullifier n = Some nf) (gn r) = Some n \<and> v = nvalue n \<and>
     tm_records tm' = hm_modify src (upd (update_first (\<lambda>n. sn_nullifier n = Some nf)
        (\<lambda>n. n\<lparr> sn_spend := Some (t, st) \<rparr>))) (tm_records tm)"
  using assms remove_witness_mark_records [of ops gn rm _ t src oi tm]
  by (auto simp: mark_note_as_spent_def Let_def split: option.splits sum.splits)

context note_pool
begin

lemma mark_note_as_spent_marks:
  assumes "mark_note_as_spent ops pget pupd nvalue rm nf t st src oi tm = Some (tm', Inr v)"
  shows "\<exists>r r' n. hm_get (tm_records tm) src = Some r \<and> hm_get (tm_records tm') src = Some r' \<and>
     find (\<lambda>n. sn_nullifier n = Some nf) (pget r) = Some n \<and> v = nvalue n \<and>
     find (\<lambda>n. sn_nullifier n = Some nf) (pget r') = Some (n\<lparr> sn_spend := Some (t, st) \<rparr>)"
proof -
  obtain r n where a: "hm_get (tm_records tm) src = Some r"
     "find (\<lambda>n. sn_nullifier n = Some nf) (pget r) = Some n" "v = nvalue n"
     "tm_records tm' = hm_modify src (pupd (update_first (\<lambda>n. sn_nullifier n = Some nf)
        (\<lambda>n. n\<lparr> sn_spend := Some (t, st) \<rparr>))) (tm_records tm)"
    using mark_note_as_spent_ok [OF assms] by blast
  have "sn_nullifier n = Some nf" using find_Some_set [OF a(2)] by simp
  then show ?thesis
    using a by (auto simp: hm_simps get_upd intro!: find_update_first)
qed

end

lemma found_spent_nullifier_internal_ok:
  assumes "found_spent_nullifier_internal ops notes upd nvalue rm nfs into t st ts nf src oi tm =
             Some (tm', Inr u)"
  shows "\<exists>tm1 v. mark_note_as_spent ops notes upd nvalue rm nf t st src oi tm = Some (tm1, Inr v) \<and>
     create_modify_get_transaction_record t st ts
        (\<lambda>r. if \<not> list_ex (\<lambda>x. x = nf) (nfs r) then add_spent_nullifier (into nf) v r else r)
        (tm_records tm1) = Some (tm_records tm')"
  using assms by (auto simp: found_spent_nullifier_internal_def split: option.splits sum.splits)

fun nullifiers_of :: "pool_nullifier \<Rightarrow> transaction_record \<Rightarrow> nullifier list" where
  "nullifiers_of (SaplingNullifier _) r = tr_spent_sapling_nullifiers r"
| "nullifiers_of (OrchardNullifier _) r = tr_spent_orchard_nullifiers r"

fun raw_nullifier :: "pool_nullifier \<Rightarrow> nullifier" where
  "raw_nullifier (SaplingNullifier nf) = nf"
| "raw_nullifier (OrchardNullifier nf) = nf"

lemma add_spent_nullifier_lists [simp]:
  "tr_spent_sapling_nullifiers (add_spent_nullifier (SaplingNullifier nf) v r) = tr_spent_sapling_nullifiers r @ [nf]"
  "tr_spent_orchard_nullifiers (add_spent_nullifier (OrchardNullifier nf) v r) = tr_spent_orchard_nullifiers r @ [nf]"
  by simp_all

lemma add_spent_nullifier_notes [simp]:
  "tr_sapling_notes (add_spent_nullifier nf v r) = tr_sapling_notes r"
  "tr_orchard_notes (add_spent_nullifier nf v r) = tr_orchard_notes r"
  "tr_txid (add_spent_nullifier nf v r) = tr_txid r"
  "tr_status (add_spent_nullifier nf v r) = tr_status r"
  by (cases nf; simp)+

lemma found_spent_nullifier_step:
  assumes "found_spent_nullifier ops t st ts nf src oi tm = Some (tm', Inr u)"
  shows "\<exists>rs v. create_modify_get_transaction_record t st ts
        (\<lambda>r. if raw_nullifier nf \<notin> set (nullifiers_of nf r) then add_spent_nullifier nf v r else r)
        rs = Some (tm_records tm') \<and>
     (\<forall>k. map_option (\<lambda>r. (nullifiers_of nf r, tr_status r, tr_txid r)) (hm_get rs k) =
          map_option (\<lambda>r. (nullifiers_of nf r, tr_status r, tr_txid r)) (hm_get (tm_records tm) k))"
proof (cases nf)
  case (SaplingNullifier n)
  obtain tm1 v where a: "mark_note_as_spent ops tr_sapling_notes tr_sapling_notes_update sapling_value
      (remove_sapling_mark ops) n t st src oi tm = Some (tm1, Inr v)"
    and b: "create_modify_get_transaction_record t st ts
        (\<lambda>r. if \<not> list_ex (\<lambda>x. x = n) (tr_spent_sapling_nullifiers r)
             then add_spent_nullifier (SaplingNullifier n) v r else r)
        (tm_records tm1) = Some (tm_records tm')"
    using found_spent_nullifier_internal_ok [OF assms [unfolded SaplingNullifier found_spent_nullifier.simps]]
    by blast
  from mark_note_as_spent_ok [OF a] show ?thesis
    using b SaplingNullifier by (intro exI [of _ "tm_records tm1"] exI [of _ v])
      (auto simp: hm_simps list_ex_iff option.map_comp comp_def)
next
  case (OrchardNullifier n)
  obtain tm1 v where a: "mark_note_as_spent ops tr_orchard_notes tr_orchard_notes_update orchard_value
      (remove_orchard_mark ops) n t st src oi tm = Some (tm1, Inr v)"
    and b: "create_modify_get_transaction_record t st ts
        (\<lambda>r. if \<not> list_ex (\<lambda>x. x = n) (tr_spent_orchard_nullifiers r)
             then add_spent_nullifier (OrchardNullifier n) v r else r)
        (tm_records tm1) = Some (tm_records tm')"
    using found_spent_nullifier_internal_ok [OF assms [unfolded OrchardNullifier found_spent_nullifier.simps]]
    by blast
  from mark_note_as_spent_ok [OF a] show ?thesis
    using b OrchardNullifier by (intro exI [of _ "tm_records tm1"] exI [of _ v])
      (auto simp: hm_simps list_ex_iff option.map_comp comp_def)
qed

lemma nullifiers_of_add [simp]:
  "nullifiers_of nf (add_spent_nullifier nf v r) = nullifiers_of nf r @ [raw_nullifier nf]"
  "nullifiers_of nf (new_record st d t) = []"
  "nullifiers_of nf (r\<lparr> tr_status := st, tr_datetime := d \<rparr>) = nullifiers_of nf r"
  by (cases nf; simp add: new_record_def)+

section \<open>Folds\<close>

lemma foldl_min:
  fixes f :: "'a \<Rightarrow> 'b::linorder option"
  shows "foldl (\<lambda>acc x. case f x of None \<Rightarrow> acc
            | Some v \<Rightarrow> Some (case acc of None \<Rightarrow> v | Some a \<Rightarrow> min a v)) acc xs =
     (case acc of
        Some a \<Rightarrow> Some (fold min (List.map_filter f xs) a)
      | None \<Rightarrow> (case List.map_filter f xs of [] \<Rightarrow> None | v # vs \<Rightarrow> Some (fold min vs v)))"
  by (induction xs arbitrary: acc)
     (auto simp: List.map_filter_simps min.commute split: option.splits)

lemma foldl_min_Min:
  fixes f :: "'a \<Rightarrow> 'b::linorder option"
  shows "foldl (\<lambda>acc x. case f x of None \<Rightarrow> acc
            | Some v \<Rightarrow> Some (case acc of None \<Rightarrow> v | Some a \<Rightarrow> min a v)) None xs =
     (let S = {v. \<exists>x \<in> set xs. f x = Some v} in if S = {} then None else Some (Min S))"
proof (cases "List.map_filter f xs")
  case Nil
  then show ?thesis using map_filter_set [of f xs] by (simp add: foldl_min)
next
  case (Cons v vs)
  then have "{v. \<exists>x \<in> set xs. f x = Some v} = set (v # vs)" using map_filter_set [of f xs] by simp
  then show ?thesis using Cons by (simp add: foldl_min Min.set_eq_fold del: set_simps)
qed

lemma foldl_highest:
  "foldl (\<lambda>highest w. case get_confirmed_height (tr_status w) of None \<Rightarrow> highest
      | Some h \<Rightarrow> (case highest of None \<Rightarrow> Some (tr_txid w, h)
          | Some (t, g) \<Rightarrow> if g > h then highest else Some (tr_txid w, h))) acc rs = res \<Longrightarrow>
   (res = None \<longleftrightarrow> acc = None \<and> (\<forall>r \<in> set rs. \<not> is_confirmed (tr_status r))) \<and>
   (\<forall>t h. res = Some (t, h) \<longrightarrow>
      (acc = Some (t, h) \<or> (\<exists>r \<in> set rs. tr_txid r = t \<and> tr_status r = Confirmed h)) \<and>
      (\<forall>t' h'. acc = Some (t', h') \<longrightarrow> h' \<le> h) \<and>
      (\<forall>r \<in> set rs. is_confirmed (tr_status r) \<longrightarrow> get_height (tr_status r) \<le> h))"
proof (induction rs arbitrary: acc)
  case (Cons r rs)
  show ?case
  proof (cases "tr_status r")
    case (Confirmed g)
    show ?thesis
    proof (cases acc)
      case None
      then show ?thesis using Cons.IH [of "Some (tr_txid r, g)"] Cons.prems Confirmed by auto
    next
      case (Some p)
      obtain t0 h0 where p: "p = (t0, h0)" by (cases p)
      show ?thesis
      proof (cases "h0 > g")
        case True
        then show ?thesis using Cons.IH [of acc] Cons.prems Confirmed Some p by fastforce
      next
        case False
        let ?step = "\<lambda>highest w. case get_confirmed_height (tr_status w) of None \<Rightarrow> highest
          | Some h \<Rightarrow> (case highest of None \<Rightarrow> Some (tr_txid w, h)
              | Some (t, g) \<Rightarrow> if g > h then highest else Some (tr_txid w, h))"
        have "foldl ?step (Some (tr_txid r, g)) rs = res"
          using Cons.prems Confirmed Some p False by simp
        from Cons.IH [OF this] False show ?thesis
          using Confirmed Some p by fastforce
      qed
    qed
  qed (use Cons in auto)
qed simp

section \<open>Recorded spends and a concrete instance\<close>

lemma found_spent_nullifier_wf:
  assumes "found_spent_nullifier ops t st ts nf src oi tm = Some (tm', Inr u)"
    and wf: "records_wf (tm_records tm)"
  shows "records_wf (tm_records tm')"
proof -
  have wf1: "records_wf (tm_records tm1)"
    if "mark_note_as_spent ops gn upd nvalue rm n t st src oi tm = Some (tm1, Inr v)"
      "\<And>f r. tr_txid (upd f r) = tr_txid r" for gn upd nvalue rm n tm1 v
    using mark_note_as_spent_ok [OF that(1)] records_wf_modify [OF wf that(2)] by auto
  show ?thesis
  proof (cases nf)
    case (SaplingNullifier n)
    from found_spent_nullifier_internal_ok [OF assms(1) [unfolded SaplingNullifier found_spent_nullifier.simps]]
    show ?thesis by (force elim!: create_modify_wf dest: wf1)
  next
    case (OrchardNullifier n)
    from found_spent_nullifier_internal_ok [OF assms(1) [unfolded OrchardNullifier found_spent_nullifier.simps]]
    show ?thesis by (force elim!: create_modify_wf dest: wf1)
  qed
qed

lemma create_modify_keeps:
  assumes "create_modify_get_transaction_record t st ts k m = Some m'" "hm_get m src = Some r"
    and "\<And>r. p (k r) = p r" "\<And>s d. p (r\<lparr> tr_status := s, tr_datetime := d \<rparr>) = p r"
  shows "\<exists>r'. hm_get m' src = Some r' \<and> p r' = p r"
  using create_modify_get [OF assms(1), of src] assms(2-4) by auto

lemma find_spend_known:
  assumes "hm_get m src = Some r" "hm_wf m"
  shows "n \<in> set (tr_sapling_notes r) \<Longrightarrow> sn_nullifier n = Some nf \<Longrightarrow> find_sapling_spend m nf \<noteq> None"
    and "n' \<in> set (tr_orchard_notes r) \<Longrightarrow> sn_nullifier n' = Some nf \<Longrightarrow> find_orchard_spend m nf \<noteq> None"
  using assms hm_values_get [OF assms(2), of r] by (auto simp: find_spend_None)

fun spend_found :: "records \<Rightarrow> pool_nullifier \<Rightarrow> bool" where
  "spend_found m (SaplingNullifier nf) = (find_sapling_spend m nf \<noteq> None)"
| "spend_found m (OrchardNullifier nf) = (find_orchard_spend m nf \<noteq> None)"

definition example_tree_ops :: "block_height list tree_ops" where
  "example_tree_ops =
     \<lparr> st_empty = [], st_truncate = (\<lambda>h. filter (\<lambda>c. c < h)),
       st_checkpoint = (\<lambda>h t. Some (h # t)), st_remove_mark = (\<lambda>_ _ t. Some t),
       st_max_checkpoint = (\<lambda>t. case t of [] \<Rightarrow> None | h # _ \<Rightarrow> Some h),
       bh_sub = (\<lambda>h d. if d \<le> h then Some (h - d) else None), bh_add = (\<lambda>h d. h + d) \<rparr>"

definition example_tx_map :: "block_height list tx_map" where
  "example_tx_map =
     \<lparr> tm_records = example_records,
       tm_spending_data = Some (new_spending_data \<lparr> wt_sapling = [25], wt_orchard = [25] \<rparr> []),
       tm_transparent_child_addresses = [], tm_rejection_addresses = [] \<rparr>"

section \<open>Properties\<close>

text \<open>C10. Recording a spent nullifier leaves a record for the spending transaction whose list of
  nullifiers is the old one with the nullifier added unless it was there already.\<close>

theorem found_spent_nullifier_once:
  assumes "found_spent_nullifier ops t st ts nf src oi tm = Some (tm', Inr u)"
  shows "\<exists>r'. hm_get (tm_records tm') t = Some r' \<and>
     nullifiers_of nf r' =
       (let old = (case hm_get (tm_records tm) t of None \<Rightarrow> [] | Some r \<Rightarrow> nullifiers_of nf r)
        in if raw_nullifier nf \<in> set old then old else old @ [raw_nullifier nf])"
proof -
  obtain rs v where a: "create_modify_get_transaction_record t st ts
        (\<lambda>r. if raw_nullifier nf \<notin> set (nullifiers_of nf r) then add_spent_nullifier nf v r else r)
        rs = Some (tm_records tm')"
    and b: "\<And>k. map_option (\<lambda>r. (nullifiers_of nf r, tr_status r, tr_txid r)) (hm_get rs k) =
          map_option (\<lambda>r. (nullifiers_of nf r, tr_status r, tr_txid r)) (hm_get (tm_records tm) k)"
    using found_spent_nullifier_step [OF assms] by blast
  from create_modify_get [OF a, of t] b [of t] show ?thesis
    by (auto simp: Let_def split: option.splits if_splits)
qed

theorem found_spent_nullifier_once_witness:
  "\<exists>tm' r'. found_spent_nullifier example_tree_ops [2] (Mempool 21) (Some 0) (OrchardNullifier [9]) [1]
            (Some 0) example_tx_map = Some (tm', Inr ()) \<and>
     hm_get (tm_records tm') [2] = Some r' \<and> tr_spent_orchard_nullifiers r' = [[9]]"
proof -
  obtain tm' where tm': "found_spent_nullifier example_tree_ops [2] (Mempool 21) (Some 0)
      (OrchardNullifier [9]) [1] (Some 0) example_tx_map = Some (tm', Inr ())"
    by (simp add: example_tx_map_def example_simps found_spent_nullifier_internal_def
      mark_note_as_spent_def create_modify_get_transaction_record_def hm_simps)
  then show ?thesis
    using found_spent_nullifier_once [OF tm'] by (simp add: example_tx_map_def example_simps)
qed

text \<open>For a spending wallet with a checkpoint at height \<open>h\<close> the target height is \<open>h + 1\<close> and the
  anchor lies exactly \<open>min_confirmations\<close> below it when that many blocks exist; it is never zero and
  never above \<open>h\<close> (for \<open>h > 0\<close>).\<close>

theorem anchor_height_bounds:
  assumes "witness_trees_of tm = Some trees" "st_max_checkpoint ops (wt_orchard trees) = Some h"
    and "bh_add ops h 1 = h + 1" "unat h + 1 < 2 ^ 32" "0 < min_confirmations"
  shows "\<exists>target anchor. get_target_and_anchor_heights ops min_confirmations tm = Inr (Some (target, anchor)) \<and>
     unat target = unat h + 1 \<and> 1 \<le> unat anchor \<and>
     (min_confirmations \<le> h \<longrightarrow> unat anchor + unat min_confirmations = unat target) \<and>
     (h \<noteq> 0 \<longrightarrow> unat anchor \<le> unat h)"
proof -
  have t: "unat (h + 1) = unat h + 1" using assms(4) by (simp add: unat_word_ariths)
  have m: "unat (max 1 (saturating_sub (h + 1) min_confirmations)) =
      max 1 (unat h + 1 - unat min_confirmations)"
    by (auto simp: max_def word_le_nat_alt t)
  have "0 < unat min_confirmations" using assms(5) by (simp add: word_less_nat_alt)
  moreover have "h \<noteq> 0 \<Longrightarrow> 0 < unat h" by (simp add: unat_gt_0)
  ultimately show ?thesis
    using assms(1-3) m t
    by (auto simp: get_target_and_anchor_heights_def Let_def word_le_nat_alt)
qed

theorem anchor_height_bounds_witness:
  "\<exists>target anchor. get_target_and_anchor_heights example_tree_ops 3 example_tx_map =
     Inr (Some (target, anchor)) \<and> unat target = 26 \<and> unat anchor + 3 = 26"
  using anchor_height_bounds [of example_tx_map "\<lparr> wt_sapling = [25], wt_orchard = [25] \<rparr>"
      example_tree_ops 25 3]
  by (auto simp: example_tx_map_def witness_trees_of_def new_spending_data_def example_tree_ops_def)

text \<open>The minimum unspent height is the minimum height of the confirmed records that hold an unspent
  shielded output, and absent exactly when there is none.\<close>

theorem min_unspent_height_is_minimum:
  "get_min_unspent_height tm =
     (let heights = {get_height (tr_status r) | r. r \<in> set (hm_values (tm_records tm)) \<and>
                       is_confirmed (tr_status r) \<and> has_unspent_shielded_outputs r}
      in if heights = {} then None else Some (Min heights))"
proof -
  let ?f = "\<lambda>r. if is_confirmed (tr_status r) \<and> has_unspent_shielded_outputs r
                then Some (get_height (tr_status r)) else None"
  have "get_min_unspent_height tm = foldl (\<lambda>acc x. case ?f x of None \<Rightarrow> acc
            | Some v \<Rightarrow> Some (case acc of None \<Rightarrow> v | Some a \<Rightarrow> min a v)) None (hm_values (tm_records tm))"
    unfolding get_min_unspent_height_def
    by (rule foldl_cong) (auto simp: get_confirmed_height_eq split: option.splits)
  moreover have "{v. \<exists>x \<in> set (hm_values (tm_records tm)). ?f x = Some v} =
     {get_height (tr_status r) | r. r \<in> set (hm_values (tm_records tm)) \<and>
                       is_confirmed (tr_status r) \<and> has_unspent_shielded_outputs r}"
    by (auto split: if_splits)
  ultimately show ?thesis by (simp only: foldl_min_Min)
qed

text \<open>The transaction reported from the highest wallet block is a confirmed one that no confirmed
  record exceeds in height; it is absent exactly when no record is confirmed.\<close>

theorem highest_wallet_block_txid:
  "(get_some_txid_from_highest_wallet_block tm = None \<longleftrightarrow>
      (\<forall>r \<in> set (hm_values (tm_records tm)). \<not> is_confirmed (tr_status r))) \<and>
   (\<forall>t. get_some_txid_from_highest_wallet_block tm = Some t \<longrightarrow>
      (\<exists>r \<in> set (hm_values (tm_records tm)). tr_txid r = t \<and> is_confirmed (tr_status r) \<and>
         (\<forall>r' \<in> set (hm_values (tm_records tm)).
            is_confirmed (tr_status r') \<longrightarrow> get_height (tr_status r') \<le> get_height (tr_status r))))"
  using foldl_highest [OF refl, of None "hm_values (tm_records tm)"]
  unfolding get_some_txid_from_highest_wallet_block_def
  by (fastforce simp: map_option_case split: option.splits)

theorem highest_wallet_block_txid_witness:
  "\<exists>r \<in> set (hm_values example_records). tr_txid r = [2] \<and> is_confirmed (tr_status r)"
proof -
  have "get_some_txid_from_highest_wallet_block example_tx_map = Some [2]"
    by (simp add: get_some_txid_from_highest_wallet_block_def example_tx_map_def example_simps)
  then show ?thesis
    using highest_wallet_block_txid [of example_tx_map] by (auto simp: example_tx_map_def)
qed

text \<open>After a spend has been recorded the wallet is still well formed and the nullifier resolves to a
  note of the wallet, so the fee calculation cannot fail for it as not found.\<close>

theorem recorded_spend_is_known_to_fee:
  assumes "found_spent_nullifier ops t st ts nf src oi tm = Some (tm', Inr u)"
    and wf: "records_wf (tm_records tm)"
  shows "records_wf (tm_records tm') \<and> spend_found (tm_records tm') nf"
proof
  show wf': "records_wf (tm_records tm')" using found_spent_nullifier_wf [OF assms] .
  show "spend_found (tm_records tm') nf"
  proof (cases nf)
    case (SaplingNullifier n)
    obtain tm1 v where a: "mark_note_as_spent ops tr_sapling_notes tr_sapling_notes_update sapling_value
      (remove_sapling_mark ops) n t st src oi tm = Some (tm1, Inr v)"
    and b: "create_modify_get_transaction_record t st ts
        (\<lambda>r. if \<not> list_ex (\<lambda>x. x = n) (tr_spent_sapling_nullifiers r)
             then add_spent_nullifier (SaplingNullifier n) v r else r)
        (tm_records tm1) = Some (tm_records tm')"
      using found_spent_nullifier_internal_ok [OF assms(1) [unfolded SaplingNullifier found_spent_nullifier.simps]]
      by blast
    obtain r1 k where r1: "hm_get (tm_records tm1) src = Some r1" "k \<in> set (tr_sapling_notes r1)"
        "sn_nullifier k = Some n"
      using sapling_pool.mark_note_as_spent_marks [OF a] by (force dest: find_Some_set)
    have "\<exists>r2. hm_get (tm_records tm') src = Some r2 \<and> tr_sapling_notes r2 = tr_sapling_notes r1"
      by (rule create_modify_keeps [OF b r1(1)]) simp_all
    then obtain r2 where "hm_get (tm_records tm') src = Some r2" "tr_sapling_notes r2 = tr_sapling_notes r1"
      by blast
    then show ?thesis
      using find_spend_known(1) [of "tm_records tm'" src r2 k n] r1 wf' SaplingNullifier by auto
  next
    case (OrchardNullifier n)
    obtain tm1 v where a: "mark_note_as_spent ops tr_orchard_notes tr_orchard_notes_update orchard_value
      (remove_orchard_mark ops) n t st src oi tm = Some (tm1, Inr v)"
    and b: "create_modify_get_transaction_record t st ts
        (\<lambda>r. if \<not> list_ex (\<lambda>x. x = n) (tr_spent_orchard_nullifiers r)
             then add_spent_nullifier (OrchardNullifier n) v r else r)
        (tm_records tm1) = Some (tm_records tm')"
      using found_spent_nullifier_internal_ok [OF assms(1) [unfolded OrchardNullifier found_spent_nullifier.simps]]
      by blast
    obtain r1 k where r1: "hm_get (tm_records tm1) src = Some r1" "k \<in> set (tr_orchard_notes r1)"
        "sn_nullifier k = Some n"
      using orchard_pool.mark_note_as_spent_marks [OF a] by (force dest: find_Some_set)
    have "\<exists>r2. hm_get (tm_records tm') src = Some r2 \<and> tr_orchard_notes r2 = tr_orchard_notes r1"
      by (rule create_modify_keeps [OF b r1(1)]) simp_all
    then obtain r2 where "hm_get (tm_records tm') src = Some r2" "tr_orchard_notes r2 = tr_orchard_notes r1"
      by blast
    then show ?thesis
      using find_spend_known(2) [of "tm_records tm'" src r2 k n] r1 wf' OrchardNullifier by auto
  qed
qed

theorem recorded_spend_is_known_to_fee_witness:
  "\<exists>tm'. found_spent_nullifier example_tree_ops [4] (Confirmed 21) (Some 0) (OrchardNullifier [9]) [1]
            (Some 0) example_tx_map = Some (tm', Inr ()) \<and> spend_found (tm_records tm') (OrchardNullifier [9])"
proof -
  obtain tm' where tm': "found_spent_nullifier example_tree_ops [4] (Confirmed 21) (Some 0)
      (OrchardNullifier [9]) [1] (Some 0) example_tx_map = Some (tm', Inr ())"
    by (simp add: example_tx_map_def example_simps found_spent_nullifier_internal_def
      mark_note_as_spent_def remove_witness_mark_def update_witness_trees_def example_tree_ops_def
      new_spending_data_def remove_orchard_mark_def
      create_modify_get_transaction_record_def hm_simps)
  moreover have "records_wf (tm_records example_tx_map)"
    using example_wf by (simp add: example_tx_map_def)
  ultimately show ?thesis using recorded_spend_is_known_to_fee [OF tm'] by blast
qed

end
