(* ===== verification/Byte_Codec.thy ===== *)
theory Byte_Codec
  imports Zingo_Prelude
begin

text \<open>
  Reading and writing of bytes as \<open>std::io\<close> and the \<open>byteorder\<close> crate provide them: a writer is the
  list of the bytes it emits, a reader consumes a prefix of the input and returns a value with the
  rest, an error, or panics. The framings of \<open>zcash_encoding\<close> (\<open>Optional\<close> and \<open>Vector\<close>) belong to
  another crate: they are records of arguments whose documented behaviour, reading back what was
  written, is the hypothesis \<open>opt_laws\<close> and \<open>vec_laws\<close>. The locale \<open>codec\<close> is the contract between a
  writer and its reader.
\<close>

section \<open>Readers\<close>

datatype io_error = UnexpectedEof | InvalidData string | InvalidInput string | IoOther string

datatype 'a rd = Rd_Ok 'a "byte list" | Rd_Err io_error | Rd_Panic

type_synonym 'a reader = "byte list \<Rightarrow> 'a rd"
type_synonym 'a writer = "'a \<Rightarrow> byte list"

definition rd_bind :: "'a reader \<Rightarrow> ('a \<Rightarrow> 'b reader) \<Rightarrow> 'b reader" where
  "rd_bind r f = (\<lambda>bs. case r bs of Rd_Ok x rest \<Rightarrow> f x rest | Rd_Err e \<Rightarrow> Rd_Err e | Rd_Panic \<Rightarrow> Rd_Panic)"

definition rd_return :: "'a \<Rightarrow> 'a reader" where
  "rd_return x = (\<lambda>bs. Rd_Ok x bs)"

definition rd_fail :: "io_error \<Rightarrow> 'a reader" where
  "rd_fail e = (\<lambda>bs. Rd_Err e)"

definition rd_panic :: "'a reader" where
  "rd_panic = (\<lambda>bs. Rd_Panic)"

definition read_exact :: "nat \<Rightarrow> byte list reader" where
  "read_exact n = (\<lambda>bs. if length bs < n then Rd_Err UnexpectedEof else Rd_Ok (take n bs) (drop n bs))"

section \<open>Little-endian integers\<close>

fun le_encode :: "nat \<Rightarrow> 'w::len word \<Rightarrow> byte list" where
  "le_encode 0 v = []"
| "le_encode (Suc n) v = ucast v # le_encode n (drop_bit 8 v)"

fun le_decode :: "byte list \<Rightarrow> 'w::len word" where
  "le_decode [] = 0"
| "le_decode (b # bs) = or (ucast b) (push_bit 8 (le_decode bs))"

definition read_le :: "nat \<Rightarrow> 'w::len word reader" where
  "read_le n = rd_bind (read_exact n) (\<lambda>bs. rd_return (le_decode bs))"

definition write_u8 :: "byte writer" where "write_u8 v = [v]"
definition write_u32 :: "u32 writer" where "write_u32 v = le_encode 4 v"
definition write_u64 :: "u64 writer" where "write_u64 v = le_encode 8 v"
definition read_u8 :: "byte reader" where "read_u8 = read_le 1"
definition read_u32 :: "u32 reader" where "read_u32 = read_le 4"
definition read_u64 :: "u64 reader" where "read_u64 = read_le 8"

section \<open>Framings of the encoding crate\<close>

record 'a opt_codec =
  opt_write :: "'a writer \<Rightarrow> 'a option writer"
  opt_read :: "'a reader \<Rightarrow> 'a option reader"

record 'a vec_codec =
  vec_write :: "'a writer \<Rightarrow> 'a list writer"
  vec_read :: "'a reader \<Rightarrow> 'a list reader"

definition opt_laws :: "'a opt_codec \<Rightarrow> bool" where
  "opt_laws c \<longleftrightarrow>
     (\<forall>w r f x rest. (\<forall>v rest. x = Some v \<longrightarrow> r (w v @ rest) = Rd_Ok (f v) rest) \<longrightarrow>
        opt_read c r (opt_write c w x @ rest) = Rd_Ok (map_option f x) rest)"

text \<open>The crate refuses to read lengths above \<open>0x02000000\<close>.\<close>

definition max_vec_len :: nat where
  "max_vec_len = 0x02000000"

definition vec_laws :: "'a vec_codec \<Rightarrow> bool" where
  "vec_laws c \<longleftrightarrow>
     (\<forall>w r f xs rest. length xs \<le> max_vec_len \<and>
        (\<forall>x \<in> set xs. \<forall>rest. r (w x @ rest) = Rd_Ok (f x) rest) \<longrightarrow>
        vec_read c r (vec_write c w xs @ rest) = Rd_Ok (map f xs) rest)"

section \<open>Laws of the readers\<close>

lemma rd_bind_Ok [simp]: "r bs = Rd_Ok x rest \<Longrightarrow> rd_bind r f bs = f x rest"
  by (simp add: rd_bind_def)

lemma rd_return_apply [simp]: "rd_return x bs = Rd_Ok x bs"
  by (simp add: rd_return_def)

lemma rd_bind_apply:
  "rd_bind r f bs = (case r bs of Rd_Ok x rest \<Rightarrow> f x rest | Rd_Err e \<Rightarrow> Rd_Err e | Rd_Panic \<Rightarrow> Rd_Panic)"
  by (simp add: rd_bind_def)

lemma rd_fail_apply [simp]: "rd_fail e bs = Rd_Err e" "rd_panic bs = Rd_Panic"
  by (simp_all add: rd_fail_def rd_panic_def)

lemma read_exact_append [simp]: "length xs = n \<Longrightarrow> read_exact n (xs @ rest) = Rd_Ok xs rest"
  by (simp add: read_exact_def)

lemma length_le_encode [simp]: "length (le_encode n v) = n"
  by (induction n v rule: le_encode.induct) auto

lemma le_decode_encode:
  fixes v :: "'w::len word"
  shows "le_decode (le_encode n v) = take_bit (8 * n) v"
proof (induction n v rule: le_encode.induct)
  case (2 n v)
  have "or (ucast (ucast v :: byte)) (push_bit 8 (take_bit (8 * n) (drop_bit 8 v))) =
      take_bit (8 + 8 * n) v"
    by (rule bit_word_eqI) (auto simp: bit_simps)
  then show ?case using 2 by simp
qed simp

lemma read_le_encode:
  fixes v :: "'w::len word"
  assumes "LENGTH('w) = 8 * n"
  shows "read_le n (le_encode n v @ rest) = Rd_Ok v rest"
proof -
  have "take_bit (8 * n) v = v" using assms by (simp add: take_bit_word_eq_self)
  then show ?thesis by (simp add: read_le_def le_decode_encode)
qed

lemma read_write_ints [simp]:
  "read_u8 (write_u8 a @ rest) = Rd_Ok a rest"
  "read_u32 (write_u32 b @ rest) = Rd_Ok b rest"
  "read_u64 (write_u64 c @ rest) = Rd_Ok c rest"
proof -
  have "write_u8 a = le_encode 1 a" by (simp add: write_u8_def)
  then show "read_u8 (write_u8 a @ rest) = Rd_Ok a rest"
    using read_le_encode [of 1 a rest] by (simp add: read_u8_def)
  show "read_u32 (write_u32 b @ rest) = Rd_Ok b rest"
    "read_u64 (write_u64 c @ rest) = Rd_Ok c rest"
    using read_le_encode [of 4 b rest] read_le_encode [of 8 c rest]
    by (simp_all add: read_u32_def read_u64_def write_u32_def write_u64_def)
qed

lemma read_u8_Cons [simp]: "read_u8 (v # bs) = Rd_Ok v bs"
  using read_write_ints(1) [of v bs] by (simp add: write_u8_def)

lemma opt_lawsD:
  assumes "opt_laws c" "\<And>v rest. x = Some v \<Longrightarrow> r (w v @ rest) = Rd_Ok (f v) rest"
  shows "opt_read c r (opt_write c w x @ rest) = Rd_Ok (map_option f x) rest"
  using assms unfolding opt_laws_def by blast

lemma opt_lawsD_id:
  assumes "opt_laws c" "\<And>v rest. x = Some v \<Longrightarrow> r (w v @ rest) = Rd_Ok v rest"
  shows "opt_read c r (opt_write c w x @ rest) = Rd_Ok x rest"
  using opt_lawsD [OF assms(1), of x r w "\<lambda>v. v" rest] assms(2) by (simp add: option.map_ident)

lemma vec_lawsD:
  assumes "vec_laws c" "length xs \<le> max_vec_len"
    and "\<And>x rest. x \<in> set xs \<Longrightarrow> r (w x @ rest) = Rd_Ok (f x) rest"
  shows "vec_read c r (vec_write c w xs @ rest) = Rd_Ok (map f xs) rest"
  using assms unfolding vec_laws_def by blast

lemma vec_lawsD_id:
  assumes "vec_laws c" "length xs \<le> max_vec_len"
    and "\<And>x rest. x \<in> set xs \<Longrightarrow> r (w x @ rest) = Rd_Ok x rest"
  shows "vec_read c r (vec_write c w xs @ rest) = Rd_Ok xs rest"
  using vec_lawsD [OF assms(1,2), of r w "\<lambda>v. v" rest] assms(3) by simp

section \<open>The contract of a codec\<close>

text \<open>A format stores of the values it accepts what \<open>keep\<close> says; a codec stores everything.\<close>

locale lossy_codec =
  fixes enc :: "'a writer" and dec :: "'a reader" and keep :: "'a \<Rightarrow> 'a" and ok :: "'a \<Rightarrow> bool"
  assumes dec_keep: "ok x \<Longrightarrow> dec (enc x @ rest) = Rd_Ok (keep x) rest"
begin

lemma keep_determined: "ok x \<Longrightarrow> ok y \<Longrightarrow> enc x @ r = enc y @ s \<Longrightarrow> keep x = keep y \<and> r = s"
  by (metis dec_keep rd.inject(1))

lemma vec_keep:
  assumes "vec_laws c" "length xs \<le> max_vec_len" "list_all ok xs"
  shows "vec_read c dec (vec_write c enc xs @ rest) = Rd_Ok (map keep xs) rest"
  using assms by (intro vec_lawsD) (auto simp: list_all_iff dec_keep)

lemma opt_keep:
  assumes "opt_laws c" "pred_option ok x"
  shows "opt_read c dec (opt_write c enc x @ rest) = Rd_Ok (map_option keep x) rest"
  using assms by (intro opt_lawsD) (auto simp: dec_keep)

end

locale codec =
  fixes enc :: "'a writer" and dec :: "'a reader"
  assumes dec_enc: "dec (enc x @ rest) = Rd_Ok x rest"
begin

lemma enc_prefix_free: "enc x @ r = enc y @ s \<Longrightarrow> x = y \<and> r = s"
  by (metis dec_enc rd.inject(1))

lemma enc_inj: "enc x = enc y \<Longrightarrow> x = y"
  using enc_prefix_free [of x "[]" y "[]"] by simp

lemma dec_whole: "dec (enc x) = Rd_Ok x []"
  using dec_enc [of x "[]"] by simp

end

sublocale codec \<subseteq> lossy: lossy_codec enc dec "\<lambda>x. x" "\<lambda>_. True"
  by unfold_locales (rule dec_enc)

interpretation u8_codec: codec write_u8 read_u8 by unfold_locales simp

interpretation u32_codec: codec write_u32 read_u32 by unfold_locales simp

interpretation u64_codec: codec write_u64 read_u64 by unfold_locales simp

end
