(* ===== verification/Wallet_Serialization.thy ===== *)
theory Wallet_Serialization
  imports Byte_Codec Records_By_Id
begin

text \<open>
  The binary formats of the wallet file: confirmation statuses and shielded notes
  (\<open>wallet/traits.rs\<close>), transparent outputs (\<open>wallet/notes/transparent.rs\<close>), outgoing data, Sapling
  seeds, the witness cache and the price information (\<open>wallet/data.rs\<close>), and transaction records
  (\<open>wallet/transaction_record.rs\<close>).

  Memo encoding, key derivation, the validity of curve points and the framings of
  \<open>zcash_encoding\<close> belong to other crates and are arguments: \<open>memo_api\<close>, \<open>key_api\<close> and
  \<open>'w encodings\<close>. \<open>Rd_Panic\<close> is an \<open>unwrap\<close>, \<open>expect\<close> or \<open>assert\<close> that fails.
\<close>

section \<open>Arguments\<close>

record memo_api =
  ma_encode :: "memo \<Rightarrow> byte list"
  ma_from_bytes :: "byte list \<Rightarrow> byte list option"
  ma_try_from :: "byte list \<Rightarrow> memo option"

record key_api =
  ka_utf8_valid :: "byte list \<Rightarrow> bool"
  ka_sapling_address :: "byte list \<Rightarrow> byte list option"
  ka_orchard_address :: "byte list \<Rightarrow> byte list"
  ka_valid_fr :: "byte list \<Rightarrow> bool"
  ka_valid_rho :: "byte list \<Rightarrow> bool"
  ka_valid_rseed :: "byte list \<Rightarrow> byte list \<Rightarrow> bool"
  ka_valid_orchard_note :: "orchard_crypto_note \<Rightarrow> bool"
  ka_valid_orchard_nullifier :: "byte list \<Rightarrow> bool"

record 'w encodings =
  e_opt_u64 :: "u64 opt_codec"
  e_opt_u32 :: "u32 opt_codec"
  e_opt_bytes :: "byte list opt_codec"
  e_opt_bytes_u32 :: "(byte list \<times> u32) opt_codec"
  e_opt_spend :: "(txid \<times> confirmation_status) opt_codec"
  e_opt_memo :: "memo opt_codec"
  e_vec_byte :: "byte vec_codec"
  e_vec_bytes :: "byte list vec_codec"
  e_vec_witness :: "'w vec_codec"
  e_vec_sapling :: "sapling_note vec_codec"
  e_vec_orchard :: "orchard_note vec_codec"
  e_vec_transparent :: "transparent_output vec_codec"
  e_vec_outgoing :: "outgoing_tx_data vec_codec"

definition string_bytes :: "string \<Rightarrow> byte list" where
  "string_bytes s = map of_char s"

definition bytes_string :: "byte list \<Rightarrow> string" where
  "bytes_string bs = map (\<lambda>b. char_of (unat b)) bs"

section \<open>Versions\<close>

definition get_version :: "byte \<Rightarrow> byte reader" where
  "get_version current = rd_bind read_u8 (\<lambda>external_version.
     if external_version > current
     then rd_fail (InvalidData ''Wallet file version is from future version of zingo'')
     else rd_return external_version)"

section \<open>Confirmation status\<close>

fun write_status :: "confirmation_status writer" where
  "write_status (Calculated h) = write_u8 0 @ write_u8 0 @ write_u32 h"
| "write_status (Transmitted h) = write_u8 0 @ write_u8 1 @ write_u32 h"
| "write_status (Mempool h) = write_u8 0 @ write_u8 2 @ write_u32 h"
| "write_status (Confirmed h) = write_u8 0 @ write_u8 3 @ write_u32 h"

text \<open>The result of \<open>get_version\<close> is bound to a name and dropped: an unknown version byte is
  consumed and ignored, and so is a missing one.\<close>

definition read_status :: "confirmation_status reader" where
  "read_status = (\<lambda>bs.
     let bs = (case get_version 0 bs of
                 Rd_Ok _ rest \<Rightarrow> rest
               | Rd_Err _ \<Rightarrow> drop 1 bs
               | Rd_Panic \<Rightarrow> bs)
     in rd_bind read_u8 (\<lambda>status. rd_bind read_u32 (\<lambda>height.
          if status = 0 then rd_return (Calculated height)
          else if status = 1 then rd_return (Transmitted height)
          else if status = 2 then rd_return (Mempool height)
          else if status = 3 then rd_return (Confirmed height)
          else rd_fail (InvalidData ''Bad confirmation status''))) bs)"

section \<open>Memos\<close>

definition read_memo :: "memo_api \<Rightarrow> memo reader" where
  "read_memo ma = rd_bind (read_exact 512) (\<lambda>memo_bytes.
     case ma_from_bytes ma memo_bytes of
       Some mb \<Rightarrow> (case ma_try_from ma mb of Some m \<Rightarrow> rd_return m | None \<Rightarrow> rd_return (Memo_Future mb))
     | None \<Rightarrow> rd_fail (InvalidInput ''Couldn't create memo''))"

section \<open>Outgoing data\<close>

text \<open>\<open>vec![0; n]\<close> panics for a capacity of \<open>2 ^ 63\<close> and above.\<close>

definition write_outgoing :: "memo_api \<Rightarrow> outgoing_tx_data writer" where
  "write_outgoing ma otd =
     (case ot_recipient_ua otd of
        None \<Rightarrow> write_u64 (word_of_nat (length (string_bytes (ot_recipient_address otd)))) @
                string_bytes (ot_recipient_address otd)
      | Some ua \<Rightarrow> write_u64 (word_of_nat (length (string_bytes ua))) @ string_bytes ua) @
     write_u64 (ot_value otd) @ ma_encode ma (ot_memo otd)"

definition read_outgoing :: "memo_api \<Rightarrow> key_api \<Rightarrow> outgoing_tx_data reader" where
  "read_outgoing ma ka =
     rd_bind read_u64 (\<lambda>address_len.
     if unat address_len \<ge> 2 ^ 63 then rd_panic
     else
     rd_bind (read_exact (unat address_len)) (\<lambda>address_bytes.
     if \<not> ka_utf8_valid ka address_bytes then rd_panic
     else
     rd_bind read_u64 (\<lambda>v.
     rd_bind (read_memo ma) (\<lambda>memo.
     rd_return \<lparr> ot_recipient_address = bytes_string address_bytes, ot_value = v, ot_memo = memo,
                 ot_recipient_ua = None \<rparr>))))"

section \<open>Transparent outputs\<close>

definition transparent_serialized_version :: u64 where
  "transparent_serialized_version = 4"

definition write_transparent :: "'w encodings \<Rightarrow> transparent_output writer" where
  "write_transparent E t =
     (let confirmed_spend =
        (case to_spend t of
           None \<Rightarrow> None
         | Some (txid, status) \<Rightarrow> map_option (\<lambda>height. (txid, height)) (get_confirmed_height status));
          spent = map_option fst confirmed_spend;
          spent_at_height = map_option snd confirmed_spend
      in write_u64 transparent_serialized_version @
         write_u32 (word_of_nat (length (string_bytes (to_address t)))) @
         string_bytes (to_address t) @ to_txid t @ write_u64 (to_output_index t) @
         write_u64 (to_value t) @ write_u32 0 @
         vec_write (e_vec_byte E) write_u8 (to_script t) @
         opt_write (e_opt_bytes E) (\<lambda>x. x) spent @
         opt_write (e_opt_u32 E) write_u32 spent_at_height)"

text \<open>\<open>address_len as usize\<close> of a negative \<open>i32\<close> is a length above \<open>2 ^ 63\<close>, so the allocation of the
  buffer panics.\<close>

definition read_transparent :: "'w encodings \<Rightarrow> key_api \<Rightarrow> transparent_output reader" where
  "read_transparent E ka =
     rd_bind read_u64 (\<lambda>version.
     rd_bind read_u32 (\<lambda>address_len.
     if unat address_len \<ge> 2 ^ 31 then rd_panic
     else
     rd_bind (read_exact (unat address_len)) (\<lambda>address_bytes.
     if \<not> ka_utf8_valid ka address_bytes then rd_panic
     else if \<not> (address_bytes \<noteq> [] \<and> hd (bytes_string address_bytes) = CHR ''t'') then rd_panic
     else
     rd_bind (read_exact 32) (\<lambda>transaction_id.
     rd_bind read_u64 (\<lambda>output_index.
     rd_bind read_u64 (\<lambda>v.
     rd_bind read_u32 (\<lambda>unused_height.
     rd_bind (vec_read (e_vec_byte E) read_u8) (\<lambda>script.
     rd_bind (opt_read (e_opt_bytes E) (read_exact 32)) (\<lambda>spent.
     rd_bind (if version \<le> 1 then rd_return None else opt_read (e_opt_u32 E) read_u32)
       (\<lambda>spent_at_height.
     rd_bind (if version = 3
              then opt_read (e_opt_bytes_u32 E)
                     (rd_bind (read_exact 32) (\<lambda>b. rd_bind read_u32 (\<lambda>h. rd_return (b, h))))
              else rd_return None) (\<lambda>pending_spent.
     rd_return \<lparr> to_address = bytes_string address_bytes, to_txid = transaction_id,
       to_output_index = output_index, to_script = script, to_value = v,
       to_spend = (case spent of
                     Some txid \<Rightarrow>
                       Some (txid, Confirmed (case spent_at_height of Some h \<Rightarrow> h | None \<Rightarrow> 0))
                   | None \<Rightarrow> None) \<rparr>)))))))))))"

section \<open>Notes of the protocols\<close>

definition write_sapling_rseed :: "rseed writer" where
  "write_sapling_rseed rs =
     (case rs of BeforeZip212 fr \<Rightarrow> write_u8 1 @ fr | AfterZip212 b \<Rightarrow> write_u8 2 @ b)"

definition read_sapling_rseed :: "key_api \<Rightarrow> rseed reader" where
  "read_sapling_rseed ka =
     rd_bind read_u8 (\<lambda>note_type.
     rd_bind (read_exact 32) (\<lambda>r_bytes.
       if note_type = 1
       then (if ka_valid_fr ka r_bytes then rd_return (BeforeZip212 r_bytes) else rd_panic)
       else if note_type = 2 then rd_return (AfterZip212 r_bytes)
       else rd_fail (InvalidInput ''Bad note type'')))"

definition write_sapling_crypto_note :: "sapling_crypto_note writer" where
  "write_sapling_crypto_note n = write_u8 1 @ write_u64 (sc_value n) @ write_sapling_rseed (sc_rseed n)"

definition read_sapling_crypto_note :: "key_api \<Rightarrow> byte list \<Rightarrow> sapling_crypto_note reader" where
  "read_sapling_crypto_note ka diversifier =
     rd_bind (get_version 1) (\<lambda>version.
     rd_bind read_u64 (\<lambda>v.
     rd_bind (read_sapling_rseed ka) (\<lambda>rseed.
       case ka_sapling_address ka diversifier of
         None \<Rightarrow> rd_panic
       | Some recipient \<Rightarrow>
           rd_return \<lparr> sc_recipient = recipient, sc_value = v, sc_rseed = rseed \<rparr>)))"

definition write_orchard_crypto_note :: "orchard_crypto_note writer" where
  "write_orchard_crypto_note n = write_u8 1 @ write_u64 (oc_value n) @ oc_rho n @ oc_rseed n"

definition read_orchard_crypto_note :: "key_api \<Rightarrow> byte list \<Rightarrow> orchard_crypto_note reader" where
  "read_orchard_crypto_note ka diversifier =
     rd_bind (get_version 1) (\<lambda>version.
     rd_bind read_u64 (\<lambda>v.
     rd_bind (read_exact 32) (\<lambda>nullifier_bytes.
     if \<not> ka_valid_rho ka nullifier_bytes then rd_fail (InvalidInput ''Bad Nullifier'')
     else
     rd_bind (read_exact 32) (\<lambda>random_seed_bytes.
     if \<not> ka_valid_rseed ka random_seed_bytes nullifier_bytes
     then rd_fail (InvalidInput ''Nullifier not for note'')
     else
     (let n = \<lparr> oc_recipient = ka_orchard_address ka diversifier, oc_value = v,
                oc_rho = nullifier_bytes, oc_rseed = random_seed_bytes \<rparr>
      in if ka_valid_orchard_note ka n then rd_return n
         else rd_fail (InvalidInput ''Invalid note''))))))"

section \<open>Shielded notes\<close>

definition bool_byte :: "bool \<Rightarrow> byte" where
  "bool_byte b = (if b then 1 else 0)"

definition write_note :: "memo_api \<Rightarrow> 'w encodings \<Rightarrow> 'n writer \<Rightarrow> 'n shielded_note writer" where
  "write_note ma E write_crypto n =
     write_u8 5 @ sn_diversifier n @ write_crypto (sn_note n) @
     opt_write (e_opt_u64 E) write_u64 (sn_witnessed_position n) @
     opt_write (e_opt_bytes E) (\<lambda>x. x) (sn_nullifier n) @
     opt_write (e_opt_spend E) (\<lambda>(txid, status). txid @ write_status status) (sn_spend n) @
     opt_write (e_opt_memo E) (ma_encode ma) (sn_memo n) @
     write_u8 (bool_byte (sn_is_change n)) @ write_u8 (bool_byte (sn_have_spending_key n)) @
     write_u32 (case sn_output_index n of Some i \<Rightarrow> i | None \<Rightarrow> - 1)"

text \<open>Versions below 4 store a vector of incremental witnesses; \<open>read_wit\<close> and \<open>wit_position\<close> belong to
  the tree crate. \<open>valid_nf\<close> is the check of the nullifier type: reading an invalid one panics. The
  second component is what is pushed to \<open>inc_wit_vec\<close>.\<close>

definition witness_heights :: "'w list \<Rightarrow> u64 \<Rightarrow> ('w \<times> block_height) list" where
  "witness_heights ws top_height =
     map (\<lambda>(j, w). (w, ucast top_height - word_of_nat (length ws - 1 - j))) (enumerate 0 ws)"

definition read_nullifier :: "(byte list \<Rightarrow> bool) \<Rightarrow> nullifier reader" where
  "read_nullifier valid_nf = rd_bind (read_exact 32) (\<lambda>n. if valid_nf n then rd_return n else rd_panic)"

definition read_note ::
  "memo_api \<Rightarrow> 'w encodings \<Rightarrow> 'w reader \<Rightarrow> ('w \<Rightarrow> u64) \<Rightarrow> nat \<Rightarrow> (byte list \<Rightarrow> 'n reader) \<Rightarrow>
   (byte list \<Rightarrow> bool) \<Rightarrow> ('n shielded_note \<times> ('w \<times> block_height) list) reader" where
  "read_note ma E read_wit wit_position view_key_len read_crypto valid_nf =
     rd_bind (get_version 5) (\<lambda>external_version.
     rd_bind (if external_version < 2
              then (\<lambda>bs. case read_exact view_key_len bs of
                           Rd_Ok _ rest \<Rightarrow> Rd_Ok () rest | _ \<Rightarrow> Rd_Panic)
              else rd_return ()) (\<lambda>_.
     rd_bind (read_exact 11) (\<lambda>diversifier.
     rd_bind (read_crypto diversifier) (\<lambda>note.
     rd_bind (if external_version \<ge> 5
              then rd_bind (opt_read (e_opt_u64 E) read_u64) (\<lambda>p. rd_return (p, []))
              else if external_version = 4
              then rd_bind read_u64 (\<lambda>p. rd_return (Some p, []))
              else rd_bind (vec_read (e_vec_witness E) read_wit) (\<lambda>ws.
                   rd_bind read_u64 (\<lambda>top_height.
                   rd_return (if ws = [] then None else Some (wit_position (last ws)),
                              witness_heights ws top_height)))) (\<lambda>(witnessed_position, wits).
     rd_bind (if external_version \<ge> 5
              then opt_read (e_opt_bytes E) (read_nullifier valid_nf)
              else rd_bind (read_nullifier valid_nf) (\<lambda>n. rd_return (Some n))) (\<lambda>nf.
     rd_bind (opt_read (e_opt_spend E)
               (rd_bind (read_exact 32) (\<lambda>txid.
                rd_bind (if external_version \<ge> 5 then read_status
                         else rd_bind read_u32 (\<lambda>h. rd_return (Confirmed h))) (\<lambda>status.
                rd_return (txid, status))))) (\<lambda>sp.
     rd_bind (if external_version < 3
              then opt_read (e_opt_bytes_u32 E)
                     (rd_bind (read_exact 32) (\<lambda>b. rd_bind read_u32 (\<lambda>h. rd_return (b, h))))
              else rd_return None) (\<lambda>pending_spent.
     rd_bind (opt_read (e_opt_memo E) (read_memo ma)) (\<lambda>memo.
     rd_bind read_u8 (\<lambda>is_change.
     rd_bind read_u8 (\<lambda>have_spending_key.
     rd_bind (if external_version \<ge> 4
              then rd_bind read_u32 (\<lambda>i. rd_return (if i = - 1 then None else Some i))
              else rd_return None) (\<lambda>output_index.
     rd_return (shielded_from_parts diversifier note witnessed_position nf sp memo (is_change > 0)
                  (have_spending_key > 0) output_index, wits)))))))))))))"

section \<open>Transaction records\<close>

definition record_serialized_version :: u64 where
  "record_serialized_version = 23"

definition write_record :: "memo_api \<Rightarrow> 'w encodings \<Rightarrow> transaction_record writer" where
  "write_record ma E r =
     write_u64 record_serialized_version @
     write_u32 (get_height (tr_status r)) @
     write_u8 (if \<not> is_confirmed (tr_status r) then 1 else 0) @
     write_u64 (tr_datetime r) @ tr_txid r @
     vec_write (e_vec_sapling E) (write_note ma E write_sapling_crypto_note) (tr_sapling_notes r) @
     vec_write (e_vec_orchard E) (write_note ma E write_orchard_crypto_note) (tr_orchard_notes r) @
     vec_write (e_vec_transparent E) (write_transparent E) (tr_transparent_outputs r) @
     concat (map write_u64 (value_spent_by_pool r)) @
     vec_write (e_vec_outgoing E) (write_outgoing ma) (tr_outgoing_tx_data r) @
     write_u8 0 @
     opt_write (e_opt_u64 E) write_u64 (tr_price r) @
     vec_write (e_vec_bytes E) (\<lambda>n. n) (tr_spent_sapling_nullifiers r) @
     vec_write (e_vec_bytes E) (\<lambda>n. n) (tr_spent_orchard_nullifiers r)"

text \<open>The incremental witnesses that old notes carry go to the trees of the caller; here the notes
  are kept.\<close>

definition read_sapling_note ::
  "memo_api \<Rightarrow> 'w encodings \<Rightarrow> key_api \<Rightarrow> 'w reader \<Rightarrow> ('w \<Rightarrow> u64) \<Rightarrow> sapling_note reader" where
  "read_sapling_note ma E ka read_wit wit_position =
     rd_bind (read_note ma E read_wit wit_position (length sapling_deprecated_view_key_buffer)
                (read_sapling_crypto_note ka) (\<lambda>_. True)) (\<lambda>p. rd_return (fst p))"

definition read_orchard_note ::
  "memo_api \<Rightarrow> 'w encodings \<Rightarrow> key_api \<Rightarrow> 'w reader \<Rightarrow> ('w \<Rightarrow> u64) \<Rightarrow> orchard_note reader" where
  "read_orchard_note ma E ka read_wit wit_position =
     rd_bind (read_note ma E read_wit wit_position (length orchard_deprecated_view_key_buffer)
                (read_orchard_crypto_note ka) (ka_valid_orchard_nullifier ka)) (\<lambda>p. rd_return (fst p))"

text \<open>\<open>read_saplings\<close> and \<open>read_orchards\<close> read the vectors of notes with the witnesses pushed for the caller.\<close>

definition read_record_with ::
  "memo_api \<Rightarrow> 'w encodings \<Rightarrow> key_api \<Rightarrow> (sapling_note list \<times> 'x list) reader \<Rightarrow> (orchard_note list \<times> 'x list) reader \<Rightarrow>
   (transaction_record \<times> 'x list \<times> 'x list) reader" where
  "read_record_with ma E ka read_saplings read_orchards =
     rd_bind read_u64 (\<lambda>version.
     rd_bind read_u32 (\<lambda>block.
     rd_bind (if version \<le> 20 then rd_return False
              else rd_bind read_u8 (\<lambda>b. rd_return (b = 1))) (\<lambda>pending.
     rd_bind (if version \<ge> 4 then read_u64 else rd_return 0) (\<lambda>datetime.
     rd_bind (read_exact 32) (\<lambda>transaction_id.
     rd_bind read_saplings (\<lambda>(sapling_notes, sapling_wits).
     rd_bind (if version > 22 then read_orchards else rd_return ([], [])) (\<lambda>(orchard_notes, orchard_wits).
     rd_bind (vec_read (e_vec_transparent E) (read_transparent E ka)) (\<lambda>utxos.
     rd_bind read_u64 (\<lambda>total_transparent_value_spent.
     rd_bind read_u64 (\<lambda>total_sapling_value_spent.
     rd_bind (if version \<ge> 22 then read_u64 else rd_return 0) (\<lambda>total_orchard_value_spent.
     rd_bind (vec_read (e_vec_outgoing E) (read_outgoing ma ka)) (\<lambda>outgoing_metadata.
     rd_bind read_u8 (\<lambda>full_tx_scanned.
     rd_bind (if version \<le> 4 then rd_return None else opt_read (e_opt_u64 E) read_u64) (\<lambda>zec_price.
     rd_bind (if version \<le> 5 then rd_return []
              else vec_read (e_vec_bytes E) (read_exact 32)) (\<lambda>spent_sapling_nullifiers.
     rd_bind (if version \<le> 21 then rd_return []
              else vec_read (e_vec_bytes E) (read_nullifier (ka_valid_orchard_nullifier ka)))
       (\<lambda>spent_orchard_nullifiers.
     rd_return
       (\<lparr> tr_status = from_blockheight_and_pending_bool block pending, tr_datetime = datetime,
         tr_txid = transaction_id, tr_spent_sapling_nullifiers = spent_sapling_nullifiers,
         tr_spent_orchard_nullifiers = spent_orchard_nullifiers, tr_sapling_notes = sapling_notes,
         tr_orchard_notes = orchard_notes, tr_transparent_outputs = utxos,
         tr_total_transparent_value_spent = total_transparent_value_spent,
         tr_total_sapling_value_spent = total_sapling_value_spent,
         tr_total_orchard_value_spent = total_orchard_value_spent,
         tr_outgoing_tx_data = outgoing_metadata, tr_price = zec_price \<rparr>, sapling_wits, orchard_wits)))))))))))))))))"

definition no_witnesses :: "'a reader \<Rightarrow> ('a \<times> unit list) reader" where
  "no_witnesses r = rd_bind r (\<lambda>x. rd_return (x, []))"

definition read_record ::
  "memo_api \<Rightarrow> 'w encodings \<Rightarrow> key_api \<Rightarrow> 'w reader \<Rightarrow> ('w \<Rightarrow> u64) \<Rightarrow> transaction_record reader" where
  "read_record ma E ka read_wit wit_position =
     rd_bind (read_record_with ma E ka
         (no_witnesses (vec_read (e_vec_sapling E) (read_sapling_note ma E ka read_wit wit_position)))
         (no_witnesses (vec_read (e_vec_orchard E) (read_orchard_note ma E ka read_wit wit_position))))
       (\<lambda>(r, _). rd_return r)"

section \<open>Prices\<close>

record wallet_zec_price_info =
  zp_zec_price :: "(u64 \<times> f64_bits) option"
  zp_currency :: string
  zp_last_historical_prices_fetched_at :: "u64 option"
  zp_historical_prices_retry_count :: u64

definition default_price_info :: wallet_zec_price_info where
  "default_price_info =
     \<lparr> zp_zec_price = None, zp_currency = ''USD'', zp_last_historical_prices_fetched_at = None,
       zp_historical_prices_retry_count = 0 \<rparr>"

definition price_serialized_version :: u64 where
  "price_serialized_version = 20"

definition write_price_info :: "'w encodings \<Rightarrow> wallet_zec_price_info writer" where
  "write_price_info E p =
     write_u64 price_serialized_version @
     opt_write (e_opt_u64 E) write_u64 (zp_last_historical_prices_fetched_at p) @
     write_u64 (zp_historical_prices_retry_count p)"

definition read_price_info :: "'w encodings \<Rightarrow> wallet_zec_price_info reader" where
  "read_price_info E =
     rd_bind read_u64 (\<lambda>version.
     if version > price_serialized_version
     then rd_fail (InvalidData ''Can't read ZecPriceInfo because of incorrect version'')
     else
     rd_bind (opt_read (e_opt_u64 E) read_u64) (\<lambda>last.
     rd_bind read_u64 (\<lambda>count.
     rd_return \<lparr> zp_zec_price = None, zp_currency = ''USD'',
       zp_last_historical_prices_fetched_at = last,
       zp_historical_prices_retry_count = count \<rparr>)))"

section \<open>Witness cache\<close>

record 'w witness_cache =
  wc_witnesses :: "'w list"
  wc_top_height :: u64

definition new_witness_cache :: "'w list \<Rightarrow> u64 \<Rightarrow> 'w witness_cache" where
  "new_witness_cache witnesses top_height = \<lparr> wc_witnesses = witnesses, wc_top_height = top_height \<rparr>"

definition empty_witness_cache :: "'w witness_cache" where
  "empty_witness_cache = \<lparr> wc_witnesses = [], wc_top_height = 0 \<rparr>"

definition witness_cache_get :: "'w witness_cache \<Rightarrow> nat \<Rightarrow> 'w option" where
  "witness_cache_get c i = (if i < length (wc_witnesses c) then Some (wc_witnesses c ! i) else None)"

definition witness_cache_last :: "'w witness_cache \<Rightarrow> 'w option" where
  "witness_cache_last c = (if wc_witnesses c = [] then None else Some (last (wc_witnesses c)))"

definition witness_cache_len :: "'w witness_cache \<Rightarrow> nat" where
  "witness_cache_len c = length (wc_witnesses c)"

definition witness_cache_is_empty :: "'w witness_cache \<Rightarrow> bool" where
  "witness_cache_is_empty c \<longleftrightarrow> wc_witnesses c = []"

definition witness_cache_clear :: "'w witness_cache \<Rightarrow> 'w witness_cache" where
  "witness_cache_clear c = c\<lparr> wc_witnesses := [] \<rparr>"

text \<open>\<open>top_height -= 1\<close> at height 0 wraps in the release build.\<close>

function witness_cache_pop :: "u64 \<Rightarrow> 'w witness_cache \<Rightarrow> 'w witness_cache" where
  "witness_cache_pop at_height c =
     (if wc_witnesses c \<noteq> [] \<and> wc_top_height c \<ge> at_height
      then witness_cache_pop at_height
             \<lparr> wc_witnesses = butlast (wc_witnesses c), wc_top_height = wc_top_height c - 1 \<rparr>
      else c)"
  by pat_completeness auto
termination
  by (relation "measure (\<lambda>(_, c). length (wc_witnesses c))") auto

declare witness_cache_pop.simps [simp del]

section \<open>Block data\<close>

record block_data =
  bd_ecb :: "byte list"
  bd_height :: u64

definition block_data_serialized_version :: u64 where
  "block_data_serialized_version = 20"

text \<open>The protobuf encoding of a compact block that has only its hash, the hash of an encoded block
  and the empty commitment tree belong to other crates; the hash is taken as its bytes.\<close>

definition new_with :: "(byte list \<Rightarrow> byte list) \<Rightarrow> u64 \<Rightarrow> byte list \<Rightarrow> block_data" where
  "new_with encode_hash_block height hash = \<lparr> bd_ecb = encode_hash_block (rev hash), bd_height = height \<rparr>"

definition write_block_data ::
  "'w encodings \<Rightarrow> (byte list \<Rightarrow> byte list) \<Rightarrow> byte list \<Rightarrow> block_data writer" where
  "write_block_data E block_hash empty_tree b =
     write_u32 (ucast (bd_height b)) @ rev (block_hash (bd_ecb b)) @ empty_tree @
     write_u64 block_data_serialized_version @ vec_write (e_vec_byte E) write_u8 (bd_ecb b)"

text \<open>\<open>read_i32() as u64\<close> extends the sign.\<close>

definition read_block_data ::
  "'w encodings \<Rightarrow> (byte list \<Rightarrow> byte list) \<Rightarrow> unit reader \<Rightarrow> block_data reader" where
  "read_block_data E encode_hash_block read_tree =
     rd_bind read_u32 (\<lambda>height.
     rd_bind (read_exact 32) (\<lambda>hash_bytes.
     rd_bind read_tree (\<lambda>tree.
     rd_bind read_u64 (\<lambda>version.
     rd_bind (if version \<le> 11 then rd_return [] else vec_read (e_vec_byte E) read_u8) (\<lambda>ecb.
     rd_return (if ecb = [] then new_with encode_hash_block (scast height) (rev hash_bytes)
                else \<lparr> bd_ecb = ecb, bd_height = scast height \<rparr>))))))"

end
