(* ===== verification/Block_Management.thy ===== *)
theory Block_Management
  imports Tx_Map_Laws Wallet_Serialization
begin

text \<open>
  Downloaded blocks and the detection of chain reorganisations:
  \<open>blaze/block_management_reorg_detection.rs\<close>, \<open>blaze/fetch_compact_blocks.rs\<close>,
  \<open>blaze/sync_status.rs\<close>, the construction of stored blocks in \<open>wallet/data.rs\<close> and the split of a sync
  into batches in \<open>lightclient/sync.rs\<close>.

  Blocks are kept with the tallest first. The protobuf encoding of compact blocks and the printing
  of their hashes belong to other crates (\<open>block_codec\<close>). A result \<open>None\<close> is a panic. The fetcher and the
  reorganisation thread run concurrently over two unbounded channels, one for blocks and one for
  reorganisation signals: \<open>net_step\<close> is their interleaving. Methods that wait until a block has
  arrived are modelled from the moment it has.
\<close>

section \<open>Compact blocks\<close>

record compact_output =
  co_cmu :: "byte list"
  co_ephemeral_key :: "byte list"
  co_ciphertext :: "byte list"

record compact_action =
  ca_nullifier :: "byte list"
  ca_cmx :: "byte list"
  ca_ephemeral_key :: "byte list"
  ca_ciphertext :: "byte list"

record compact_tx =
  ct_index :: u64
  ct_hash :: "byte list"
  ct_spends :: "byte list list"
  ct_outputs :: "compact_output list"
  ct_actions :: "compact_action list"

record compact_block =
  cb_height :: u64
  cb_hash :: "byte list"
  cb_prev_hash :: "byte list"
  cb_time :: u32
  cb_header :: "byte list"
  cb_vtx :: "compact_tx list"

record block_codec =
  bc_encode :: "compact_block \<Rightarrow> byte list"
  bc_decode :: "byte list \<Rightarrow> compact_block option"
  bc_hash :: "compact_block \<Rightarrow> string"
  bc_prev_hash :: "compact_block \<Rightarrow> string"

definition strip_block :: "compact_block \<Rightarrow> compact_block" where
  "strip_block cb = cb\<lparr>
     cb_vtx := map (\<lambda>tx. tx\<lparr> ct_outputs :=
       map (\<lambda>co. co\<lparr> co_ciphertext := [], co_ephemeral_key := [] \<rparr>) (ct_outputs tx) \<rparr>) (cb_vtx cb),
     cb_header := [] \<rparr>"

definition block_data_new :: "block_codec \<Rightarrow> compact_block \<Rightarrow> block_data" where
  "block_data_new C cb =
     (let cb = strip_block cb in \<lparr> bd_ecb = bc_encode C cb, bd_height = cb_height cb \<rparr>)"

definition block_data_cb :: "block_codec \<Rightarrow> block_data \<Rightarrow> compact_block option" where
  "block_data_cb C b = bc_decode C (bd_ecb b)"

definition block_data_hash :: "block_codec \<Rightarrow> block_data \<Rightarrow> string option" where
  "block_data_hash C b = map_option (bc_hash C) (block_data_cb C b)"

section \<open>Sync status\<close>

record batch_sync_status =
  bs_in_progress :: bool
  bs_last_error :: "string option"
  bs_sync_id :: u64
  bs_start_block :: u64
  bs_end_block :: u64
  bs_blocks_done :: u64
  bs_trial_dec_done :: u64
  bs_txn_scan_done :: u64
  bs_witnesses_updated :: "(pool_nullifier \<times> u64) list"
  bs_blocks_total :: u64
  bs_batch_num :: u64
  bs_batch_total :: u64

definition start_new :: "u64 \<Rightarrow> batch_sync_status \<Rightarrow> batch_sync_status" where
  "start_new batch_total s = s\<lparr>
     bs_sync_id := bs_sync_id s + 1, bs_last_error := None, bs_in_progress := True,
     bs_blocks_done := 0, bs_trial_dec_done := 0, bs_blocks_total := 0, bs_txn_scan_done := 0,
     bs_witnesses_updated := [], bs_batch_num := 0, bs_batch_total := batch_total \<rparr>"

definition new_sync_batch :: "u64 \<Rightarrow> u64 \<Rightarrow> u64 \<Rightarrow> batch_sync_status \<Rightarrow> batch_sync_status" where
  "new_sync_batch start_block end_block batch_num s = s\<lparr>
     bs_in_progress := True, bs_last_error := None, bs_start_block := start_block,
     bs_end_block := end_block, bs_blocks_done := 0, bs_trial_dec_done := 0, bs_blocks_total := 0,
     bs_witnesses_updated := [], bs_txn_scan_done := 0, bs_batch_num := batch_num \<rparr>"

definition finish_sync :: "batch_sync_status \<Rightarrow> batch_sync_status" where
  "finish_sync s = s\<lparr> bs_in_progress := False \<rparr>"

section \<open>Block management data\<close>

record tree_state =
  ts_height :: u64
  ts_hash :: string
  ts_sapling_tree :: string
  ts_orchard_tree :: string

record block_management =
  bm_blocks_in_current_batch :: "block_data list"
  bm_existing_blocks :: "block_data list"
  bm_unverified_treestates :: "tree_state list"
  bm_batch_size :: u64
  bm_highest_verified_trees :: "tree_state option"
  bm_sync_status :: batch_sync_status

definition new_block_management :: "batch_sync_status \<Rightarrow> block_management" where
  "new_block_management s =
     \<lparr> bm_blocks_in_current_batch = [], bm_existing_blocks = [], bm_unverified_treestates = [],
       bm_batch_size = BATCH_SIZE, bm_highest_verified_trees = None, bm_sync_status = s \<rparr>"

definition setup_sync ::
  "block_data list \<Rightarrow> tree_state option \<Rightarrow> block_management \<Rightarrow> block_management option" where
  "setup_sync existing_blocks verified_tree bm =
     (if existing_blocks \<noteq> [] \<and> bd_height (hd existing_blocks) < bd_height (last existing_blocks)
      then None
      else Some (bm\<lparr> bm_unverified_treestates := [], bm_highest_verified_trees := verified_tree,
                     bm_blocks_in_current_batch := [], bm_existing_blocks := existing_blocks \<rparr>))"

definition drain_existingblocks_into_blocks_with_truncation ::
  "nat \<Rightarrow> block_management \<Rightarrow> block_management \<times> block_data list" where
  "drain_existingblocks_into_blocks_with_truncation num bm =
     (let blocks = take num (bm_blocks_in_current_batch bm @ bm_existing_blocks bm)
      in (bm\<lparr> bm_unverified_treestates := [], bm_existing_blocks := [],
               bm_blocks_in_current_batch := blocks \<rparr>, blocks))"

definition block_at :: "block_codec \<Rightarrow> block_data list \<Rightarrow> u64 \<Rightarrow> compact_block option" where
  "block_at C blocks height =
     (case blocks of
        [] \<Rightarrow> None
      | top_block # _ \<Rightarrow>
          (let pos = unat (bd_height top_block - height)
           in if pos < length blocks then block_data_cb C (blocks ! pos) else None))"

definition spends_nullifier :: "pool_nullifier \<Rightarrow> compact_tx \<Rightarrow> bool" where
  "spends_nullifier nf tx =
     (case nf of
        SaplingNullifier n \<Rightarrow> list_ex (\<lambda>cs. cs = n) (ct_spends tx)
      | OrchardNullifier n \<Rightarrow> list_ex (\<lambda>ca. ca_nullifier ca = n) (ct_actions tx))"

definition get_compact_transaction_for_nullifier_at_height ::
  "block_codec \<Rightarrow> pool_nullifier \<Rightarrow> u64 \<Rightarrow> block_management \<Rightarrow> (compact_tx \<times> u32) option" where
  "get_compact_transaction_for_nullifier_at_height C nf height bm =
     (case block_at C (bm_blocks_in_current_batch bm) height of
        None \<Rightarrow> None
      | Some cb \<Rightarrow> map_option (\<lambda>tx. (tx, cb_time cb)) (List.find (spends_nullifier nf) (cb_vtx cb)))"

definition get_block_timestamp ::
  "block_codec \<Rightarrow> block_height \<Rightarrow> block_management \<Rightarrow> u32 option" where
  "get_block_timestamp C height bm =
     map_option cb_time (block_at C (bm_blocks_in_current_batch bm) (ucast height))"

text \<open>The search runs over the positions \<open>pos, \<dots>, 0\<close>, from the given height upwards.\<close>

fun search_nf ::
  "block_codec \<Rightarrow> pool_nullifier \<Rightarrow> block_data list \<Rightarrow> nat list \<Rightarrow> u64 option option" where
  "search_nf C nf blocks [] = Some None"
| "search_nf C nf blocks (i # is) =
     (if i < length blocks
      then (case block_data_cb C (blocks ! i) of
              None \<Rightarrow> None
            | Some cb \<Rightarrow>
                if list_ex (spends_nullifier nf) (cb_vtx cb) then Some (Some (cb_height cb))
                else search_nf C nf blocks is)
      else None)"

definition is_nf_spent ::
  "block_codec \<Rightarrow> pool_nullifier \<Rightarrow> u64 \<Rightarrow> block_management \<Rightarrow> u64 option option" where
  "is_nf_spent C nf after_height bm =
     (case bm_blocks_in_current_batch bm of
        [] \<Rightarrow> None
      | top_block # _ \<Rightarrow>
          search_nf C nf (bm_blocks_in_current_batch bm)
            (rev [0 ..< unat (bd_height top_block - after_height + 1)]))"

definition invalidate_block ::
  "'t tree_ops \<Rightarrow> u64 \<Rightarrow> block_data list \<times> 't tx_map \<Rightarrow> (block_data list \<times> 't tx_map) option" where
  "invalidate_block ops reorg_height = (\<lambda>(existing_blocks, tm).
     case existing_blocks of
       [] \<Rightarrow> Some (existing_blocks, tm)
     | top_wallet_block # rest \<Rightarrow>
         if bd_height top_wallet_block \<noteq> reorg_height then None
         else map_option (Pair rest) (tm_invalidate_all_transactions_after_or_at_height ops reorg_height tm))"

section \<open>The reorganisation thread\<close>

record 't thread_data =
  td_blocks_in_current_batch :: "block_data list"
  td_existing_blocks :: "block_data list"
  td_blocks_done :: u64
  td_batch_size :: u64
  td_last_block_expecting :: u64
  td_unprocessed_blocks :: "block_data list"
  td_earliest_block_height :: "u64 option"
  td_tx_map :: "'t tx_map"

definition setup_for_threadspawn ::
  "u64 \<Rightarrow> u64 \<Rightarrow> 't tx_map \<Rightarrow> block_management \<Rightarrow> block_management \<times> 't thread_data" where
  "setup_for_threadspawn start_block end_block tm bm =
     (bm\<lparr> bm_sync_status := (bm_sync_status bm)\<lparr> bs_blocks_total := start_block - end_block + 1 \<rparr> \<rparr>,
      \<lparr> td_blocks_in_current_batch = bm_blocks_in_current_batch bm,
        td_existing_blocks = bm_existing_blocks bm,
        td_blocks_done = bs_blocks_done (bm_sync_status bm), td_batch_size = bm_batch_size bm,
        td_last_block_expecting = end_block, td_unprocessed_blocks = [],
        td_earliest_block_height = None, td_tx_map = tm \<rparr>)"

definition flush_blocks :: "'t thread_data \<Rightarrow> 't thread_data" where
  "flush_blocks td =
     (if td_unprocessed_blocks td \<noteq> []
      then td\<lparr> td_blocks_done := td_blocks_done td + word_of_nat (length (td_unprocessed_blocks td)),
               td_blocks_in_current_batch := td_blocks_in_current_batch td @ td_unprocessed_blocks td,
               td_unprocessed_blocks := [] \<rparr>
      else td)"

definition detect_reorg :: "block_codec \<Rightarrow> compact_block \<Rightarrow> 't thread_data \<Rightarrow> u64 option option" where
  "detect_reorg C cb td =
     (case td_existing_blocks td of
        [] \<Rightarrow> Some None
      | top_block # _ \<Rightarrow>
          map_option (\<lambda>hash. if hash = bc_prev_hash C cb then None else Some (bd_height top_block))
            (block_data_hash C top_block))"

text \<open>One round of the loop; the second component is what is sent on the reorganisation channel.\<close>

definition receive_block ::
  "block_codec \<Rightarrow> 't tree_ops \<Rightarrow> compact_block \<Rightarrow> 't thread_data \<Rightarrow>
   ('t thread_data \<times> u64 option list) option" where
  "receive_block C ops cb td =
     (if td_batch_size td = 0 then None
      else
        let td = (if cb_height cb mod td_batch_size td = 0 then flush_blocks td else td);
            keep = (\<lambda>td. td\<lparr> td_earliest_block_height := Some (cb_height cb),
                      td_unprocessed_blocks := td_unprocessed_blocks td @ [block_data_new C cb] \<rparr>)
        in if cb_height cb = td_last_block_expecting td
           then (case detect_reorg C cb td of
                   None \<Rightarrow> None
                 | Some None \<Rightarrow> Some (keep td, [None])
                 | Some (Some reorg_height) \<Rightarrow>
                     map_option (\<lambda>(existing, tm).
                        (keep (td\<lparr> td_existing_blocks := existing, td_tx_map := tm,
                                   td_last_block_expecting := reorg_height \<rparr>), [Some reorg_height]))
                       (invalidate_block ops reorg_height (td_existing_blocks td, td_tx_map td)))
           else Some (keep td, []))"

definition finish_thread :: "'t thread_data \<Rightarrow> 't thread_data \<times> u64 option" where
  "finish_thread td = (let td = flush_blocks td in (td, td_earliest_block_height td))"

section \<open>The fetcher\<close>

text \<open>The ranges that \<open>fetch_blocks_range\<close> asks for, as pairs of their first (highest) and last height.
  The code computes the end of a range in \<open>i64\<close>; heights are far below \<open>2 ^ 63\<close>, so the
  computation is exact and integers stand for it. \<open>step_by\<close> walks down from the start block.\<close>

definition STEP :: int where
  "STEP = 10000"

function fetch_blocks_range :: "int \<Rightarrow> int \<Rightarrow> string + (int \<times> int) list" where
  "fetch_blocks_range b end_block =
     (if b < end_block then Inr []
      else
        let range_end = max (b - STEP + 1) end_block
        in if b < range_end then Inl ''Wrong block order''
           else map_sum id (\<lambda>rs. (b, range_end) # rs) (fetch_blocks_range (b - STEP) end_block))"
  by pat_completeness auto
termination
  by (relation "measure (\<lambda>(b, e). nat (b - e + 1))") (auto simp: STEP_def)

declare fetch_blocks_range.simps [simp del]

text \<open>What the server is asked for, height by height: a range is delivered from its start down to its
  end.\<close>

definition range_heights :: "int \<times> int \<Rightarrow> int list" where
  "range_heights = (\<lambda>(a, b). rev [b..a])"

definition fetch_start :: "int \<Rightarrow> int \<Rightarrow> string + int list" where
  "fetch_start start_block end_block =
     (if start_block < end_block then Inl ''Expected blocks in reverse order''
      else map_sum id (\<lambda>rs. concat (map range_heights rs)) (fetch_blocks_range start_block end_block))"

section \<open>Fetcher and thread together\<close>

text \<open>The state of the two tasks: the heights the fetcher still has to fetch, whether it is still
  running, the two channels and the thread. A block is delivered for the height that was asked for;
  nothing else is assumed of the server, whose chain may change between two requests.\<close>

record 't net =
  nt_to_fetch :: "nat list"
  nt_fetching :: bool
  nt_blocks :: "compact_block list"
  nt_signals :: "u64 option list"
  nt_thread :: "'t thread_data"

inductive net_step :: "block_codec \<Rightarrow> 't tree_ops \<Rightarrow> 't net \<Rightarrow> 't net \<Rightarrow> bool" for C ops where
  fetch: "nt_to_fetch s = h # hs \<Longrightarrow> unat (cb_height cb) = h \<Longrightarrow>
    net_step C ops s (s\<lparr> nt_to_fetch := hs, nt_blocks := nt_blocks s @ [cb] \<rparr>)"
| receive: "nt_blocks s = cb # cbs \<Longrightarrow> receive_block C ops cb (nt_thread s) = Some (td, sent) \<Longrightarrow>
    net_step C ops s (s\<lparr> nt_blocks := cbs, nt_thread := td, nt_signals := nt_signals s @ sent \<rparr>)"
| reorg: "nt_fetching s \<Longrightarrow> nt_to_fetch s = [] \<Longrightarrow> nt_signals s = Some h # sigs \<Longrightarrow>
    net_step C ops s (s\<lparr> nt_to_fetch := [unat h], nt_signals := sigs \<rparr>)"
| stop: "nt_fetching s \<Longrightarrow> nt_to_fetch s = [] \<Longrightarrow> nt_signals s = None # sigs \<Longrightarrow>
    net_step C ops s (s\<lparr> nt_fetching := False, nt_signals := sigs \<rparr>)"

text \<open>The state when the tasks of a batch are started.\<close>

definition net_start :: "u64 \<Rightarrow> u64 \<Rightarrow> 't tx_map \<Rightarrow> block_management \<Rightarrow> nat list \<Rightarrow> 't net" where
  "net_start start_block end_block tm bm requested =
     \<lparr> nt_to_fetch = requested, nt_fetching = True, nt_blocks = [], nt_signals = [],
       nt_thread = snd (setup_for_threadspawn start_block end_block tm bm) \<rparr>"

section \<open>Batches of a sync\<close>

text \<open>The loop of \<open>start_sync\<close> that splits the heights to sync into batches; the sum \<open>prev + BATCH_SIZE\<close>
  does not overflow for heights.\<close>

function batches_from :: "nat \<Rightarrow> nat \<Rightarrow> nat list" where
  "batches_from latest prev =
     (if prev = latest then []
      else let batch = min latest (prev + unat BATCH_SIZE) in batch # batches_from latest batch)"
  by pat_completeness auto
termination
proof (relation "measure (\<lambda>(latest, prev). if prev \<le> latest then latest - prev else latest + 1)", goal_cases)
  case (2 latest prev batch)
  have "unat BATCH_SIZE = 100" by (simp add: BATCH_SIZE_def)
  with 2 show ?case by auto
qed simp

declare batches_from.simps [simp del]

definition latest_block_batches :: "nat \<Rightarrow> nat \<Rightarrow> nat list" where
  "latest_block_batches latest last_scanned_height =
     (let batch = min latest (last_scanned_height + unat BATCH_SIZE) in batch # batches_from latest batch)"

end
