(* ===== verification/Reorg_Protocol.thy ===== *)
theory Reorg_Protocol
  imports Block_Management
begin

text \<open>
  Correctness of the detection of reorganisations. \<open>net_inv\<close> is the invariant of the fetcher and the
  reorganisation thread: the heights received, in the channel and still to fetch are consecutive,
  at most one signal is under way, and the records are cut at the lowest reorganised height.
  \<open>net_weight\<close> decreases with every step. The documented behaviour of the block encoding is
  \<open>block_codec_ok\<close>; \<open>plain_codec\<close> is an encoding that has it.
\<close>

section \<open>Laws\<close>

definition heights :: "block_data list \<Rightarrow> nat list" where
  "heights bs = map (\<lambda>b. unat (bd_height b)) bs"

definition down :: "nat \<Rightarrow> nat \<Rightarrow> nat list" where
  "down a b = rev [b..<Suc a]"

lemma down_snoc: "b \<le> a \<Longrightarrow> down a b = down a (Suc b) @ [b]"
  by (simp add: down_def upt_conv_Cons)

lemma down_split:
  assumes "xs @ h # ys = down a b"
  shows "b \<le> h \<and> (h = b \<longleftrightarrow> ys = []) \<and> xs = down a (Suc h) \<and> (ys \<noteq> [] \<longrightarrow> last ys = b)"
proof -
  have r: "rev ys @ h # rev xs = [b..<Suc a]"
    using arg_cong [OF assms, of rev] by (simp add: down_def)
  then have h: "h = b + length ys"
    by (metis add.commute length_rev nth_append_length nth_upt length_append length_upt less_add_same_cancel1
        list.size(4) zero_less_Suc add_Suc_right less_diff_conv)
  have "rev xs = drop (Suc (length ys)) [b..<Suc a]" unfolding r [symmetric] by simp
  then have "rev xs = [Suc h..<Suc a]" using h by (simp add: drop_upt del: upt_Suc)
  then have "xs = rev [Suc h..<Suc a]" by (metis rev_rev_ident)
  moreover have "ys \<noteq> [] \<longrightarrow> last ys = b"
  proof
    assume "ys \<noteq> []"
    then have "hd (rev ys @ h # rev xs) = last ys" by (simp add: hd_append hd_rev)
    moreover have "b < Suc a" using r by (metis append_is_Nil_conv list.distinct(1) upt_rec)
    ultimately show "last ys = b" using r by (simp add: upt_rec)
  qed
  ultimately show ?thesis using h by (auto simp: down_def)
qed

definition received :: "'t thread_data \<Rightarrow> block_data list" where
  "received td = td_blocks_in_current_batch td @ td_unprocessed_blocks td"

lemma flush_blocks_simps [simp]:
  "received (flush_blocks td) = received td"
  "td_existing_blocks (flush_blocks td) = td_existing_blocks td"
  "td_tx_map (flush_blocks td) = td_tx_map td"
  "td_batch_size (flush_blocks td) = td_batch_size td"
  "td_last_block_expecting (flush_blocks td) = td_last_block_expecting td"
  by (auto simp: flush_blocks_def received_def)

lemma receive_block_received:
  assumes "receive_block C ops cb td = Some (td', sent)"
  shows "received td' = received td @ [block_data_new C cb] \<and> td_batch_size td' = td_batch_size td"
proof -
  let ?td = "if cb_height cb mod td_batch_size td = 0 then flush_blocks td else td"
  have "received ?td = received td" "td_batch_size ?td = td_batch_size td" by simp_all
  then show ?thesis using assms
    by (auto simp: receive_block_def Let_def received_def split: if_splits option.splits)
qed

lemma receive_block_cases:
  assumes "receive_block C ops cb td = Some (td', sent)"
  obtains
    (skip) "cb_height cb \<noteq> td_last_block_expecting td" "sent = []"
      "td_existing_blocks td' = td_existing_blocks td" "td_tx_map td' = td_tx_map td"
      "td_last_block_expecting td' = td_last_block_expecting td"
  | (joined) "cb_height cb = td_last_block_expecting td" "sent = [None]"
      "td_existing_blocks td' = td_existing_blocks td" "td_tx_map td' = td_tx_map td"
      "td_last_block_expecting td' = td_last_block_expecting td"
      "td_existing_blocks td = [] \<or> block_data_hash C (hd (td_existing_blocks td)) = Some (bc_prev_hash C cb)"
  | (reorged) b rest where "cb_height cb = td_last_block_expecting td" "sent = [Some (bd_height b)]"
      "td_existing_blocks td = b # rest" "td_existing_blocks td' = rest"
      "tm_invalidate_all_transactions_after_or_at_height ops (bd_height b) (td_tx_map td) = Some (td_tx_map td')"
      "td_last_block_expecting td' = bd_height b"
      "\<exists>h. block_data_hash C b = Some h \<and> h \<noteq> bc_prev_hash C cb"
proof -
  let ?td = "if cb_height cb mod td_batch_size td = 0 then flush_blocks td else td"
  have *: "td_existing_blocks ?td = td_existing_blocks td" "td_tx_map ?td = td_tx_map td"
    "td_last_block_expecting ?td = td_last_block_expecting td" by simp_all
  show thesis using assms
    by (auto simp: receive_block_def Let_def * detect_reorg_def invalidate_block_def
        split: if_splits option.splits list.splits intro: skip joined reorged)
qed

fun signal_weight :: "u64 option \<Rightarrow> nat" where
  "signal_weight None = 1"
| "signal_weight (Some _) = 4"

definition net_weight :: "'t net \<Rightarrow> nat" where
  "net_weight s = 3 * length (td_existing_blocks (nt_thread s)) + 3 * length (nt_to_fetch s) +
     2 * length (nt_blocks s) + sum_list (map signal_weight (nt_signals s))"

inductive_cases net_stepE: "net_step C ops s s'"

lemma net_step_weight: "net_step C ops s s' \<Longrightarrow> net_weight s' < net_weight s"
  by (erule net_stepE; (erule receive_block_cases)?) (auto simp: net_weight_def)

definition block_codec_ok :: "block_codec \<Rightarrow> bool" where
  "block_codec_ok C \<longleftrightarrow> (\<forall>cb. bc_decode C (bc_encode C cb) = Some cb) \<and>
     (\<forall>cb. bc_hash C (strip_block cb) = bc_hash C cb \<and> bc_prev_hash C (strip_block cb) = bc_prev_hash C cb)"

lemma block_data_new_simps:
  assumes "block_codec_ok C"
  shows "bd_height (block_data_new C cb) = cb_height cb"
    "block_data_cb C (block_data_new C cb) = Some (strip_block cb)"
  using assms by (simp_all add: block_data_new_def block_data_cb_def block_codec_ok_def Let_def strip_block_def)

definition joined :: "block_codec \<Rightarrow> block_data list \<Rightarrow> block_data list \<Rightarrow> bool" where
  "joined C bs existing \<longleftrightarrow> existing = [] \<or>
     (bs \<noteq> [] \<and> (\<exists>cb. block_data_cb C (last bs) = Some cb \<and>
        block_data_hash C (hd existing) = Some (bc_prev_hash C cb)))"

definition records_cut :: "nat \<Rightarrow> records \<Rightarrow> nat \<Rightarrow> records \<Rightarrow> bool" where
  "records_cut end0 m0 e m \<longleftrightarrow> records_wf m \<and>
     (if e = end0 then m = m0
      else (\<forall>k r. hm_get m k = Some r \<longrightarrow> unat (get_height (tr_status r)) < e) \<and>
           (\<forall>k r. hm_get m0 k = Some r \<and> unat (get_height (tr_status r)) < e \<longrightarrow>
              (\<exists>r'. hm_get m k = Some r' \<and> tr_status r' = tr_status r)))"

definition net_phase :: "block_codec \<Rightarrow> nat \<Rightarrow> nat list \<Rightarrow> bool \<Rightarrow> compact_block list \<Rightarrow> u64 option list \<Rightarrow> 't thread_data \<Rightarrow> bool" where
  "net_phase C start hs fetching cbs sigs td =
     (let e = unat (td_last_block_expecting td); got = heights (received td) in
      if sigs = [] \<and> fetching then
        (cbs \<noteq> [] \<or> hs \<noteq> []) \<and> got @ map (\<lambda>cb. unat (cb_height cb)) cbs @ hs = down start e
      else cbs = [] \<and> hs = [] \<and>
        (if sigs = [Some (td_last_block_expecting td)] then fetching \<and> got = down start (Suc e)
         else got = down start e \<and> joined C (received td) (td_existing_blocks td) \<and>
              (if fetching then sigs = [None] else sigs = [])))"

definition net_inv :: "block_codec \<Rightarrow> nat \<Rightarrow> nat \<Rightarrow> nat \<Rightarrow> records \<Rightarrow> 't net \<Rightarrow> bool" where
  "net_inv C start end0 k0 m0 s \<longleftrightarrow>
     (let td = nt_thread s; e = unat (td_last_block_expecting td) in
      e \<le> end0 \<and> end0 \<le> start \<and> start < 2 ^ 32 \<and> td_batch_size td \<noteq> 0 \<and>
      list_all (\<lambda>b. block_data_cb C b \<noteq> None) (td_existing_blocks td) \<and>
      k0 \<le> e \<and> heights (td_existing_blocks td) = rev [k0..<e] \<and>
      records_cut end0 m0 e (tm_records (td_tx_map td)) \<and>
      net_phase C start (nt_to_fetch s) (nt_fetching s) (nt_blocks s) (nt_signals s) td)"

lemma tm_invalidate_records:
  "tm_invalidate_all_transactions_after_or_at_height ops h tm = Some tm' \<Longrightarrow>
   tm_records tm' = invalidate_all_transactions_after_or_at_height (ucast h) (tm_records tm)"
  by (auto simp: tm_invalidate_all_transactions_after_or_at_height_def Let_def
      dest: arg_cong [where f = "map_option tm_records"])

lemma unat_ucast_small: "unat (h :: u64) < 2 ^ 32 \<Longrightarrow> unat (ucast h :: u32) = unat h"
  by (simp add: unsigned_ucast_eq take_bit_nat_eq_self)

lemma records_cut_reorg:
  fixes h :: u64
  assumes "records_cut end0 m0 e m" "unat h < e" "e \<le> end0" "unat h < 2 ^ 32"
  shows "records_cut end0 m0 (unat h) (invalidate_all_transactions_after_or_at_height (ucast h) m)"
proof -
  have wf: "records_wf m" using assms(1) by (simp add: records_cut_def)
  obtain txids where ts: "set txids = {k. \<exists>r. hm_get m k = Some r \<and> ucast h \<le> get_height (tr_status r)}"
    and m': "invalidate_all_transactions_after_or_at_height (ucast h) m = invalidate_transactions txids m"
    using reorg_get [OF wf] by blast
  have le: "ucast h \<le> x \<longleftrightarrow> unat h \<le> unat x" for x :: u32
    using unat_ucast_small [OF assms(4)] by (simp add: word_le_nat_alt)
  have kept: "\<exists>r'. hm_get m k = Some r' \<and> tr_status r' = tr_status r"
    if "hm_get m0 k = Some r" "unat (get_height (tr_status r)) < unat h" for k r
    using assms(1,2) that by (cases "e = end0") (auto simp: records_cut_def)
  have "\<exists>r''. hm_get (invalidate_transactions txids m) k = Some r'' \<and> tr_status r'' = tr_status r"
    if r: "hm_get m0 k = Some r" "unat (get_height (tr_status r)) < unat h" for k r
  proof -
    obtain r' where "hm_get m k = Some r'" "tr_status r' = tr_status r" using kept [OF r] by blast
    moreover from this have "k \<notin> set txids" using r(2) by (auto simp: ts le)
    ultimately show ?thesis using invalidated_keeps [of m k r' txids] by auto
  qed
  moreover have "unat (get_height (tr_status r)) < unat h"
    if "hm_get (invalidate_transactions txids m) k = Some r" for k r
    using that by (fastforce simp: hm_get_invalidate ts le split: if_splits)
  ultimately show ?thesis
    using assms(2,3) records_wf_invalidate [OF wf] by (simp add: records_cut_def m')
qed

lemma heights_simps [simp]:
  "heights [] = []" "heights (b # bs) = unat (bd_height b) # heights bs"
  "heights (bs @ bs') = heights bs @ heights bs'"
  by (simp_all add: heights_def)

lemma existing_top:
  assumes "k \<le> e" "heights (b # rest) = rev [k..<e]"
  shows "unat (bd_height b) = e - 1 \<and> 0 < e \<and> k \<le> e - 1 \<and> heights rest = rev [k..<e - 1]"
proof -
  have "k < e" using assms by (cases "k < e") auto
  then obtain e' where "e = Suc e'" "k \<le> e'" by (cases e) auto
  then show ?thesis using assms by simp
qed

lemma net_inv_phase:
  "net_inv C start end0 k0 m0 s \<Longrightarrow>
   net_phase C start (nt_to_fetch s) (nt_fetching s) (nt_blocks s) (nt_signals s) (nt_thread s)"
  by (simp add: net_inv_def Let_def)

lemma net_inv_update:
  assumes "net_inv C start end0 k0 m0 s" "nt_thread s' = nt_thread s"
    and "net_phase C start (nt_to_fetch s') (nt_fetching s') (nt_blocks s') (nt_signals s') (nt_thread s')"
  shows "net_inv C start end0 k0 m0 s'"
  using assms unfolding net_inv_def Let_def by simp

lemma net_phase_busy:
  assumes "net_phase C start hs fetching cbs sigs td" "cbs \<noteq> [] \<or> hs \<noteq> []"
  shows "sigs = [] \<and> fetching \<and> heights (received td) @ map (\<lambda>cb. unat (cb_height cb)) cbs @ hs =
    down start (unat (td_last_block_expecting td))"
  using assms by (cases "sigs = [] \<and> fetching") (auto simp: net_phase_def Let_def)

lemma net_inv_receive:
  assumes codec: "block_codec_ok C" and inv: "net_inv C start end0 k0 m0 s"
    and blk: "nt_blocks s = cb # cbs" and rcv: "receive_block C ops cb (nt_thread s) = Some (td, sent)"
  shows "net_inv C start end0 k0 m0 (s\<lparr> nt_blocks := cbs, nt_thread := td, nt_signals := nt_signals s @ sent \<rparr>)"
proof -
  let ?td = "nt_thread s" and ?h = "unat (cb_height cb)"
  let ?e = "unat (td_last_block_expecting ?td)" and ?hs = "map (\<lambda>cb. unat (cb_height cb)) cbs @ nt_to_fetch s"
  have ph: "nt_signals s = []" "nt_fetching s" "heights (received ?td) @ ?h # ?hs = down start ?e"
    using net_phase_busy [OF net_inv_phase [OF inv]] blk by simp_all
  note sp = down_split [OF ph(3)]
  have got: "heights (received td) = heights (received ?td) @ [?h]" and bsz: "td_batch_size td = td_batch_size ?td"
    and lst: "last (received td) = block_data_new C cb" "received td \<noteq> []"
    using receive_block_received [OF rcv] by (auto simp: block_data_new_simps [OF codec])
  have e: "?e \<le> end0" "end0 \<le> start" "start < 2 ^ 32" and dec: "list_all (\<lambda>b. block_data_cb C b \<noteq> None) (td_existing_blocks ?td)"
    and cut: "records_cut end0 m0 ?e (tm_records (td_tx_map ?td))" and b0: "td_batch_size ?td \<noteq> 0"
    using inv by (simp_all add: net_inv_def Let_def)
  have k: "k0 \<le> ?e" "heights (td_existing_blocks ?td) = rev [k0..<?e]"
    using inv by (simp_all add: net_inv_def Let_def)
  from rcv show ?thesis
  proof (cases rule: receive_block_cases)
    case skip
    then have "?h \<noteq> ?e" by (simp add: unat_arith_simps word_unat_eq_iff)
    then have "?hs \<noteq> []" using sp by blast
    then have "net_phase C start (nt_to_fetch s) True cbs [] td"
      using ph(3) got skip(5) by (auto simp: net_phase_def Let_def)
    then show ?thesis using skip e dec k cut b0 ph(1,2) bsz
      unfolding net_inv_def Let_def by auto
  next
    case joined
    then have "?h = ?e" by simp
    then have "?hs = []" "heights (received ?td) = down start (Suc ?e)" using sp by auto
    moreover have "joined C (received td) (td_existing_blocks td)"
      using joined lst codec by (auto simp: joined_def block_data_new_simps [OF codec] block_codec_ok_def)
    ultimately have "net_phase C start (nt_to_fetch s) True cbs [None] td"
      using got e joined(5) \<open>?h = ?e\<close> down_snoc [of ?e start] by (simp add: net_phase_def Let_def)
    then show ?thesis using joined e dec k cut b0 ph(1,2) bsz
      unfolding net_inv_def Let_def by auto
  next
    case (reorged b rest)
    then have "?h = ?e" by simp
    then have r: "?hs = []" "heights (received ?td) = down start (Suc ?e)" using sp by auto
    have top: "unat (bd_height b) = ?e - 1" "0 < ?e" "k0 \<le> ?e - 1" "heights rest = rev [k0..<?e - 1]"
      using existing_top [of k0 ?e b rest] k reorged(3) by auto
    have "heights (received td) = down start (Suc (unat (bd_height b)))"
      using r got \<open>?h = ?e\<close> top e down_snoc [of ?e start] by simp
    then have "net_phase C start (nt_to_fetch s) True cbs [Some (bd_height b)] td"
      using r reorged(6) by (simp add: net_phase_def Let_def)
    moreover have "records_cut end0 m0 (unat (bd_height b)) (tm_records (td_tx_map td))"
      using records_cut_reorg [OF cut, of "bd_height b"] tm_invalidate_records [OF reorged(5)] top e by simp
    ultimately show ?thesis using reorged e dec b0 ph(1,2) top bsz
      unfolding net_inv_def Let_def by auto
  qed
qed

lemma net_inv_fetch:
  assumes "nt_to_fetch s = h # hs" "unat (cb_height cb) = h" "net_inv C start end0 k0 m0 s"
  shows "net_inv C start end0 k0 m0 (s\<lparr> nt_to_fetch := hs, nt_blocks := nt_blocks s @ [cb] \<rparr>)"
  using assms(3)
proof (rule net_inv_update)
  show "net_phase C start (nt_to_fetch (s\<lparr> nt_to_fetch := hs, nt_blocks := nt_blocks s @ [cb] \<rparr>))
     (nt_fetching (s\<lparr> nt_to_fetch := hs, nt_blocks := nt_blocks s @ [cb] \<rparr>))
     (nt_blocks (s\<lparr> nt_to_fetch := hs, nt_blocks := nt_blocks s @ [cb] \<rparr>))
     (nt_signals (s\<lparr> nt_to_fetch := hs, nt_blocks := nt_blocks s @ [cb] \<rparr>))
     (nt_thread (s\<lparr> nt_to_fetch := hs, nt_blocks := nt_blocks s @ [cb] \<rparr>))"
    using net_phase_busy [OF net_inv_phase [OF assms(3)]] assms(1,2) by (simp add: net_phase_def Let_def)
qed simp

lemma net_inv_reorg:
  assumes "nt_to_fetch s = []" "nt_fetching s" "nt_signals s = Some h # sigs" "net_inv C start end0 k0 m0 s"
  shows "net_inv C start end0 k0 m0 (s\<lparr> nt_to_fetch := [unat h], nt_signals := sigs \<rparr>)"
proof -
  have st: "unat (td_last_block_expecting (nt_thread s)) \<le> start" using assms(4) by (auto simp: net_inv_def Let_def)
  have "nt_blocks s = [] \<and> sigs = [] \<and> h = td_last_block_expecting (nt_thread s) \<and>
    heights (received (nt_thread s)) = down start (Suc (unat h))"
  proof (cases "nt_signals s = [Some (td_last_block_expecting (nt_thread s))]")
    case True
    then show ?thesis using net_inv_phase [OF assms(4)] assms(1-3) unfolding net_phase_def Let_def by simp
  next
    case False
    then show ?thesis using net_inv_phase [OF assms(4)] assms(1-3) unfolding net_phase_def Let_def by simp
  qed
  then have "net_phase C start [unat h] True (nt_blocks s) sigs (nt_thread s)"
    using st down_snoc [of "unat h" start] by (simp add: net_phase_def Let_def)
  then show ?thesis using assms(2) by (intro net_inv_update [OF assms(4)]) simp_all
qed

lemma net_inv_stop:
  assumes "nt_to_fetch s = []" "nt_fetching s" "nt_signals s = None # sigs" "net_inv C start end0 k0 m0 s"
  shows "net_inv C start end0 k0 m0 (s\<lparr> nt_fetching := False, nt_signals := sigs \<rparr>)"
proof -
  have "net_phase C start [] False (nt_blocks s) sigs (nt_thread s)"
    using net_inv_phase [OF assms(4)] assms(1-3) by (simp add: net_phase_def Let_def)
  then show ?thesis using assms(1) by (intro net_inv_update [OF assms(4)]) simp_all
qed

lemma net_inv_step:
  assumes "block_codec_ok C" "net_step C ops s s'" "net_inv C start end0 k0 m0 s"
  shows "net_inv C start end0 k0 m0 s'"
  using assms(2,3)
proof (induction rule: net_step.induct)
  case (receive s cb cbs td sent)
  then show ?case using net_inv_receive [OF assms(1)] by blast
qed (simp_all add: net_inv_fetch net_inv_reorg net_inv_stop)

lemma net_inv_reachable:
  assumes "block_codec_ok C" "(net_step C ops)\<^sup>*\<^sup>* s s'" "net_inv C start end0 k0 m0 s"
  shows "net_inv C start end0 k0 m0 s'"
  using assms(2,3) by (induction rule: rtranclp_induct) (auto intro: net_inv_step [OF assms(1)])

lemma net_not_stuck:
  assumes "net_inv C start end0 k0 m0 s" "nt_fetching s"
    and "\<And>h tm. tm_invalidate_all_transactions_after_or_at_height ops h tm \<noteq> None"
  shows "\<exists>s'. net_step C ops s s'"
proof (cases "nt_to_fetch s")
  case (Cons h hs)
  have "h \<in> set (down start (unat (td_last_block_expecting (nt_thread s))))"
    using net_phase_busy [OF net_inv_phase [OF assms(1)]] Cons by (metis UnCI list.set_intros(1) list.simps(3) set_append)
  then have "h < 2 ^ 32" using assms(1) by (auto simp: down_def net_inv_def Let_def)
  then have "unat (cb_height \<lparr> cb_height = word_of_nat h, cb_hash = [], cb_prev_hash = [], cb_time = 0,
      cb_header = [], cb_vtx = [] \<rparr>) = h" by (simp add: unat_of_nat take_bit_nat_eq_self)
  then show ?thesis using net_step.fetch [OF Cons] by blast
next
  case Nil
  show ?thesis
  proof (cases "nt_blocks s")
    case (Cons cb cbs)
    have ok: "list_all (\<lambda>b. block_data_cb C b \<noteq> None) (td_existing_blocks (nt_thread s))"
      "td_batch_size (nt_thread s) \<noteq> 0"
      using assms(1) by (simp_all add: net_inv_def Let_def)
    let ?td = "if cb_height cb mod td_batch_size (nt_thread s) = 0 then flush_blocks (nt_thread s) else nt_thread s"
    have ex: "td_existing_blocks ?td = td_existing_blocks (nt_thread s)" by simp
    have "receive_block C ops cb (nt_thread s) \<noteq> None"
      using ok assms(3) unfolding receive_block_def Let_def
      by (auto simp: detect_reorg_def invalidate_block_def block_data_hash_def ex split: list.splits option.splits)
    then show ?thesis using net_step.receive [OF Cons] by fastforce
  next
    case Nil': Nil
    then have "nt_signals s = [None] \<or> nt_signals s = [Some (td_last_block_expecting (nt_thread s))]"
      using net_inv_phase [OF assms(1)] Nil assms(2) unfolding net_phase_def Let_def by (simp split: if_splits)
    then show ?thesis using net_step.stop [OF assms(2) Nil] net_step.reorg [OF assms(2) Nil] by blast
  qed
qed

lemma fetch_blocks_range_heights:
  assumes "end_block \<le> b + STEP"
  shows "\<exists>rs. fetch_blocks_range b end_block = Inr rs \<and> concat (map range_heights rs) = rev [end_block..b]"
  using assms
proof (induction b end_block rule: fetch_blocks_range.induct)
  case (1 b end_block)
  have S: "STEP = 10000" by (rule STEP_def)
  show ?case
  proof (cases "b < end_block")
    case True
    then show ?thesis by (simp add: fetch_blocks_range.simps)
  next
    case False
    let ?c = "max (b - STEP + 1) end_block"
    have "end_block \<le> ?c" "?c \<le> b + 1" "\<not> b < ?c" using False S by auto
    then obtain rs where rs: "fetch_blocks_range (b - STEP) end_block = Inr rs"
      "concat (map range_heights rs) = rev [end_block..b - STEP]"
      using 1 False by auto
    have "[end_block..b] = [end_block..?c - 1] @ [?c..b]"
      using False S by (intro upto_split1) auto
    moreover have "[end_block..?c - 1] = [end_block..b - STEP]"
      by (cases "b - STEP + 1 \<le> end_block") (auto simp: max_def)
    ultimately show ?thesis
      using False rs S by (subst fetch_blocks_range.simps) (simp add: Let_def range_heights_def)
  qed
qed

lemma down_conv_upto: "map nat (rev [int b..int a]) = down a b"
proof -
  have "map nat [int b..int a] = [b..<Suc a]"
    by (rule nth_equalityI) (auto simp: nth_upto simp del: upt_Suc)
  then show ?thesis by (simp add: down_def rev_map [symmetric] del: upt_Suc)
qed

lemma net_start_inv:
  assumes "unat end_block \<le> unat start_block" "unat start_block < 2 ^ 32"
    and "bm_blocks_in_current_batch bm = []" "bm_batch_size bm \<noteq> 0"
    and "list_all (\<lambda>b. block_data_cb C b \<noteq> None) (bm_existing_blocks bm)"
    and "k \<le> unat end_block" "heights (bm_existing_blocks bm) = rev [k..<unat end_block]"
    and "records_wf (tm_records tm)"
  shows "net_inv C (unat start_block) (unat end_block) k (tm_records tm)
     (net_start start_block end_block tm bm (down (unat start_block) (unat end_block)))"
  using assms
  by (simp add: net_inv_def net_start_def setup_for_threadspawn_def records_cut_def net_phase_def Let_def
      received_def down_snoc)

lemma finish_thread_blocks:
  "td_blocks_in_current_batch (fst (finish_thread td)) = received td"
  "td_existing_blocks (fst (finish_thread td)) = td_existing_blocks td"
  "td_tx_map (fst (finish_thread td)) = td_tx_map td"
  by (auto simp: finish_thread_def Let_def flush_blocks_def received_def)

lemma net_inv_done:
  assumes "net_inv C start end0 k0 m0 s" "\<not> nt_fetching s"
  shows "let td = nt_thread s; e = unat (td_last_block_expecting td) in
     k0 \<le> e \<and> e \<le> end0 \<and> heights (received td) = down start e \<and> heights (td_existing_blocks td) = rev [k0..<e] \<and>
     joined C (received td) (td_existing_blocks td) \<and> records_cut end0 m0 e (tm_records (td_tx_map td))"
proof -
  let ?td = "nt_thread s"
  have "heights (received ?td) = down start (unat (td_last_block_expecting ?td)) \<and> joined C (received ?td) (td_existing_blocks ?td)"
    using net_inv_phase [OF assms(1)] assms(2) unfolding net_phase_def Let_def by (simp split: if_splits)
  then show ?thesis using assms(1) unfolding net_inv_def Let_def by blast
qed

lemma down_append: "e \<le> Suc a \<Longrightarrow> k \<le> e \<Longrightarrow> down a e @ rev [k..<e] = down a k"
proof -
  assume "e \<le> Suc a" "k \<le> e"
  then have "[k..<Suc a] = [k..<e] @ [e..<Suc a]" using upt_add_eq_append [of k e "Suc a - e"] by simp
  then show ?thesis by (simp add: down_def del: upt_Suc)
qed

lemma batches_from_eq:
  assumes "prev \<le> latest"
  shows "batches_from latest prev =
    map (\<lambda>i. min latest (prev + 100 * Suc i)) [0..<(latest - prev + 99) div 100]"
  using assms
proof (induction latest prev rule: batches_from.induct)
  case (1 latest prev)
  have B: "unat BATCH_SIZE = 100" by (simp add: BATCH_SIZE_def)
  show ?case
  proof (cases "prev = latest")
    case True
    then show ?thesis by (simp add: batches_from.simps)
  next
    case False
    let ?p = "min latest (prev + 100)"
    have ih: "batches_from latest ?p =
      map (\<lambda>i. min latest (?p + 100 * Suc i)) [0..<(latest - ?p + 99) div 100]"
      using 1(1) [OF False refl] B by simp
    have n: "(latest - prev + 99) div 100 = Suc ((latest - ?p + 99) div 100)"
      using False 1(2) by (auto simp: min_def)
    have "min latest (?p + 100 * Suc i) = min latest (prev + 100 * Suc (Suc i))" for i
      by (auto simp: min_def)
    then show ?thesis
      using False ih B unfolding n by (subst batches_from.simps) (simp add: Let_def upt_conv_Cons map_Suc_upt [symmetric] del: upt_Suc)
  qed
qed

section \<open>A concrete encoding of blocks\<close>

definition items_write :: "'a writer \<Rightarrow> 'a list writer" where
  "items_write w xs = concat (map (\<lambda>x. 1 # w x) xs) @ [0]"

fun items_read :: "nat \<Rightarrow> 'a reader \<Rightarrow> 'a list reader" where
  "items_read 0 r = rd_fail UnexpectedEof"
| "items_read (Suc n) r = rd_bind read_u8 (\<lambda>tag.
     if tag = 0 then rd_return []
     else rd_bind r (\<lambda>x. rd_bind (items_read n r) (\<lambda>xs. rd_return (x # xs))))"

definition list_read :: "'a reader \<Rightarrow> 'a list reader" where
  "list_read r = (\<lambda>bs. items_read (length bs) r bs)"

lemma items_read_write:
  assumes "\<And>x rest. r (w x @ rest) = Rd_Ok x rest"
  shows "length xs < n \<Longrightarrow> items_read n r (items_write w xs @ rest) = Rd_Ok xs rest"
proof (induction xs arbitrary: n)
  case Nil
  then show ?case by (cases n) (simp_all add: items_write_def rd_bind_apply)
next
  case (Cons x xs)
  then obtain m where "n = Suc m" "length xs < m" by (cases n) auto
  then show ?case using Cons.IH [of m] assms by (simp add: items_write_def rd_bind_apply)
qed

lemma list_read_write:
  assumes "\<And>x rest. r (w x @ rest) = Rd_Ok x rest"
  shows "list_read r (items_write w xs @ rest) = Rd_Ok xs rest"
proof -
  have "length xs \<le> length (concat (map (\<lambda>x. 1 # w x) xs))" by (induction xs) auto
  then have "length xs < length (items_write w xs @ rest)" by (simp add: items_write_def)
  then show ?thesis using items_read_write [of r w, OF assms] by (simp add: list_read_def)
qed

abbreviation bytes_write :: "byte list writer" where "bytes_write \<equiv> items_write write_u8"

abbreviation bytes_read :: "byte list reader" where "bytes_read \<equiv> list_read read_u8"

lemma bytes_read_write [simp]: "bytes_read (bytes_write bs @ rest) = Rd_Ok bs rest"
  by (rule list_read_write) simp

definition output_write :: "compact_output writer" where
  "output_write o' = bytes_write (co_cmu o') @ bytes_write (co_ephemeral_key o') @ bytes_write (co_ciphertext o')"

definition output_read :: "compact_output reader" where
  "output_read = rd_bind bytes_read (\<lambda>a. rd_bind bytes_read (\<lambda>b. rd_bind bytes_read (\<lambda>c.
     rd_return \<lparr> co_cmu = a, co_ephemeral_key = b, co_ciphertext = c \<rparr>)))"

definition action_write :: "compact_action writer" where
  "action_write a = bytes_write (ca_nullifier a) @ bytes_write (ca_cmx a) @
     bytes_write (ca_ephemeral_key a) @ bytes_write (ca_ciphertext a)"

definition action_read :: "compact_action reader" where
  "action_read = rd_bind bytes_read (\<lambda>a. rd_bind bytes_read (\<lambda>b. rd_bind bytes_read (\<lambda>c. rd_bind bytes_read (\<lambda>d.
     rd_return \<lparr> ca_nullifier = a, ca_cmx = b, ca_ephemeral_key = c, ca_ciphertext = d \<rparr>))))"

definition tx_write :: "compact_tx writer" where
  "tx_write t = write_u64 (ct_index t) @ bytes_write (ct_hash t) @ items_write bytes_write (ct_spends t) @
     items_write output_write (ct_outputs t) @ items_write action_write (ct_actions t)"

definition tx_read :: "compact_tx reader" where
  "tx_read = rd_bind read_u64 (\<lambda>i. rd_bind bytes_read (\<lambda>h. rd_bind (list_read bytes_read) (\<lambda>s.
     rd_bind (list_read output_read) (\<lambda>os. rd_bind (list_read action_read) (\<lambda>as.
     rd_return \<lparr> ct_index = i, ct_hash = h, ct_spends = s, ct_outputs = os, ct_actions = as \<rparr>)))))"

definition block_write :: "compact_block writer" where
  "block_write b = write_u64 (cb_height b) @ bytes_write (cb_hash b) @ bytes_write (cb_prev_hash b) @
     write_u32 (cb_time b) @ bytes_write (cb_header b) @ items_write tx_write (cb_vtx b)"

definition block_read :: "compact_block reader" where
  "block_read = rd_bind read_u64 (\<lambda>h. rd_bind bytes_read (\<lambda>hs. rd_bind bytes_read (\<lambda>p.
     rd_bind read_u32 (\<lambda>t. rd_bind bytes_read (\<lambda>hd. rd_bind (list_read tx_read) (\<lambda>v.
     rd_return \<lparr> cb_height = h, cb_hash = hs, cb_prev_hash = p, cb_time = t, cb_header = hd, cb_vtx = v \<rparr>))))))"

interpretation output_codec: codec output_write output_read
  by unfold_locales (simp add: output_write_def output_read_def rd_bind_apply)

interpretation action_codec: codec action_write action_read
  by unfold_locales (simp add: action_write_def action_read_def rd_bind_apply)

interpretation compact_tx_codec: codec tx_write tx_read
  by unfold_locales (simp add: tx_write_def tx_read_def rd_bind_apply list_read_write
      output_codec.dec_enc action_codec.dec_enc)

interpretation compact_block_codec: codec block_write block_read
  by unfold_locales (simp add: block_write_def block_read_def rd_bind_apply list_read_write
      compact_tx_codec.dec_enc)

definition plain_codec :: block_codec where
  "plain_codec = \<lparr> bc_encode = block_write,
     bc_decode = (\<lambda>bs. case block_read bs of Rd_Ok cb _ \<Rightarrow> Some cb | _ \<Rightarrow> None),
     bc_hash = (\<lambda>cb. bytes_string (cb_hash cb)), bc_prev_hash = (\<lambda>cb. bytes_string (cb_prev_hash cb)) \<rparr>"

lemma plain_codec_ok: "block_codec_ok plain_codec"
  by (simp add: block_codec_ok_def plain_codec_def compact_block_codec.dec_whole strip_block_def)

definition plain_block :: "u64 \<Rightarrow> byte \<Rightarrow> byte \<Rightarrow> compact_block" where
  "plain_block h hash prev = \<lparr> cb_height = h, cb_hash = [hash], cb_prev_hash = [prev], cb_time = 0,
     cb_header = [], cb_vtx = [] \<rparr>"

lemma requested_heights:
  assumes "unat end_block \<le> unat start_block" "fetch_start (uint start_block) (uint end_block) = Inr requested"
  shows "map nat requested = down (unat start_block) (unat end_block)"
  using assms fetch_blocks_range_heights [of "uint end_block" "uint start_block"]
    down_conv_upto [of "unat end_block" "unat start_block"]
  by (auto simp: fetch_start_def STEP_def split: if_splits)

lemma net_terminates:
  assumes "block_codec_ok C" "\<And>h tm. tm_invalidate_all_transactions_after_or_at_height ops h tm \<noteq> None"
  shows "net_inv C start end0 k0 m0 s \<Longrightarrow> \<exists>s'. (net_step C ops)\<^sup>*\<^sup>* s s' \<and> \<not> nt_fetching s'"
proof (induction "net_weight s" arbitrary: s rule: less_induct)
  case less
  show ?case
  proof (cases "nt_fetching s")
    case True
    then obtain s1 where s1: "net_step C ops s s1" using net_not_stuck [OF less.prems _ assms(2)] by blast
    with net_inv_step [OF assms(1) s1 less.prems] net_step_weight [OF s1] less.hyps
    show ?thesis by (meson converse_rtranclp_into_rtranclp)
  qed blast
qed

lemma treeless_invalidate:
  "tm_spending_data tm = None \<Longrightarrow> tm_invalidate_all_transactions_after_or_at_height ops h tm \<noteq> None"
  by (simp add: tm_invalidate_all_transactions_after_or_at_height_def update_witness_trees_def Let_def)

definition total_ops :: "unit tree_ops" where
  "total_ops = \<lparr> st_empty = (), st_truncate = (\<lambda>_ t. t), st_checkpoint = (\<lambda>_ t. Some t),
     st_remove_mark = (\<lambda>_ _ t. Some t), st_max_checkpoint = (\<lambda>_. None),
     bh_sub = (\<lambda>a b. Some (a - b)), bh_add = (+) \<rparr>"

lemma total_ops_invalidate: "tm_invalidate_all_transactions_after_or_at_height total_ops h tm \<noteq> None"
  by (cases "tm_spending_data tm")
     (simp_all add: tm_invalidate_all_transactions_after_or_at_height_def update_witness_trees_def Let_def
      add_checkpoint_def total_ops_def)

definition example_bm :: block_management where
  "example_bm = (new_block_management (start_new 1
      \<lparr> bs_in_progress = False, bs_last_error = None, bs_sync_id = 0, bs_start_block = 0, bs_end_block = 0,
        bs_blocks_done = 0, bs_trial_dec_done = 0, bs_txn_scan_done = 0, bs_witnesses_updated = [],
        bs_blocks_total = 0, bs_batch_num = 0, bs_batch_total = 0 \<rparr>))
     \<lparr> bm_existing_blocks := [block_data_new plain_codec (plain_block 4 40 39)] \<rparr>"

lemma example_bm_simps:
  "bm_blocks_in_current_batch example_bm = []" "bm_batch_size example_bm \<noteq> 0"
  "\<forall>b \<in> set (bm_existing_blocks example_bm). block_data_cb plain_codec b \<noteq> None"
  "heights (bm_existing_blocks example_bm) = rev [4..<unat (5 :: u64)]"
  by (simp_all add: example_bm_def new_block_management_def BATCH_SIZE_def plain_block_def
      block_data_new_simps [OF plain_codec_ok])

lemma example_requested: "fetch_start (uint (6 :: u64)) (uint (5 :: u64)) = Inr [6, 5]"
proof -
  have r: "fetch_blocks_range 6 5 = Inr [(6, 5)]" 
    by (simp add: fetch_blocks_range.simps [of 6 5] fetch_blocks_range.simps [of "-9994" 5] STEP_def)
  have "[5..6] = [5, 6 :: int]" by (simp add: upto.simps)
  then show ?thesis using r by (simp add: fetch_start_def range_heights_def)
qed

lemma search_nf_find:
  assumes "block_codec_ok C" "\<forall>i \<in> set is. i < length cbs"
  shows "search_nf C nf (map (block_data_new C) cbs) is =
    Some (map_option cb_height (List.find (\<lambda>cb. list_ex (spends_nullifier nf) (cb_vtx cb)) (map (\<lambda>i. cbs ! i) is)))"
proof -
  have "list_ex (spends_nullifier nf) (cb_vtx (strip_block cb)) = list_ex (spends_nullifier nf) (cb_vtx cb)" for cb
    by (auto simp: strip_block_def list_ex_iff spends_nullifier_def split: pool_nullifier.splits)
  moreover have "cb_height (strip_block cb) = cb_height cb" for cb by (simp add: strip_block_def)
  ultimately show ?thesis using assms(2)
    by (induction "is") (auto simp: block_data_new_simps [OF assms(1)])
qed

section \<open>Properties\<close>

text \<open>C2. However fetcher and reorganisation thread interleave and whatever blocks the server delivers for the
  requested heights, once the fetcher has stopped the new blocks followed by the kept ones have
  consecutive heights, the topmost kept block is the one the last new block names as its predecessor,
  and the records are untouched when there was no reorganisation, and otherwise are those below
  the lowest reorganised height.\<close>

theorem reorg_protocol_joins:
  assumes "block_codec_ok C" "unat end_block \<le> unat start_block" "unat start_block < 2 ^ 32"
    and "bm_blocks_in_current_batch bm = []" "bm_batch_size bm \<noteq> 0"
    and "\<forall>b \<in> set (bm_existing_blocks bm). block_data_cb C b \<noteq> None"
    and "k \<le> unat end_block" "heights (bm_existing_blocks bm) = rev [k..<unat end_block]"
    and "records_wf (tm_records tm)"
    and "fetch_start (uint start_block) (uint end_block) = Inr requested"
    and "(net_step C ops)\<^sup>*\<^sup>* (net_start start_block end_block tm bm (map nat requested)) s"
    and "\<not> nt_fetching s"
  shows "let td = fst (finish_thread (nt_thread s)); new = td_blocks_in_current_batch td;
             kept = td_existing_blocks td; e = unat (td_last_block_expecting td);
             m = tm_records (td_tx_map td)
    in heights (new @ kept) = down (unat start_block) k \<and> heights new = down (unat start_block) e \<and>
       (kept = [] \<or> (\<exists>cb. block_data_cb C (last new) = Some cb \<and>
          block_data_hash C (hd kept) = Some (bc_prev_hash C cb))) \<and>
       records_wf m \<and> (e = unat end_block \<longrightarrow> m = tm_records tm) \<and>
       (e < unat end_block \<longrightarrow>
          (\<forall>txid r. hm_get m txid = Some r \<longrightarrow> unat (get_height (tr_status r)) < e) \<and>
          (\<forall>txid r. hm_get (tm_records tm) txid = Some r \<and> unat (get_height (tr_status r)) < e \<longrightarrow>
             (\<exists>r'. hm_get m txid = Some r' \<and> tr_status r' = tr_status r)))"
proof -
  have "map nat requested = down (unat start_block) (unat end_block)"
    by (rule requested_heights [OF assms(2,10)])
  then have "net_inv C (unat start_block) (unat end_block) k (tm_records tm) s"
    using net_inv_reachable [OF assms(1) assms(11)] net_start_inv [OF assms(2-5) _ assms(7-9)] assms(6)
    by (simp add: list_all_iff)
  note fin = net_inv_done [OF this assms(12)]
  let ?td = "nt_thread s"
  have e: "td_last_block_expecting (fst (finish_thread ?td)) = td_last_block_expecting ?td"
    by (simp add: finish_thread_def Let_def)
  show ?thesis
    using fin assms(2) down_append [of "unat (td_last_block_expecting ?td)" "unat start_block" k]
    unfolding Let_def e finish_thread_blocks by (auto simp: records_cut_def joined_def split: if_splits)
qed

theorem reorg_protocol_joins_witness:
  "\<exists>s. (net_step plain_codec total_ops)\<^sup>*\<^sup>*
         (net_start 6 5 (new_treeless [] :: unit tx_map) example_bm (map nat [6, 5])) s \<and> \<not> nt_fetching s \<and>
       (let td = fst (finish_thread (nt_thread s))
        in heights (td_blocks_in_current_batch td @ td_existing_blocks td) = [6, 5, 4])"
proof -
  let ?s0 = "net_start 6 5 (new_treeless [] :: unit tx_map) example_bm (map nat [6, 5])"
  have wf: "records_wf (tm_records (new_treeless [] :: unit tx_map))"
    by (simp add: new_treeless_def new_records_def records_wf_def)
  have d: "map nat [6, 5] = down (unat (6 :: u64)) (unat (5 :: u64))"
    by (rule requested_heights [OF _ example_requested]) simp
  have "net_inv plain_codec (unat (6 :: u64)) (unat (5 :: u64)) 4 (tm_records (new_treeless [] :: unit tx_map)) ?s0"
    unfolding d using example_bm_simps wf by (intro net_start_inv) (simp_all add: list_all_iff)
  then obtain s where s: "(net_step plain_codec total_ops)\<^sup>*\<^sup>* ?s0 s" "\<not> nt_fetching s"
    using net_terminates [OF plain_codec_ok total_ops_invalidate] by blast
  have "down (unat (6 :: u64)) 4 = [6, 5, 4]" by (simp add: down_def upt_rec)
  then show ?thesis
    using s reorg_protocol_joins [OF plain_codec_ok _ _ example_bm_simps(1-3) _ example_bm_simps(4) wf
        example_requested s] by (auto simp: Let_def)
qed

text \<open>C12. Fetcher and thread never deadlock while the fetcher is running, and every run is finite: each
  reorganisation consumes a stored block. The thread's assertion on the reorganised height never fails.\<close>

theorem reorg_protocol_ends:
  assumes "block_codec_ok C" "unat end_block \<le> unat start_block" "unat start_block < 2 ^ 32"
    and "bm_blocks_in_current_batch bm = []" "bm_batch_size bm \<noteq> 0"
    and "\<forall>b \<in> set (bm_existing_blocks bm). block_data_cb C b \<noteq> None"
    and "k \<le> unat end_block" "heights (bm_existing_blocks bm) = rev [k..<unat end_block]"
    and "records_wf (tm_records tm)"
    and "fetch_start (uint start_block) (uint end_block) = Inr requested"
    and "\<And>h tm. tm_invalidate_all_transactions_after_or_at_height ops h tm \<noteq> None"
    and "(net_step C ops)\<^sup>*\<^sup>* (net_start start_block end_block tm bm (map nat requested)) s"
  shows "(nt_fetching s \<longrightarrow> (\<exists>s'. net_step C ops s s')) \<and>
    \<not> (\<exists>run. run 0 = s \<and> (\<forall>i. net_step C ops (run i) (run (Suc i))))"
proof -
  have "net_inv C (unat start_block) (unat end_block) k (tm_records tm) s"
    using net_inv_reachable [OF assms(1) assms(12)] net_start_inv [OF assms(2-5) _ assms(7-9)] assms(6)
      requested_heights [OF assms(2,10)]
    by (simp add: list_all_iff)
  moreover have False if "\<forall>i. net_step C ops (run i) (run (Suc i))" for run
  proof -
    have "net_weight (run i) + i \<le> net_weight (run 0)" for i
    proof (induction i)
      case (Suc i)
      then show ?case using net_step_weight [of C ops "run i" "run (Suc i)"] that by simp
    qed simp
    from this [of "Suc (net_weight (run 0))"] show False by simp
  qed
  ultimately show ?thesis using net_not_stuck [OF _ _ assms(11)] by blast
qed

theorem reorg_protocol_ends_witness:
  "\<exists>s'. net_step plain_codec total_ops (net_start 6 5 (new_treeless [] :: unit tx_map) example_bm (map nat [6, 5])) s'"
proof -
  have wf: "records_wf (tm_records (new_treeless [] :: unit tx_map))"
    by (simp add: new_treeless_def new_records_def records_wf_def)
  show ?thesis
    using reorg_protocol_ends [OF plain_codec_ok _ _ example_bm_simps(1-3) _ example_bm_simps(4) wf
        example_requested total_ops_invalidate rtranclp.rtrancl_refl]
    by (simp add: net_start_def)
qed

text \<open>On a batch of consecutive blocks the search for a nullifier never panics and finds the lowest block,
  at or above the given height, that spends it, or reports that none does.\<close>

theorem is_nf_spent_first:
  assumes "block_codec_ok C" "bm_blocks_in_current_batch bm = map (block_data_new C) cbs"
    and "map (\<lambda>cb. unat (cb_height cb)) cbs = down t low" "low \<le> unat after" "unat after \<le> t" "t + 1 < 2 ^ 64"
  shows "\<exists>found. is_nf_spent C nf after bm = Some found \<and>
    (case found of
       None \<Rightarrow> \<forall>cb \<in> set cbs. after \<le> cb_height cb \<longrightarrow> \<not> list_ex (spends_nullifier nf) (cb_vtx cb)
     | Some h \<Rightarrow> after \<le> h \<and>
         (\<exists>cb \<in> set cbs. cb_height cb = h \<and> list_ex (spends_nullifier nf) (cb_vtx cb)) \<and>
         (\<forall>cb \<in> set cbs. after \<le> cb_height cb \<and> cb_height cb < h \<longrightarrow>
            \<not> list_ex (spends_nullifier nf) (cb_vtx cb)))"
proof -
  let ?P = "\<lambda>cb. list_ex (spends_nullifier nf) (cb_vtx cb)" and ?n = "t - unat after + 1"
  define ys where "ys = map (\<lambda>i. cbs ! i) (rev [0..<?n])"
  have ly: "length ys = ?n" by (simp add: ys_def del: upt_Suc)
  have len: "length cbs = Suc t - low" using arg_cong [OF assms(3), of length] by (simp add: down_def del: upt_Suc)
  have ht: "unat (cb_height (cbs ! i)) = t - i" if "i < length cbs" for i
    using arg_cong [OF assms(3), of "\<lambda>xs. xs ! i"] that len by (simp add: down_def rev_nth del: upt_Suc)
  obtain c cs where c: "cbs = c # cs" using len assms(4,5) by (cases cbs) auto
  then have top: "unat (cb_height c) = t" using ht [of 0] by simp
  then have d: "unat (cb_height c - after) = t - unat after"
    using assms(5) by (simp add: unat_sub word_le_nat_alt)
  then have n: "unat (cb_height c - after + 1) = ?n"
    using assms(6) unat_add_lem [of "cb_height c - after" 1] le_less_trans [OF diff_le_self [of t "unat after"]]
    by simp
  have yj: "ys ! j = cbs ! (t - unat after - j)" if "j < ?n" for j
    using that by (simp add: ys_def rev_nth del: upt_Suc)
  have mem: "ys ! j \<in> set cbs \<and> unat (cb_height (ys ! j)) = unat after + j" if "j < ?n" for j
    unfolding yj [OF that] using that ht [of "t - unat after - j"] len assms(4,5) by auto
  have in_ys: "\<exists>j < ?n. ys ! j = cb \<and> unat (cb_height cb) = unat after + j" if cb: "cb \<in> set cbs" "after \<le> cb_height cb" for cb
  proof -
    obtain i where i: "i < length cbs" "cb = cbs ! i" using cb(1) by (auto simp: in_set_conv_nth)
    then have "unat after \<le> t - i" using cb(2) ht by (simp add: word_le_nat_alt)
    then obtain j where j: "j < ?n" "t - unat after - j = i" "unat after + j = t - i"
      using i(1) len assms(5) by (intro that [of "t - unat after - i"]) auto
    show ?thesis using i ht [OF i(1)] yj [OF j(1)] j by metis
  qed
  have "\<forall>i \<in> set (rev [0..<?n]). i < length cbs" using len assms(4,5) by auto
  from search_nf_find [OF assms(1) this]
  have f: "is_nf_spent C nf after bm = Some (map_option cb_height (List.find ?P ys))"
    using n c assms(2) by (simp add: is_nf_spent_def block_data_new_simps [OF assms(1)] ys_def)
  show ?thesis
  proof (cases "List.find ?P ys")
    case None
    then have none: "\<not> ?P (ys ! j)" if "j < ?n" for j using that ly by (auto simp: find_None_iff)
    show ?thesis using None f in_ys none by fastforce
  next
    case (Some x)
    then obtain i where i: "i < ?n" "ys ! i = x" "?P x" "\<And>j. j < i \<Longrightarrow> \<not> ?P (ys ! j)"
      using ly by (auto simp: find_Some_iff)
    have "\<not> ?P cb" if cb: "cb \<in> set cbs" "after \<le> cb_height cb" "cb_height cb < cb_height x" for cb
      using in_ys [OF cb(1,2)] i mem [OF i(1)] cb(3) by (auto simp: word_less_nat_alt)
    moreover have "x \<in> set cbs" "after \<le> cb_height x" using mem [OF i(1)] i(2) by (auto simp: word_le_nat_alt)
    ultimately show ?thesis using Some f i(3) by auto
  qed
qed

theorem is_nf_spent_first_witness:
  "\<exists>found. is_nf_spent plain_codec (SaplingNullifier [9]) 5
      (example_bm\<lparr> bm_blocks_in_current_batch := map (block_data_new plain_codec)
         [plain_block 6 60 50,
          (plain_block 5 50 40)\<lparr> cb_vtx := [\<lparr> ct_index = 0, ct_hash = [1], ct_spends = [[9]], ct_outputs = [],
                                           ct_actions = [] \<rparr>] \<rparr>] \<rparr>) = Some found"
  (is "\<exists>found. is_nf_spent _ _ _ (_\<lparr> bm_blocks_in_current_batch := map _ ?cbs \<rparr>) = _")
proof -
  have "map (\<lambda>cb. unat (cb_height cb)) ?cbs = down 6 5"
    by (simp add: plain_block_def down_def upt_rec)
  then show ?thesis
    using is_nf_spent_first [OF plain_codec_ok, of "example_bm\<lparr> bm_blocks_in_current_batch := map (block_data_new plain_codec) ?cbs \<rparr>"
        ?cbs 6 5 5 "SaplingNullifier [9]"] by auto
qed



end
