(* ===== verification/Transparent_Scan.thy ===== *)
theory Transparent_Scan
  imports Record_Steps
begin

text \<open>
  The transparent part of scanning a full transaction: \<open>wallet/transaction_context.rs\<close>,
  \<open>decrypt_transaction_to_record_transparent\<close> and the methods it calls. The parsed transaction, the
  recipient address of an output script and its text form come from other crates; the wallet's own
  addresses and rejection addresses are the sets the key store returns. \<open>None\<close> is a panic.
\<close>

section \<open>Transactions\<close>

record transparent_bundle =
  tb_vin :: "(txid \<times> u32) list"
  tb_vout :: "tx_out list"

record scanned_tx =
  sx_txid :: txid
  sx_transparent_bundle :: "transparent_bundle option"

text \<open>\<open>recipient\<close> is \<open>recipient_address()\<close> of an output followed by \<open>address_from_pubkeyhash\<close>.\<close>

type_synonym recipient_of = "tx_out \<Rightarrow> string option"

section \<open>Receipts\<close>

definition record_taddr_receipt ::
  "scanned_tx \<Rightarrow> confirmation_status \<Rightarrow> string \<Rightarrow> u32 option \<Rightarrow> tx_out \<Rightarrow> nat \<Rightarrow> records \<Rightarrow>
   records option" where
  "record_taddr_receipt transaction status output_taddr block_time vout n m =
     add_new_taddr_output (sx_txid transaction) output_taddr status block_time vout (word_of_nat n) m"

fun receipts_from ::
  "recipient_of \<Rightarrow> string list \<Rightarrow> scanned_tx \<Rightarrow> confirmation_status \<Rightarrow> u32 option \<Rightarrow> nat \<Rightarrow>
   tx_out list \<Rightarrow> records \<Rightarrow> records option" where
  "receipts_from recipient taddrs_set transaction status block_time n [] m = Some m"
| "receipts_from recipient taddrs_set transaction status block_time n (vout # vouts) m =
     (let m' = (case recipient vout of
                  None \<Rightarrow> Some m
                | Some output_taddr \<Rightarrow>
                    if output_taddr \<in> set taddrs_set
                    then record_taddr_receipt transaction status output_taddr block_time vout n m
                    else Some m)
      in case m' of
           None \<Rightarrow> None
         | Some m' \<Rightarrow>
             receipts_from recipient taddrs_set transaction status block_time (Suc n) vouts m')"

definition account_for_transparent_receipts ::
  "recipient_of \<Rightarrow> string list \<Rightarrow> scanned_tx \<Rightarrow> confirmation_status \<Rightarrow> u32 option \<Rightarrow> records \<Rightarrow>
   records option" where
  "account_for_transparent_receipts recipient taddrs_set transaction status block_time m =
     (case sx_transparent_bundle transaction of
        None \<Rightarrow> Some m
      | Some t_bundle \<Rightarrow>
          receipts_from recipient taddrs_set transaction status block_time 0 (tb_vout t_bundle) m)"

section \<open>Spends\<close>

definition get_spent_utxo ::
  "records \<Rightarrow> txid \<times> u32 \<Rightarrow> (transparent_output \<times> txid \<times> u64) option" where
  "get_spent_utxo m vin =
     (case vin of (prev_transaction_id, n) \<Rightarrow>
        (let prev_n = (ucast n :: u64) in
         case hm_get m prev_transaction_id of
           None \<Rightarrow> None
         | Some prev_tx_record \<Rightarrow>
             map_option (\<lambda>spent_utxo. (spent_utxo, prev_transaction_id, prev_n))
               (find (\<lambda>u. to_txid u = prev_transaction_id \<and> to_output_index u = prev_n)
                  (tr_transparent_outputs prev_tx_record))))"

definition identify_rejection_address :: "string list \<Rightarrow> transparent_output \<Rightarrow> string option" where
  "identify_rejection_address rejection_set spent_utxo =
     (if to_address spent_utxo \<in> set rejection_set then Some (to_address spent_utxo) else None)"

definition scan_vin ::
  "string list \<Rightarrow> txid \<Rightarrow> records \<Rightarrow> u64 \<times> (txid \<times> u32 \<times> txid) list \<times> bool \<Rightarrow> txid \<times> u32 \<Rightarrow>
   u64 \<times> (txid \<times> u32 \<times> txid) list \<times> bool" where
  "scan_vin rejection_set txid m acc vin =
     (case acc of (total_value, spent_utxos, sent_to_tex) \<Rightarrow>
        (case get_spent_utxo m vin of
           None \<Rightarrow> acc
         | Some (spent_utxo, prev_transaction_id, prev_n) \<Rightarrow>
             (total_value + to_value spent_utxo,
              spent_utxos @ [(prev_transaction_id, ucast prev_n, txid)],
              (if identify_rejection_address rejection_set spent_utxo \<noteq> None then True
               else sent_to_tex))))"

definition account_for_transparent_spending ::
  "string list \<Rightarrow> scanned_tx \<Rightarrow> confirmation_status \<Rightarrow> u32 option \<Rightarrow> bool \<Rightarrow> records \<Rightarrow>
   (records \<times> bool) option" where
  "account_for_transparent_spending rejection_set transaction status block_time sent_to_tex m =
     (let (total_value, spent_utxos, sent_to_tex) =
        (case sx_transparent_bundle transaction of
           None \<Rightarrow> (0, [], sent_to_tex)
         | Some t_bundle \<Rightarrow>
             foldl (scan_vin rejection_set (sx_txid transaction) m) (0, [], sent_to_tex)
               (tb_vin t_bundle));
          m = fold (\<lambda>(prev_transaction_id, prev_n, transaction_id) m.
                 fst (mark_txid_utxo_spent prev_transaction_id prev_n transaction_id status m))
               spent_utxos m
      in if total_value > 0
         then map_option (\<lambda>m. (m, sent_to_tex))
                (add_taddr_spent (sx_txid transaction) status block_time total_value m)
         else Some (m, sent_to_tex))"

definition decrypt_transaction_to_record_transparent ::
  "recipient_of \<Rightarrow> string list \<Rightarrow> string list \<Rightarrow> scanned_tx \<Rightarrow> confirmation_status \<Rightarrow> u32 option \<Rightarrow>
   bool \<Rightarrow> records \<Rightarrow> (records \<times> bool) option" where
  "decrypt_transaction_to_record_transparent recipient taddrs_set rejection_set transaction status
       block_time sent_to_tex m =
     (case account_for_transparent_receipts recipient taddrs_set transaction status block_time m of
        None \<Rightarrow> None
      | Some m \<Rightarrow>
          account_for_transparent_spending rejection_set transaction status block_time sent_to_tex m)"

section \<open>Laws\<close>

lemma get_spent_utxo_eq:
  "get_spent_utxo m (t, n) =
     (case hm_get m t of None \<Rightarrow> None
      | Some r \<Rightarrow> map_option (\<lambda>u. (u, t, ucast n)) (find (is_utxo t n) (tr_transparent_outputs r)))"
proof -
  have "is_utxo t n = (\<lambda>u. to_txid u = t \<and> to_output_index u = ucast n)"
    by (simp add: fun_eq_iff is_utxo_def)
  then show ?thesis by (simp add: get_spent_utxo_def Let_def split: option.split)
qed

lemma ucast_u32_u64_u32 [simp]: "(ucast (ucast (n :: u32) :: u64) :: u32) = n"
  by (rule bit_word_eqI) (simp add: bit_simps)

text \<open>The utxo that an input refers to.\<close>

definition utxo_at :: "records \<Rightarrow> txid \<times> u32 \<Rightarrow> transparent_output option" where
  "utxo_at m vin = map_option fst (get_spent_utxo m vin)"

lemma utxo_at_eq:
  "utxo_at m (t, n) =
     (case hm_get m t of None \<Rightarrow> None | Some r \<Rightarrow> find (is_utxo t n) (tr_transparent_outputs r))"
  by (simp add: utxo_at_def get_spent_utxo_eq option.map_comp comp_def option.map_ident split: option.splits)

lemma scan_vins:
  "foldl (scan_vin rej txid m) (v, us, tex) vins =
     (v + sum_list (map to_value (List.map_filter (utxo_at m) vins)),
      us @ map (\<lambda>(t, n). (t, n, txid)) (filter (\<lambda>vin. utxo_at m vin \<noteq> None) vins),
      tex \<or> list_ex (\<lambda>u. to_address u \<in> set rej) (List.map_filter (utxo_at m) vins))"
proof (induction vins arbitrary: v us tex)
  case (Cons vin vins)
  obtain t n where vin: "vin = (t, n)" by (cases vin)
  show ?case
  proof (cases "get_spent_utxo m (t, n)")
    case None
    then have "utxo_at m (t, n) = None" by (simp add: utxo_at_def)
    then show ?thesis using Cons None by (simp add: vin scan_vin_def List.map_filter_simps)
  next
    case (Some p)
    then obtain u where "p = (u, t, ucast n)"
      by (auto simp: get_spent_utxo_eq split: option.splits)
    moreover from this have "utxo_at m (t, n) = Some u" using Some by (simp add: utxo_at_def)
    ultimately show ?thesis
      using Cons Some
      by (simp add: vin scan_vin_def List.map_filter_simps identify_rejection_address_def add.assoc)
  qed
qed (simp add: List.map_filter_simps)

lemma utxo_at_mark:
  "utxo_at (fst (mark_txid_utxo_spent t n s st m)) vin =
     (if vin = (t, n) then map_option (\<lambda>u. u\<lparr> to_spend := Some (s, st) \<rparr>) (utxo_at m vin)
      else utxo_at m vin)"
proof -
  obtain t' n' where vin: "vin = (t', n')" by (cases vin)
  have other: "find (is_utxo t n') (update_first (is_utxo t n) (\<lambda>u. u\<lparr> to_spend := x \<rparr>) xs) =
      find (is_utxo t n') xs" if "n' \<noteq> n" for xs x
  proof -
    have "(ucast n' :: u64) \<noteq> ucast n" using that ucast_u32_u64_u32 by metis
    then show ?thesis by (induction xs) (auto simp: is_utxo_def)
  qed
  show ?thesis
  proof (cases "hm_get m t")
    case None
    then show ?thesis by (simp add: vin mark_txid_utxo_spent_def utxo_at_eq)
  next
    case (Some r)
    show ?thesis
    proof (cases "find (is_utxo t n) (tr_transparent_outputs r)")
      case None
      then show ?thesis using Some by (auto simp: vin mark_txid_utxo_spent_def utxo_at_eq)
    next
      case (Some u)
      then have "is_utxo t n u" by (auto dest: find_Some_set)
      then have "find (is_utxo t n) (update_first (is_utxo t n) (\<lambda>u. u\<lparr> to_spend := x \<rparr>)
          (tr_transparent_outputs r)) = Some (u\<lparr> to_spend := x \<rparr>)" for x
        using Some by (intro find_update_first) (auto simp: is_utxo_def)
      then show ?thesis using Some \<open>hm_get m t = Some r\<close> other
        by (auto simp: vin mark_txid_utxo_spent_def utxo_at_eq hm_simps)
    qed
  qed
qed

lemma utxo_at_mark_all:
  "utxo_at (fold (\<lambda>(t, n, s) m. fst (mark_txid_utxo_spent t n s st m)) (map (\<lambda>(t, n). (t, n, s)) vins) m) vin =
     (if vin \<in> set vins then map_option (\<lambda>u. u\<lparr> to_spend := Some (s, st) \<rparr>) (utxo_at m vin)
      else utxo_at m vin)"
  by (induction vins arbitrary: m)
     (auto simp: utxo_at_mark option.map_comp comp_def case_prod_beta)

lemma utxo_at_create_modify:
  assumes "create_modify_get_transaction_record t st ts k m = Some m'"
    and "\<And>r. tr_transparent_outputs (k r) = tr_transparent_outputs r"
  shows "utxo_at m' vin = utxo_at m vin"
  using create_modify_get [OF assms(1)] assms(2)
  by (cases vin) (auto simp: utxo_at_eq new_record_def split: option.splits)

lemma receipts_total:
  assumes "records_wf m"
  shows "\<exists>m'. receipts_from rc taddrs tx st (Some bt) n vouts m = Some m' \<and> records_wf m'"
  using assms
proof (induction vouts arbitrary: n m)
  case (Cons vout vouts)
  have "\<exists>m1. (case rc vout of None \<Rightarrow> Some m | Some a \<Rightarrow>
      if a \<in> set taddrs then record_taddr_receipt tx st a (Some bt) vout n m else Some m) = Some m1 \<and>
      records_wf m1"
  proof (cases "\<exists>a. rc vout = Some a \<and> a \<in> set taddrs")
    case True
    then obtain a where a: "rc vout = Some a" "a \<in> set taddrs" by blast
    obtain m1 where m1: "record_taddr_receipt tx st a (Some bt) vout n m = Some m1"
      using create_modify_None_iff unfolding record_taddr_receipt_def add_new_taddr_output_def
      by fastforce
    moreover have "records_wf m1"
      using m1 Cons.prems unfolding record_taddr_receipt_def add_new_taddr_output_def
      by (elim create_modify_wf) auto
    ultimately show ?thesis using a by auto
  qed (use Cons.prems in \<open>auto split: option.splits\<close>)
  then show ?case using Cons.IH by (auto simp: Let_def)
qed simp

lemma mark_all_wf:
  "records_wf m \<Longrightarrow> records_wf (fold (\<lambda>(t, n, s) m. fst (mark_txid_utxo_spent t n s st m)) us m)"
  by (induction us arbitrary: m) (auto simp: mark_txid_utxo_spent_wf)

definition example_tx :: scanned_tx where
  "example_tx = \<lparr> sx_txid = [4],
     sx_transparent_bundle = Some \<lparr> tb_vin = [([1], 0), ([8], 2)],
       tb_vout = [\<lparr> vo_value = 25000, vo_script_pubkey = [1] \<rparr>] \<rparr> \<rparr>"

section \<open>Properties\<close>

text \<open>Scanning the transparent inputs of a transaction marks exactly the wallet's outputs it spends as
  spent by it with the given status, raises the tex flag exactly when one of them belongs to a
  rejection address, and records the sum of their values as the transparent value spent.\<close>

theorem transparent_spending_marks_inputs:
  assumes "sx_transparent_bundle tx = Some b"
    and "account_for_transparent_spending rej tx status block_time tex m = Some (m', tex')"
  shows "(\<forall>vin. utxo_at m' vin =
       (if vin \<in> set (tb_vin b)
        then map_option (\<lambda>u. u\<lparr> to_spend := Some (sx_txid tx, status) \<rparr>) (utxo_at m vin)
        else utxo_at m vin)) \<and>
     (tex' \<longleftrightarrow> tex \<or> (\<exists>vin u. vin \<in> set (tb_vin b) \<and> utxo_at m vin = Some u \<and> to_address u \<in> set rej)) \<and>
     (0 < sum_list (map to_value (List.map_filter (utxo_at m) (tb_vin b))) \<longrightarrow>
        (\<exists>r. hm_get m' (sx_txid tx) = Some r \<and>
           tr_total_transparent_value_spent r =
             sum_list (map to_value (List.map_filter (utxo_at m) (tb_vin b)))))"
proof -
  let ?vins = "filter (\<lambda>vin. utxo_at m vin \<noteq> None) (tb_vin b)"
  let ?total = "sum_list (map to_value (List.map_filter (utxo_at m) (tb_vin b)))"
  let ?m = "fold (\<lambda>(t, n, s) m. fst (mark_txid_utxo_spent t n s status m))
              (map (\<lambda>(t, n). (t, n, sx_txid tx)) ?vins) m"
  have tex: "list_ex (\<lambda>u. to_address u \<in> set rej) (List.map_filter (utxo_at m) (tb_vin b)) \<longleftrightarrow>
      (\<exists>vin u. vin \<in> set (tb_vin b) \<and> utxo_at m vin = Some u \<and> to_address u \<in> set rej)"
    by (auto simp: list_ex_iff map_filter_set)
  have at: "utxo_at ?m vin = (if vin \<in> set (tb_vin b)
        then map_option (\<lambda>u. u\<lparr> to_spend := Some (sx_txid tx, status) \<rparr>) (utxo_at m vin)
        else utxo_at m vin)" for vin
    by (auto simp: utxo_at_mark_all)
  show ?thesis
  proof (cases "0 < ?total")
    case True
    then have s: "add_taddr_spent (sx_txid tx) status block_time ?total ?m = Some m'"
      and t: "tex' = (tex \<or> list_ex (\<lambda>u. to_address u \<in> set rej) (List.map_filter (utxo_at m) (tb_vin b)))"
      using assms by (auto simp: account_for_transparent_spending_def scan_vins Let_def)
    have "utxo_at m' vin = utxo_at ?m vin" for vin
      using s unfolding add_taddr_spent_def by (rule utxo_at_create_modify) simp
    moreover have "\<exists>r. hm_get m' (sx_txid tx) = Some r \<and> tr_total_transparent_value_spent r = ?total"
      using create_modify_get [OF s [unfolded add_taddr_spent_def], of "sx_txid tx"]
      by (auto split: option.splits)
    ultimately show ?thesis using at t tex by simp
  next
    case False
    then have "m' = ?m" "tex' = (tex \<or> list_ex (\<lambda>u. to_address u \<in> set rej) (List.map_filter (utxo_at m) (tb_vin b)))"
      using assms by (auto simp: account_for_transparent_spending_def scan_vins Let_def)
    then show ?thesis using at tex False by simp
  qed
qed

theorem transparent_spending_marks_inputs_witness:
  "\<exists>m' tex' r. account_for_transparent_spending [] example_tx (Confirmed 40) (Some 9) False example_records =
       Some (m', tex') \<and> hm_get m' [4] = Some r \<and> tr_total_transparent_value_spent r = 30000"
proof -
  obtain m' where a: "account_for_transparent_spending [] example_tx (Confirmed 40) (Some 9) False
      example_records = Some (m', False)"
    by (simp add: account_for_transparent_spending_def example_tx_def scan_vin_def get_spent_utxo_def
      example_simps mark_txid_utxo_spent_def is_utxo_def add_taddr_spent_def
      create_modify_get_transaction_record_def identify_rejection_address_def hm_modify_def)
  have "sum_list (map to_value (List.map_filter (utxo_at example_records) [([1], 0), ([8], 2)])) = 30000"
    by (simp add: utxo_at_eq example_simps is_utxo_def List.map_filter_simps)
  then show ?thesis
    using transparent_spending_marks_inputs [OF _ a] a by (fastforce simp: example_tx_def)
qed

text \<open>With a block time the transparent scan of any transaction succeeds and keeps the wallet well
  formed.\<close>

theorem transparent_scan_total:
  assumes "records_wf m"
  shows "\<exists>m' tex'. decrypt_transaction_to_record_transparent rc taddrs rej tx st (Some bt) tex m =
             Some (m', tex') \<and> records_wf m'"
proof -
  obtain m1 where m1: "account_for_transparent_receipts rc taddrs tx st (Some bt) m = Some m1" "records_wf m1"
    using receipts_total [OF assms, of rc taddrs tx st bt 0] assms
    by (cases "sx_transparent_bundle tx") (auto simp: account_for_transparent_receipts_def)
  have "\<exists>m' tex'. account_for_transparent_spending rej tx st (Some bt) tex m1 = Some (m', tex') \<and>
      records_wf m'"
  proof -
    define us where "us = (case sx_transparent_bundle tx of None \<Rightarrow> (0, [], tex)
         | Some t_bundle \<Rightarrow> foldl (scan_vin rej (sx_txid tx) m1) (0, [], tex) (tb_vin t_bundle))"
    let ?m = "fold (\<lambda>(t, n, s) m. fst (mark_txid_utxo_spent t n s st m)) (fst (snd us)) m1"
    have wf: "records_wf ?m" using m1(2) by (rule mark_all_wf)
    obtain m2 where m2: "add_taddr_spent (sx_txid tx) st (Some bt) (fst us) ?m = Some m2"
      using create_modify_None_iff unfolding add_taddr_spent_def by fastforce
    have "records_wf m2"
      using m2 wf unfolding add_taddr_spent_def by (elim create_modify_wf) auto
    then show ?thesis
      using wf m2 by (auto simp: account_for_transparent_spending_def us_def [symmetric] case_prod_beta Let_def)
  qed
  then show ?thesis using m1(1) by (auto simp: decrypt_transaction_to_record_transparent_def)
qed

theorem transparent_scan_total_witness:
  "\<exists>m' tex'. decrypt_transaction_to_record_transparent (\<lambda>_. Some ''t1'') [''t1''] [] example_tx
     (Confirmed 40) (Some 9) False example_records = Some (m', tex') \<and> records_wf m'"
  by (rule transparent_scan_total) (rule example_wf)

text \<open>Scanning a confirmed transaction once more with a mempool status leaves its record confirmed,
  but turns the spends of its transparent inputs back to pending: the guard of
  \<open>create_modify_get_transaction_record\<close> does not cover \<open>mark_txid_utxo_spent\<close>.\<close>

theorem pending_rescan_downgrades_spends:
  "\<exists>m1 m2. account_for_transparent_spending [] example_tx (Confirmed 40) (Some 9) False example_records =
       Some (m1, False) \<and>
     account_for_transparent_spending [] example_tx (Mempool 41) (Some 9) False m1 = Some (m2, False) \<and>
     map_option tr_status (hm_get m2 [4]) = Some (Confirmed 40) \<and>
     map_option to_spend (utxo_at m2 ([1], 0)) = Some (Some ([4], Mempool 41))"
  by (simp add: account_for_transparent_spending_def example_tx_def scan_vin_def get_spent_utxo_def
      example_simps mark_txid_utxo_spent_def is_utxo_def add_taddr_spent_def utxo_at_eq
      create_modify_get_transaction_record_def identify_rejection_address_def
      hm_insert_def hm_modify_def)

end
