(* ===== verification/Serialization_Laws.thy ===== *)
theory Serialization_Laws
  imports Wallet_Serialization
begin

text \<open>
  Round trips of the wallet's binary formats. For each kind of value a predicate says when it can be
  stored (\<open>outgoing_ok\<close>, \<open>transparent_ok\<close>, \<open>sapling_ok\<close>, \<open>orchard_ok\<close>, \<open>record_ok\<close>: the sizes its Rust
  type guarantees, and that the other crates accept again what they produced), and a function
  what of it is stored (\<open>persisted_outgoing\<close> and the like). \<open>encodings_ok\<close> collects the documented
  behaviour of the framings. The last part gives a concrete framing that has it.
\<close>

section \<open>Laws\<close>

lemma get_version_write [simp]: "v \<le> current \<Longrightarrow> get_version current (write_u8 v @ rest) = Rd_Ok v rest"
  by (simp add: get_version_def rd_bind_apply)

lemma read_status_write [simp]: "read_status (write_status s @ rest) = Rd_Ok s rest"
  by (cases s) (simp_all add: read_status_def rd_bind_apply Let_def)

lemma bytes_string_bytes [simp]: "bytes_string (string_bytes s) = s"
proof -
  have "char_of (unat (of_char c :: byte)) = c" for c :: char
  proof -
    have "(of_char c :: byte) = word_of_nat (of_char c)" by (rule of_nat_of_char [symmetric])
    then have "unat (of_char c :: byte) = of_char c mod 256"
      by (simp add: unat_of_nat take_bit_eq_mod)
    then show ?thesis by simp
  qed
  then show ?thesis by (induction s) (auto simp: bytes_string_def string_bytes_def)
qed

lemma string_bytes_simps [simp]:
  "length (string_bytes s) = length s" "string_bytes s = [] \<longleftrightarrow> s = []"
  by (auto simp: string_bytes_def)

definition memo_ok :: "memo_api \<Rightarrow> memo \<Rightarrow> bool" where
  "memo_ok ma m \<longleftrightarrow> length (ma_encode ma m) = 512 \<and>
     (case ma_from_bytes ma (ma_encode ma m) of
        None \<Rightarrow> False
      | Some mb \<Rightarrow> (case ma_try_from ma mb of Some m' \<Rightarrow> m' = m | None \<Rightarrow> m = Memo_Future mb))"

lemma read_memo_encode: "memo_ok ma m \<Longrightarrow> read_memo ma (ma_encode ma m @ rest) = Rd_Ok m rest"
  by (auto simp: memo_ok_def read_memo_def rd_bind_apply split: option.splits)

interpretation memo_store: lossy_codec "ma_encode ma" "read_memo ma" "\<lambda>m. m" "memo_ok ma" for ma
  by unfold_locales (rule read_memo_encode)

definition outgoing_ok :: "memo_api \<Rightarrow> key_api \<Rightarrow> outgoing_tx_data \<Rightarrow> bool" where
  "outgoing_ok ma ka otd \<longleftrightarrow> memo_ok ma (ot_memo otd) \<and>
     (let a = (case ot_recipient_ua otd of None \<Rightarrow> ot_recipient_address otd | Some ua \<Rightarrow> ua)
      in length a < 2 ^ 63 \<and> ka_utf8_valid ka (string_bytes a))"

definition persisted_outgoing :: "outgoing_tx_data \<Rightarrow> outgoing_tx_data" where
  "persisted_outgoing otd = otd\<lparr>
     ot_recipient_address := (case ot_recipient_ua otd of None \<Rightarrow> ot_recipient_address otd | Some ua \<Rightarrow> ua),
     ot_recipient_ua := None \<rparr>"

lemma unat_word_of_nat_len: "n < 2 ^ LENGTH('w) \<Longrightarrow> unat (word_of_nat n :: 'w::len word) = n"
  by (simp add: unat_of_nat take_bit_nat_eq_self)

lemma read_write_outgoing:
  assumes "outgoing_ok ma ka otd"
  shows "read_outgoing ma ka (write_outgoing ma otd @ rest) = Rd_Ok (persisted_outgoing otd) rest"
  using assms
  by (auto simp: outgoing_ok_def write_outgoing_def read_outgoing_def rd_bind_apply persisted_outgoing_def
      read_memo_encode unat_word_of_nat_len Let_def split: option.splits)

interpretation outgoing_store:
  lossy_codec "write_outgoing ma" "read_outgoing ma ka" persisted_outgoing "outgoing_ok ma ka" for ma ka
  by unfold_locales (rule read_write_outgoing)

definition encodings_ok :: "'w encodings \<Rightarrow> bool" where
  "encodings_ok E \<longleftrightarrow> opt_laws (e_opt_u64 E) \<and> opt_laws (e_opt_u32 E) \<and> opt_laws (e_opt_bytes E) \<and>
     opt_laws (e_opt_spend E) \<and> opt_laws (e_opt_memo E) \<and> vec_laws (e_vec_byte E) \<and>
     vec_laws (e_vec_bytes E) \<and> vec_laws (e_vec_sapling E) \<and> vec_laws (e_vec_orchard E) \<and>
     vec_laws (e_vec_transparent E) \<and> vec_laws (e_vec_outgoing E)"

lemma encodings_okD:
  assumes "encodings_ok E"
  shows "opt_laws (e_opt_u64 E)" "opt_laws (e_opt_u32 E)" "opt_laws (e_opt_bytes E)"
    "opt_laws (e_opt_spend E)" "opt_laws (e_opt_memo E)" "vec_laws (e_vec_byte E)"
    "vec_laws (e_vec_bytes E)" "vec_laws (e_vec_sapling E)" "vec_laws (e_vec_orchard E)"
    "vec_laws (e_vec_transparent E)" "vec_laws (e_vec_outgoing E)"
  using assms by (simp_all add: encodings_ok_def)

definition transparent_ok :: "key_api \<Rightarrow> transparent_output \<Rightarrow> bool" where
  "transparent_ok ka t \<longleftrightarrow> length (to_address t) < 2 ^ 31 \<and> ka_utf8_valid ka (string_bytes (to_address t)) \<and>
     to_address t \<noteq> [] \<and> hd (to_address t) = CHR ''t'' \<and> length (to_txid t) = 32 \<and>
     length (to_script t) \<le> max_vec_len \<and>
     (case to_spend t of Some (txid, Confirmed _) \<Rightarrow> length txid = 32 | _ \<Rightarrow> True)"

definition persisted_transparent :: "transparent_output \<Rightarrow> transparent_output" where
  "persisted_transparent t = t\<lparr> to_spend :=
     (case to_spend t of
        Some (txid, status) \<Rightarrow> if is_confirmed status then Some (txid, status) else None
      | None \<Rightarrow> None) \<rparr>"

lemma opt_bytes_read:
  assumes "opt_laws c" "pred_option (\<lambda>v. length v = 32) x"
  shows "opt_read c (read_exact 32) (opt_write c (\<lambda>x. x) x @ rest) = Rd_Ok x rest"
  using assms by (intro opt_lawsD_id) auto

lemma opt_u32_read:
  "opt_laws c \<Longrightarrow> opt_read c read_u32 (opt_write c write_u32 x @ rest) = Rd_Ok x rest"
  by (rule opt_lawsD_id) auto

lemma opt_u64_read:
  "opt_laws c \<Longrightarrow> opt_read c read_u64 (opt_write c write_u64 x @ rest) = Rd_Ok x rest"
  by (rule opt_lawsD_id) auto

lemma vec_byte_read:
  "vec_laws c \<Longrightarrow> length xs \<le> max_vec_len \<Longrightarrow>
   vec_read c read_u8 (vec_write c write_u8 xs @ rest) = Rd_Ok xs rest"
  by (rule vec_lawsD_id) auto

lemma read_write_transparent:
  assumes "encodings_ok E" "transparent_ok ka t"
  shows "read_transparent E ka (write_transparent E t @ rest) = Rd_Ok (persisted_transparent t) rest"
proof -
  have len: "unat (word_of_nat (length (to_address t)) :: u32) = length (to_address t)"
    using assms(2) by (intro unat_word_of_nat_len) (simp add: transparent_ok_def)
  have v: "\<not> (4 :: u64) \<le> 1" by (simp add: word_le_nat_alt)
  note laws = encodings_okD [OF assms(1)]
  show ?thesis
  proof (cases "\<exists>txid h. to_spend t = Some (txid, Confirmed h)")
    case True
    then obtain txid h where s: "to_spend t = Some (txid, Confirmed h)" by blast
    moreover from this have "length txid = 32" using assms(2) by (simp add: transparent_ok_def)
    ultimately show ?thesis
      using assms(2) len v
      by (simp add: transparent_ok_def read_transparent_def write_transparent_def rd_bind_apply Let_def
          transparent_serialized_version_def persisted_transparent_def vec_byte_read [OF laws(6)]
          opt_bytes_read [OF laws(3)] opt_u32_read [OF laws(2)])
  next
    case False
    then have "(case to_spend t of None \<Rightarrow> None
         | Some (txid, status) \<Rightarrow> map_option (\<lambda>height. (txid, height)) (get_confirmed_height status)) = None"
      and p: "persisted_transparent t = t\<lparr> to_spend := None \<rparr>"
      by (auto simp: persisted_transparent_def get_confirmed_height_eq split: option.splits)
         (metis is_confirmed.elims(2))+
    then show ?thesis
      using assms(2) len v
      by (simp add: transparent_ok_def read_transparent_def write_transparent_def rd_bind_apply Let_def
          transparent_serialized_version_def vec_byte_read [OF laws(6)]
          opt_bytes_read [OF laws(3)] opt_u32_read [OF laws(2)])
  qed
qed

interpretation transparent_store:
  lossy_codec "write_transparent E" "read_transparent E ka" persisted_transparent
    "\<lambda>t. encodings_ok E \<and> transparent_ok ka t" for E ka
  by unfold_locales (simp add: read_write_transparent)

definition note_ok :: "memo_api \<Rightarrow> (byte list \<Rightarrow> bool) \<Rightarrow> ('n \<Rightarrow> bool) \<Rightarrow> 'n shielded_note \<Rightarrow> bool" where
  "note_ok ma valid_nf crypto_ok n \<longleftrightarrow> length (sn_diversifier n) = 11 \<and> crypto_ok (sn_note n) \<and>
     pred_option (\<lambda>nf. length nf = 32 \<and> valid_nf nf) (sn_nullifier n) \<and>
     pred_option (\<lambda>(txid, _). length txid = 32) (sn_spend n) \<and>
     pred_option (memo_ok ma) (sn_memo n)"

definition persisted_note :: "'n shielded_note \<Rightarrow> 'n shielded_note" where
  "persisted_note n = n\<lparr> sn_output_index := (if sn_output_index n = Some (- 1) then None else sn_output_index n) \<rparr>"

lemma opt_nullifier_read:
  assumes "opt_laws c" "pred_option (\<lambda>nf. length nf = 32 \<and> valid_nf nf) x"
  shows "opt_read c (read_nullifier valid_nf) (opt_write c (\<lambda>x. x) x @ rest) = Rd_Ok x rest"
  using assms by (intro opt_lawsD_id) (auto simp: read_nullifier_def rd_bind_apply)

lemma opt_spend_read:
  assumes "opt_laws c" "pred_option (\<lambda>(txid, _). length txid = 32) x"
  shows "opt_read c (rd_bind (read_exact 32) (\<lambda>txid. rd_bind read_status (\<lambda>status. rd_return (txid, status))))
      (opt_write c (\<lambda>(txid, status). txid @ write_status status) x @ rest) = Rd_Ok x rest"
  using assms by (intro opt_lawsD_id) (auto simp: rd_bind_apply)

lemma opt_memo_read:
  assumes "opt_laws c" "pred_option (memo_ok ma) x"
  shows "opt_read c (read_memo ma) (opt_write c (ma_encode ma) x @ rest) = Rd_Ok x rest"
  using memo_store.opt_keep [OF assms] by (simp add: option.map_ident)

lemma bool_byte_pos [simp]: "0 < bool_byte b \<longleftrightarrow> b"
  by (simp add: bool_byte_def)

lemma read_write_note:
  assumes "encodings_ok E" "note_ok ma valid_nf crypto_ok n"
    and crypto: "\<And>rest. read_crypto (sn_diversifier n) (write_crypto (sn_note n) @ rest) = Rd_Ok (sn_note n) rest"
  shows "read_note ma E read_wit wit_pos len read_crypto valid_nf (write_note ma E write_crypto n @ rest) =
         Rd_Ok (persisted_note n, []) rest"
proof -
  note laws = encodings_okD [OF assms(1)]
  have idx: "(if (case sn_output_index n of None \<Rightarrow> - 1 | Some i \<Rightarrow> i) = - 1 then None
      else Some (case sn_output_index n of None \<Rightarrow> - 1 | Some i \<Rightarrow> i)) =
     (if sn_output_index n = Some (- 1) then None else sn_output_index n)"
    by (auto split: option.splits)
  have parts: "shielded_from_parts (sn_diversifier n) (sn_note n) (sn_witnessed_position n)
      (sn_nullifier n) (sn_spend n) (sn_memo n) (sn_is_change n) (sn_have_spending_key n)
      (if sn_output_index n = Some (- 1) then None else sn_output_index n) = persisted_note n"
    by (cases n) (simp add: shielded_from_parts_def persisted_note_def)
  have v: "(5 :: byte) \<le> 5" "\<not> (5 :: byte) < 2" "\<not> (5 :: byte) < 3" "(4 :: byte) \<le> 5" by simp_all
  show ?thesis
    using assms(2) v parts
    by (simp add: note_ok_def read_note_def write_note_def rd_bind_apply crypto idx
        opt_u64_read [OF laws(1)] opt_nullifier_read [OF laws(3)] opt_spend_read [OF laws(4)]
        opt_memo_read [OF laws(5)])
qed

interpretation status_codec: codec write_status read_status
  by unfold_locales simp

definition rseed_ok :: "key_api \<Rightarrow> rseed \<Rightarrow> bool" where
  "rseed_ok ka rs = (case rs of
      BeforeZip212 fr \<Rightarrow> length fr = 32 \<and> ka_valid_fr ka fr
    | AfterZip212 b \<Rightarrow> length b = 32)"

lemma read_write_sapling_rseed:
  "rseed_ok ka rs \<Longrightarrow> read_sapling_rseed ka (write_sapling_rseed rs @ rest) = Rd_Ok rs rest"
  by (cases rs) (simp_all add: rseed_ok_def read_sapling_rseed_def write_sapling_rseed_def rd_bind_apply)

definition sapling_ok :: "memo_api \<Rightarrow> key_api \<Rightarrow> sapling_note \<Rightarrow> bool" where
  "sapling_ok ma ka n \<longleftrightarrow>
     note_ok ma (\<lambda>_. True) (\<lambda>c. rseed_ok ka (sc_rseed c) \<and>
       ka_sapling_address ka (sn_diversifier n) = Some (sc_recipient c)) n"

definition orchard_ok :: "memo_api \<Rightarrow> key_api \<Rightarrow> orchard_note \<Rightarrow> bool" where
  "orchard_ok ma ka n \<longleftrightarrow>
     note_ok ma (ka_valid_orchard_nullifier ka) (\<lambda>c. length (oc_rho c) = 32 \<and> length (oc_rseed c) = 32 \<and>
       ka_valid_rho ka (oc_rho c) \<and> ka_valid_rseed ka (oc_rseed c) (oc_rho c) \<and>
       ka_orchard_address ka (sn_diversifier n) = oc_recipient c \<and> ka_valid_orchard_note ka c) n"

lemma read_write_sapling_crypto_note:
  assumes "rseed_ok ka (sc_rseed c)" "ka_sapling_address ka d = Some (sc_recipient c)"
  shows "read_sapling_crypto_note ka d (write_sapling_crypto_note c @ rest) = Rd_Ok c rest"
  using assms
  by (simp add: read_sapling_crypto_note_def write_sapling_crypto_note_def rd_bind_apply
      read_write_sapling_rseed)

lemma read_write_orchard_crypto_note:
  assumes "length (oc_rho c) = 32" "length (oc_rseed c) = 32"
    "ka_valid_rho ka (oc_rho c)" "ka_valid_rseed ka (oc_rseed c) (oc_rho c)"
    "ka_orchard_address ka d = oc_recipient c" "ka_valid_orchard_note ka c"
  shows "read_orchard_crypto_note ka d (write_orchard_crypto_note c @ rest) = Rd_Ok c rest"
  using assms
  by (cases c) (simp add: read_orchard_crypto_note_def write_orchard_crypto_note_def rd_bind_apply Let_def)

lemma read_write_sapling_note:
  assumes "encodings_ok E" "sapling_ok ma ka n"
  shows "read_sapling_note ma E ka read_wit wit_position (write_note ma E write_sapling_crypto_note n @ rest) =
         Rd_Ok (persisted_note n) rest"
proof -
  have "read_sapling_crypto_note ka (sn_diversifier n) (write_sapling_crypto_note (sn_note n) @ rest) =
      Rd_Ok (sn_note n) rest" for rest
    using assms(2) by (simp add: sapling_ok_def note_ok_def read_write_sapling_crypto_note)
  then show ?thesis
    using read_write_note [OF assms(1) assms(2) [unfolded sapling_ok_def]]
    by (simp add: read_sapling_note_def rd_bind_apply)
qed

lemma read_write_orchard_note:
  assumes "encodings_ok E" "orchard_ok ma ka n"
  shows "read_orchard_note ma E ka read_wit wit_position (write_note ma E write_orchard_crypto_note n @ rest) =
         Rd_Ok (persisted_note n) rest"
proof -
  have "read_orchard_crypto_note ka (sn_diversifier n) (write_orchard_crypto_note (sn_note n) @ rest) =
      Rd_Ok (sn_note n) rest" for rest
    using assms(2) by (simp add: orchard_ok_def note_ok_def read_write_orchard_crypto_note)
  then show ?thesis
    using read_write_note [OF assms(1) assms(2) [unfolded orchard_ok_def]]
    by (simp add: read_orchard_note_def rd_bind_apply)
qed

interpretation sapling_store:
  lossy_codec "write_note ma E write_sapling_crypto_note" "read_sapling_note ma E ka read_wit wit_position"
    persisted_note "\<lambda>n. encodings_ok E \<and> sapling_ok ma ka n" for ma E ka read_wit wit_position
  by unfold_locales (simp add: read_write_sapling_note)

interpretation orchard_store:
  lossy_codec "write_note ma E write_orchard_crypto_note" "read_orchard_note ma E ka read_wit wit_position"
    persisted_note "\<lambda>n. encodings_ok E \<and> orchard_ok ma ka n" for ma E ka read_wit wit_position
  by unfold_locales (simp add: read_write_orchard_note)

definition record_ok :: "memo_api \<Rightarrow> key_api \<Rightarrow> transaction_record \<Rightarrow> bool" where
  "record_ok ma ka r \<longleftrightarrow> length (tr_txid r) = 32 \<and>
     length (tr_sapling_notes r) \<le> max_vec_len \<and> list_all (sapling_ok ma ka) (tr_sapling_notes r) \<and>
     length (tr_orchard_notes r) \<le> max_vec_len \<and> list_all (orchard_ok ma ka) (tr_orchard_notes r) \<and>
     length (tr_transparent_outputs r) \<le> max_vec_len \<and>
     list_all (transparent_ok ka) (tr_transparent_outputs r) \<and>
     length (tr_outgoing_tx_data r) \<le> max_vec_len \<and>
     list_all (outgoing_ok ma ka) (tr_outgoing_tx_data r) \<and>
     length (tr_spent_sapling_nullifiers r) \<le> max_vec_len \<and>
     list_all (\<lambda>n. length n = 32) (tr_spent_sapling_nullifiers r) \<and>
     length (tr_spent_orchard_nullifiers r) \<le> max_vec_len \<and>
     list_all (\<lambda>n. length n = 32 \<and> ka_valid_orchard_nullifier ka n) (tr_spent_orchard_nullifiers r)"

definition persisted_status :: "confirmation_status \<Rightarrow> confirmation_status" where
  "persisted_status s = (if is_confirmed s then s else Transmitted (get_height s))"

definition persisted_record :: "transaction_record \<Rightarrow> transaction_record" where
  "persisted_record r = r\<lparr>
     tr_status := persisted_status (tr_status r),
     tr_sapling_notes := map persisted_note (tr_sapling_notes r),
     tr_orchard_notes := map persisted_note (tr_orchard_notes r),
     tr_transparent_outputs := map persisted_transparent (tr_transparent_outputs r),
     tr_outgoing_tx_data := map persisted_outgoing (tr_outgoing_tx_data r) \<rparr>"

lemma read_write_status_of_record:
  "from_blockheight_and_pending_bool (get_height s) (\<not> is_confirmed s) = persisted_status s"
  by (cases s) (simp_all add: from_blockheight_and_pending_bool_def persisted_status_def)

lemma list_all_bytes_read:
  assumes "vec_laws c" "length xs \<le> max_vec_len" "list_all (\<lambda>n. length n = 32) xs"
  shows "vec_read c (read_exact 32) (vec_write c (\<lambda>n. n) xs @ rest) = Rd_Ok xs rest"
  using assms by (intro vec_lawsD_id) (auto simp: list_all_iff)

lemma list_all_nullifiers_read:
  assumes "vec_laws c" "length xs \<le> max_vec_len" "list_all (\<lambda>n. length n = 32 \<and> valid_nf n) xs"
  shows "vec_read c (read_nullifier valid_nf) (vec_write c (\<lambda>n. n) xs @ rest) = Rd_Ok xs rest"
  using assms by (intro vec_lawsD_id) (auto simp: list_all_iff read_nullifier_def rd_bind_apply)

lemma read_write_record_fields:
  assumes "encodings_ok E" "record_ok ma ka r"
  shows
    "vec_read (e_vec_sapling E) (read_sapling_note ma E ka rw wp)
       (vec_write (e_vec_sapling E) (write_note ma E write_sapling_crypto_note) (tr_sapling_notes r) @ rest) =
     Rd_Ok (map persisted_note (tr_sapling_notes r)) rest"
    "vec_read (e_vec_orchard E) (read_orchard_note ma E ka rw wp)
       (vec_write (e_vec_orchard E) (write_note ma E write_orchard_crypto_note) (tr_orchard_notes r) @ rest) =
     Rd_Ok (map persisted_note (tr_orchard_notes r)) rest"
    "vec_read (e_vec_transparent E) (read_transparent E ka)
       (vec_write (e_vec_transparent E) (write_transparent E) (tr_transparent_outputs r) @ rest) =
     Rd_Ok (map persisted_transparent (tr_transparent_outputs r)) rest"
    "vec_read (e_vec_outgoing E) (read_outgoing ma ka)
       (vec_write (e_vec_outgoing E) (write_outgoing ma) (tr_outgoing_tx_data r) @ rest) =
     Rd_Ok (map persisted_outgoing (tr_outgoing_tx_data r)) rest"
  using assms encodings_okD [OF assms(1)]
  by (auto intro!: sapling_store.vec_keep orchard_store.vec_keep transparent_store.vec_keep
      outgoing_store.vec_keep simp: record_ok_def list_all_iff)

lemma read_write_record_with:
  assumes "encodings_ok E" "record_ok ma ka r"
    and pools: "\<And>rest. read_saplings (vec_write (e_vec_sapling E) (write_note ma E write_sapling_crypto_note)
        (tr_sapling_notes r) @ rest) = Rd_Ok (map persisted_note (tr_sapling_notes r), sw) rest"
      "\<And>rest. read_orchards (vec_write (e_vec_orchard E) (write_note ma E write_orchard_crypto_note)
        (tr_orchard_notes r) @ rest) = Rd_Ok (map persisted_note (tr_orchard_notes r), ow) rest"
  shows "read_record_with ma E ka read_saplings read_orchards (write_record ma E r @ rest) =
    Rd_Ok (persisted_record r, sw, ow) rest"
proof -
  note laws = encodings_okD [OF assms(1)]
  have v: "\<not> (23 :: u64) \<le> 20" "(4 :: u64) \<le> 23" "(22 :: u64) < 23" "(22 :: u64) \<le> 23"
    "\<not> (23 :: u64) \<le> 4" "\<not> (23 :: u64) \<le> 5" "\<not> (23 :: u64) \<le> 21" by simp_all
  have pend: "((if \<not> is_confirmed s then 1 else 0) = (1 :: byte)) = (\<not> is_confirmed s)" for s
    by simp
  have len: "length (tr_txid r) = 32" using assms(2) by (simp add: record_ok_def)
  have nfs: "vec_read (e_vec_bytes E) (read_exact 32)
       (vec_write (e_vec_bytes E) (\<lambda>n. n) (tr_spent_sapling_nullifiers r) @ rest) =
     Rd_Ok (tr_spent_sapling_nullifiers r) rest"
    "vec_read (e_vec_bytes E) (read_nullifier (ka_valid_orchard_nullifier ka))
       (vec_write (e_vec_bytes E) (\<lambda>n. n) (tr_spent_orchard_nullifiers r) @ rest) =
     Rd_Ok (tr_spent_orchard_nullifiers r) rest" for rest
    using assms(2) by (auto simp: record_ok_def list_all_bytes_read [OF laws(7)]
        list_all_nullifiers_read [OF laws(7)])
  have res: "\<lparr> tr_status = from_blockheight_and_pending_bool (get_height (tr_status r)) (\<not> is_confirmed (tr_status r)),
      tr_datetime = tr_datetime r, tr_txid = tr_txid r,
      tr_spent_sapling_nullifiers = tr_spent_sapling_nullifiers r,
      tr_spent_orchard_nullifiers = tr_spent_orchard_nullifiers r,
      tr_sapling_notes = map persisted_note (tr_sapling_notes r),
      tr_orchard_notes = map persisted_note (tr_orchard_notes r),
      tr_transparent_outputs = map persisted_transparent (tr_transparent_outputs r),
      tr_total_transparent_value_spent = tr_total_transparent_value_spent r,
      tr_total_sapling_value_spent = tr_total_sapling_value_spent r,
      tr_total_orchard_value_spent = tr_total_orchard_value_spent r,
      tr_outgoing_tx_data = map persisted_outgoing (tr_outgoing_tx_data r),
      tr_price = tr_price r \<rparr> = persisted_record r"
    by (cases r) (simp add: persisted_record_def read_write_status_of_record)
  show ?thesis
    using len res
    by (simp add: read_record_with_def write_record_def rd_bind_apply pools record_serialized_version_def v pend
        value_spent_by_pool_def read_write_record_fields [OF assms(1,2)] nfs opt_u64_read [OF laws(1)]
        del: read_write_status_of_record)
qed

lemma read_write_record:
  assumes "encodings_ok E" "record_ok ma ka r"
  shows "read_record ma E ka rw wp (write_record ma E r @ rest) = Rd_Ok (persisted_record r) rest"
proof -
  have "no_witnesses (vec_read (e_vec_sapling E) (read_sapling_note ma E ka rw wp))
      (vec_write (e_vec_sapling E) (write_note ma E write_sapling_crypto_note) (tr_sapling_notes r) @ rest) =
     Rd_Ok (map persisted_note (tr_sapling_notes r), []) rest"
    "no_witnesses (vec_read (e_vec_orchard E) (read_orchard_note ma E ka rw wp))
      (vec_write (e_vec_orchard E) (write_note ma E write_orchard_crypto_note) (tr_orchard_notes r) @ rest) =
     Rd_Ok (map persisted_note (tr_orchard_notes r), []) rest" for rest
    by (simp_all add: no_witnesses_def read_write_record_fields [OF assms])
  note with_pools = read_write_record_with [OF assms this]
  show ?thesis by (simp add: read_record_def rd_bind_apply with_pools)
qed

interpretation record_store:
  lossy_codec "write_record ma E" "read_record ma E ka read_wit wit_position" persisted_record
    "\<lambda>r. encodings_ok E \<and> record_ok ma ka r" for ma E ka read_wit wit_position
  by unfold_locales (simp add: read_write_record)

lemma read_write_price_info:
  assumes "opt_laws (e_opt_u64 E)"
  shows "read_price_info E (write_price_info E p @ rest) =
         Rd_Ok (p\<lparr> zp_zec_price := None, zp_currency := ''USD'' \<rparr>) rest"
  by (cases p) (simp add: read_price_info_def write_price_info_def rd_bind_apply opt_u64_read [OF assms])

lemma persisted_record_idem: "persisted_record (persisted_record r) = persisted_record r"
  by (cases r) (auto simp: persisted_record_def persisted_status_def persisted_note_def
      persisted_transparent_def persisted_outgoing_def split: option.splits)

lemma read_status_any_version:
  "read_status (v # tl (write_status s) @ rest) = Rd_Ok s rest"
  by (cases s) (simp_all add: read_status_def rd_bind_apply Let_def get_version_def write_u8_def)

lemma witness_cache_pop_spec:
  assumes "0 < at_height"
  shows "witness_cache_pop at_height c =
    (let k = min (length (wc_witnesses c)) (unat (wc_top_height c) + 1 - unat at_height)
     in \<lparr> wc_witnesses = take (length (wc_witnesses c) - k) (wc_witnesses c),
          wc_top_height = wc_top_height c - word_of_nat k \<rparr>)"
  using assms
proof (induction at_height c rule: witness_cache_pop.induct)
  case (1 at_height c)
  let ?n = "length (wc_witnesses c)" and ?k = "min (length (wc_witnesses c)) (unat (wc_top_height c) + 1 - unat at_height)"
  show ?case
  proof (cases "wc_witnesses c \<noteq> [] \<and> wc_top_height c \<ge> at_height")
    case True
    have t: "0 < wc_top_height c" using True "1.prems" by auto
    then have u: "unat (wc_top_height c - 1) = unat (wc_top_height c) - 1"
      by (simp add: unat_minus_one)
    have le: "unat at_height \<le> unat (wc_top_height c)" "0 < ?n" "0 < unat (wc_top_height c)"
      using True t by (auto simp: word_le_nat_alt word_less_nat_alt)
    define k where "k = min (?n - 1) (unat (wc_top_height c) - unat at_height)"
    then have k: "?k = Suc k" "min (?n - 1) (unat (wc_top_height c) - unat at_height) = k"
      using le by linarith+
    have tk: "take (?n - 1 - k) (butlast (wc_witnesses c)) = take (?n - Suc k) (wc_witnesses c)"
      by (simp add: take_butlast butlast_conv_take min_def)
    have w: "1 + word_of_nat k = (word_of_nat (Suc k) :: u64)" by simp
    show ?thesis
      using True "1.IH" "1.prems" u le k tk
      by (subst witness_cache_pop.simps) (simp add: Let_def diff_diff_eq)
  next
    case False
    then have "?k = 0" by (auto simp: word_le_nat_alt)
    then show ?thesis using False
      by (subst witness_cache_pop.simps) (auto simp: Let_def)
  qed
qed

lemma read_write_block_data:
  assumes "vec_laws (e_vec_byte E)" "bd_ecb b \<noteq> []" "length (bd_ecb b) \<le> max_vec_len"
    "length (block_hash (bd_ecb b)) = 32" "\<And>rest. read_tree (empty_tree @ rest) = Rd_Ok () rest"
  shows "read_block_data E encode_hash_block read_tree (write_block_data E block_hash empty_tree b @ rest) =
     Rd_Ok (b\<lparr> bd_height := scast (ucast (bd_height b) :: u32) \<rparr>) rest"
proof -
  have v: "\<not> (20 :: u64) \<le> 11" by simp
  show ?thesis using assms(2-5)
    by (cases b) (simp add: read_block_data_def write_block_data_def rd_bind_apply v
       block_data_serialized_version_def vec_byte_read [OF assms(1)])
qed

lemma scast_ucast_small:
  fixes h :: u64
  assumes "unat h < 2 ^ 31"
  shows "scast (ucast h :: u32) = h"
proof (rule bit_word_eqI)
  fix n assume n: "n < LENGTH(64)"
  have hi: "\<not> bit h m" if "31 \<le> m" for m
  proof -
    have "2 ^ 31 \<le> (2 ^ m :: nat)" using that by (rule power_increasing) simp
    then have "unat h div 2 ^ m = 0" using assms by simp
    then have "\<not> bit (unat h) m" by (simp add: bit_iff_odd)
    then show ?thesis by (simp add: bit_unsigned_iff)
  qed
  then show "bit (scast (ucast h :: u32) :: u64) n = bit h n"
    using n by (cases "n < 31") (auto simp: bit_simps min_def)
qed

section \<open>A concrete framing\<close>

definition tagged_opt :: "'a opt_codec" where
  "tagged_opt = \<lparr>
     opt_write = (\<lambda>w x. case x of None \<Rightarrow> write_u8 0 | Some v \<Rightarrow> write_u8 1 @ w v),
     opt_read = (\<lambda>r. rd_bind read_u8 (\<lambda>b. if b = 0 then rd_return None
        else if b = 1 then rd_bind r (\<lambda>v. rd_return (Some v))
        else rd_fail (InvalidInput ''non-canonical Option''))) \<rparr>"

fun read_n :: "nat \<Rightarrow> 'a reader \<Rightarrow> 'a list reader" where
  "read_n 0 r = rd_return []"
| "read_n (Suc n) r = rd_bind r (\<lambda>x. rd_bind (read_n n r) (\<lambda>xs. rd_return (x # xs)))"

definition counted_vec :: "'a vec_codec" where
  "counted_vec = \<lparr>
     vec_write = (\<lambda>w xs. write_u32 (word_of_nat (length xs)) @ concat (map w xs)),
     vec_read = (\<lambda>r. rd_bind read_u32 (\<lambda>n. if unat n > max_vec_len then rd_fail (InvalidInput ''CompactSize too large'')
        else read_n (unat n) r)) \<rparr>"

lemma tagged_opt_laws: "opt_laws tagged_opt"
  by (auto simp: opt_laws_def tagged_opt_def rd_bind_apply split: option.splits)

lemma read_n_concat:
  assumes "\<And>x rest. x \<in> set xs \<Longrightarrow> r (w x @ rest) = Rd_Ok (f x) rest"
  shows "read_n (length xs) r (concat (map w xs) @ rest) = Rd_Ok (map f xs) rest"
  using assms by (induction xs) (auto simp: rd_bind_apply)

lemma counted_vec_laws: "vec_laws counted_vec"
proof (unfold vec_laws_def, intro allI impI, elim conjE)
  fix w :: "'a \<Rightarrow> byte list" and r :: "'a reader" and f :: "'a \<Rightarrow> 'a" and xs rest
  assume len: "length xs \<le> max_vec_len" and r: "\<forall>x\<in>set xs. \<forall>rest. r (w x @ rest) = Rd_Ok (f x) rest"
  have "unat (word_of_nat (length xs) :: u32) = length xs"
    using len by (intro unat_word_of_nat_len) (simp add: max_vec_len_def)
  then show "vec_read counted_vec r (vec_write counted_vec w xs @ rest) = Rd_Ok (map f xs) rest"
    using len r by (simp add: counted_vec_def rd_bind_apply read_n_concat)
qed

definition example_encodings :: "unit encodings" where
  "example_encodings = \<lparr> e_opt_u64 = tagged_opt, e_opt_u32 = tagged_opt, e_opt_bytes = tagged_opt,
     e_opt_bytes_u32 = tagged_opt, e_opt_spend = tagged_opt, e_opt_memo = tagged_opt,
     e_vec_byte = counted_vec, e_vec_bytes = counted_vec, e_vec_witness = counted_vec,
     e_vec_sapling = counted_vec, e_vec_orchard = counted_vec, e_vec_transparent = counted_vec,
     e_vec_outgoing = counted_vec \<rparr>"

lemma example_encodings_ok: "encodings_ok example_encodings"
  by (simp add: encodings_ok_def example_encodings_def tagged_opt_laws counted_vec_laws)

definition example_memo_api :: memo_api where
  "example_memo_api = \<lparr>
     ma_encode = (\<lambda>m. case m of Memo_Future bs \<Rightarrow> bs | _ \<Rightarrow> 0xF6 # replicate 511 0),
     ma_from_bytes = (\<lambda>bs. if length bs \<le> 512 then Some bs else None),
     ma_try_from = (\<lambda>bs. if bs = 0xF6 # replicate 511 0 then Some Memo_Empty else None) \<rparr>"

definition example_key_api :: key_api where
  "example_key_api = \<lparr> ka_utf8_valid = list_all (\<lambda>b. b < 128), ka_sapling_address = Some, ka_orchard_address = (\<lambda>d. d),
     ka_valid_fr = (\<lambda>_. True), ka_valid_rho = (\<lambda>_. True), ka_valid_rseed = (\<lambda>_ _. True),
     ka_valid_orchard_note = (\<lambda>_. True), ka_valid_orchard_nullifier = (\<lambda>_. True) \<rparr>"

lemma map_id_iff: "map f xs = xs \<longleftrightarrow> list_all (\<lambda>x. f x = x) xs"
  by (induction xs) auto

lemma persisted_note_id_iff [simp]: "persisted_note n = n \<longleftrightarrow> sn_output_index n \<noteq> Some (- 1)"
  by (cases n) (auto simp: persisted_note_def)

lemma persisted_transparent_id_iff [simp]:
  "persisted_transparent t = t \<longleftrightarrow> pred_option (\<lambda>(_, s). is_confirmed s) (to_spend t)"
  by (cases t) (auto simp: persisted_transparent_def split: option.splits)

lemma persisted_outgoing_id_iff [simp]: "persisted_outgoing otd = otd \<longleftrightarrow> ot_recipient_ua otd = None"
  by (cases otd) (auto simp: persisted_outgoing_def split: option.splits)

lemma persisted_status_id_iff [simp]:
  "persisted_status s = s \<longleftrightarrow> is_confirmed s \<or> s = Transmitted (get_height s)"
  by (cases s) (auto simp: persisted_status_def)

definition fully_persisted :: "transaction_record \<Rightarrow> bool" where
  "fully_persisted r \<longleftrightarrow>
     (is_confirmed (tr_status r) \<or> tr_status r = Transmitted (get_height (tr_status r))) \<and>
     list_all (\<lambda>n. sn_output_index n \<noteq> Some (- 1)) (tr_sapling_notes r) \<and>
     list_all (\<lambda>n. sn_output_index n \<noteq> Some (- 1)) (tr_orchard_notes r) \<and>
     list_all (\<lambda>t. pred_option (\<lambda>(_, s). is_confirmed s) (to_spend t)) (tr_transparent_outputs r) \<and>
     list_all (\<lambda>otd. ot_recipient_ua otd = None) (tr_outgoing_tx_data r)"

lemma persisted_record_id_iff: "persisted_record r = r \<longleftrightarrow> fully_persisted r"
  by (cases r) (auto simp: persisted_record_def fully_persisted_def map_id_iff)

definition stored_sapling :: sapling_note where
  "stored_sapling = shielded_from_parts (replicate 11 7)
     \<lparr> sc_recipient = replicate 11 7, sc_value = 5000, sc_rseed = AfterZip212 (replicate 32 9) \<rparr>
     (Some 12) (Some (replicate 32 3)) (Some (replicate 32 4, Mempool 80)) (Some Memo_Empty) False True (Some 0)"

definition stored_orchard :: orchard_note where
  "stored_orchard = shielded_from_parts (replicate 11 8)
     \<lparr> oc_recipient = replicate 11 8, oc_value = 700, oc_rho = replicate 32 1, oc_rseed = replicate 32 2 \<rparr>
     None None None None True True None"

definition stored_coin :: transparent_output where
  "stored_coin = transparent_from_parts ''tmReceiver'' (replicate 32 6) 1 [118, 169] 90
     (Some (replicate 32 4, Transmitted 80))"

definition stored_record :: transaction_record where
  "stored_record = (new_record (Mempool 78) 1700000000 (replicate 32 6))\<lparr>
     tr_sapling_notes := [stored_sapling], tr_orchard_notes := [stored_orchard],
     tr_transparent_outputs := [stored_coin], tr_spent_orchard_nullifiers := [replicate 32 5],
     tr_total_orchard_value_spent := 6000,
     tr_outgoing_tx_data := [\<lparr> ot_recipient_address = ''zs1'', ot_value = 210, ot_memo = Memo_Empty,
                               ot_recipient_ua = Some ''u1'' \<rparr>] \<rparr>"

lemma stored_ok:
  "sapling_ok example_memo_api example_key_api stored_sapling"
  "orchard_ok example_memo_api example_key_api stored_orchard"
  "transparent_ok example_key_api stored_coin"
  by (simp_all add: sapling_ok_def orchard_ok_def transparent_ok_def note_ok_def rseed_ok_def memo_ok_def
      stored_sapling_def stored_orchard_def stored_coin_def shielded_from_parts_def transparent_from_parts_def
      example_memo_api_def example_key_api_def string_bytes_def max_vec_len_def)

lemma stored_outgoing_ok:
  "outgoing_ok example_memo_api example_key_api
     \<lparr> ot_recipient_address = ''zs1'', ot_value = 210, ot_memo = Memo_Empty, ot_recipient_ua = Some ''u1'' \<rparr>"
  by (simp add: outgoing_ok_def memo_ok_def example_memo_api_def example_key_api_def string_bytes_def)

lemma stored_record_ok: "record_ok example_memo_api example_key_api stored_record"
  by (simp add: record_ok_def stored_record_def new_record_def stored_ok stored_outgoing_ok max_vec_len_def)
     (simp add: example_key_api_def)

section \<open>Properties\<close>

text \<open>C8. Reading the bytes that writing a transaction record produced gives the record back and leaves
  the rest of the input, with exactly these fields changed: an unconfirmed status comes back as
  \<open>Transmitted\<close>, the reserved output index as none, a transparent spend that is not confirmed as no
  spend, and a recipient's unified address in the place of the recipient address.\<close>

theorem record_roundtrip:
  assumes "encodings_ok E" "record_ok ma ka r"
  shows "read_record ma E ka read_wit wit_position (write_record ma E r @ rest) =
         Rd_Ok (r\<lparr> tr_status := persisted_status (tr_status r),
                  tr_sapling_notes := map persisted_note (tr_sapling_notes r),
                  tr_orchard_notes := map persisted_note (tr_orchard_notes r),
                  tr_transparent_outputs := map persisted_transparent (tr_transparent_outputs r),
                  tr_outgoing_tx_data := map persisted_outgoing (tr_outgoing_tx_data r) \<rparr>) rest"
  unfolding persisted_record_def [symmetric] using assms by (intro record_store.dec_keep) simp

theorem record_roundtrip_witness:
  "read_record example_memo_api example_encodings example_key_api (\<lambda>_. Rd_Panic) (\<lambda>_. 0)
     (write_record example_memo_api example_encodings stored_record @ [1]) =
   Rd_Ok (persisted_record stored_record) [1]"
  unfolding persisted_record_def
  by (rule record_roundtrip [OF example_encodings_ok stored_record_ok])

text \<open>A record survives writing and reading unchanged exactly when it is confirmed or transmitted, no
  note has the reserved output index, every transparent spend is confirmed and no outgoing datum
  carries a unified address.\<close>

theorem record_roundtrip_exact_iff:
  assumes "encodings_ok E" "record_ok ma ka r"
  shows "read_record ma E ka read_wit wit_position (write_record ma E r @ rest) = Rd_Ok r rest \<longleftrightarrow>
    (is_confirmed (tr_status r) \<or> tr_status r = Transmitted (get_height (tr_status r))) \<and>
    (\<forall>n \<in> set (tr_sapling_notes r). sn_output_index n \<noteq> Some (- 1)) \<and>
    (\<forall>n \<in> set (tr_orchard_notes r). sn_output_index n \<noteq> Some (- 1)) \<and>
    (\<forall>t \<in> set (tr_transparent_outputs r). \<forall>txid s. to_spend t = Some (txid, s) \<longrightarrow> is_confirmed s) \<and>
    (\<forall>otd \<in> set (tr_outgoing_tx_data r). ot_recipient_ua otd = None)"
proof -
  have "read_record ma E ka read_wit wit_position (write_record ma E r @ rest) = Rd_Ok r rest \<longleftrightarrow> fully_persisted r"
    using read_write_record [OF assms] by (simp add: persisted_record_id_iff)
  then show ?thesis by (auto simp: fully_persisted_def list_all_iff option.pred_set)
qed

theorem record_roundtrip_exact_iff_witness:
  "read_record example_memo_api example_encodings example_key_api (\<lambda>_. Rd_Panic) (\<lambda>_. 0)
     (write_record example_memo_api example_encodings stored_record) \<noteq> Rd_Ok stored_record []"
  using record_roundtrip_exact_iff [OF example_encodings_ok stored_record_ok,
      where rest = "[]" and read_wit = "\<lambda>_. Rd_Panic" and wit_position = "\<lambda>_. 0"]
  by (simp add: stored_record_def new_record_def)

text \<open>A stored block with a non-empty encoded compact block and a height below \<open>2 ^ 31\<close> is read back as
  it was written.\<close>

theorem block_data_roundtrip:
  assumes "vec_laws (e_vec_byte E)" "bd_ecb b \<noteq> []" "length (bd_ecb b) \<le> max_vec_len"
    and "length (block_hash (bd_ecb b)) = 32" "\<And>rest. read_tree (empty_tree @ rest) = Rd_Ok () rest"
    and "unat (bd_height b) < 2 ^ 31"
  shows "read_block_data E encode_hash_block read_tree (write_block_data E block_hash empty_tree b @ rest) =
         Rd_Ok b rest"
proof -
  have "read_block_data E encode_hash_block read_tree (write_block_data E block_hash empty_tree b @ rest) =
      Rd_Ok (b\<lparr> bd_height := scast (ucast (bd_height b) :: u32) \<rparr>) rest"
    using assms(1-5) by (rule read_write_block_data)
  then show ?thesis using scast_ucast_small [OF assms(6)] by simp
qed

theorem block_data_roundtrip_witness:
  "read_block_data example_encodings (\<lambda>h. h) (rd_return ())
     (write_block_data example_encodings (\<lambda>_. replicate 32 0) [] \<lparr> bd_ecb = [1, 2], bd_height = 70 \<rparr> @ []) =
   Rd_Ok \<lparr> bd_ecb = [1, 2], bd_height = 70 \<rparr> []"
  using encodings_okD(6) [OF example_encodings_ok]
  by (intro block_data_roundtrip) (simp_all add: max_vec_len_def)

end
