(* ===== verification/Zingo_Memo.thy ===== *)
theory Zingo_Memo
  imports Serialization_Laws
begin

text \<open>
  The crate \<open>zingo-memo\<close>: the memo in which the wallet writes down, for a later rescan, the unified
  addresses it sent to and the indexes of the refund addresses it used.

  \<open>CompactSize\<close> and \<open>Vector\<close> of \<open>zcash_encoding\<close>, and the conversions between a unified address and its
  receivers of \<open>zcash_address\<close> and \<open>zcash_keys\<close>, are the arguments \<open>'ua memo_format\<close>; their documented
  behaviour is \<open>format_ok\<close> and, for the sizes, \<open>format_counted\<close>.
\<close>

section \<open>Receivers\<close>

datatype receiver =
    R_Orchard "byte list"
  | R_Sapling "byte list"
  | R_P2pkh "byte list"
  | R_P2sh "byte list"
  | R_Unknown u32 "byte list"

record 'ua memo_format =
  mf_cs_write :: "nat writer"
  mf_cs_read :: "nat reader"
  mf_cs_read_u32 :: "u32 reader"
  mf_vec_ua :: "'ua vec_codec"
  mf_vec_receiver :: "receiver vec_codec"
  mf_vec_index :: "u32 vec_codec"
  mf_items :: "'ua \<Rightarrow> receiver list"
  mf_from_items :: "receiver list \<Rightarrow> string + 'ua"

fun receiver_parts :: "receiver \<Rightarrow> u32 \<times> byte list" where
  "receiver_parts (R_Orchard data) = (3, data)"
| "receiver_parts (R_Sapling data) = (2, data)"
| "receiver_parts (R_P2pkh data) = (0, data)"
| "receiver_parts (R_P2sh data) = (1, data)"
| "receiver_parts (R_Unknown typecode data) = (typecode, data)"

definition write_receiver :: "'ua memo_format \<Rightarrow> receiver writer" where
  "write_receiver F receiver =
     (let (typecode, data) = receiver_parts receiver
      in mf_cs_write F (unat typecode) @ mf_cs_write F (length data) @ data)"

definition write_unified_address_to_raw_encoding :: "'ua memo_format \<Rightarrow> 'ua writer" where
  "write_unified_address_to_raw_encoding F ua =
     vec_write (mf_vec_receiver F) (write_receiver F) (mf_items F ua)"

definition sized :: "nat \<Rightarrow> (byte list \<Rightarrow> receiver) \<Rightarrow> byte list \<Rightarrow> receiver reader" where
  "sized n con data =
     (if length data = n then rd_return (con data)
      else rd_fail (InvalidData ''Typecode indicates another length''))"

definition decode_receiver :: "nat \<Rightarrow> byte list \<Rightarrow> receiver reader" where
  "decode_receiver typecode data =
     (if typecode = 0 then sized 20 R_P2pkh data
      else if typecode = 1 then sized 20 R_P2sh data
      else if typecode = 2 then sized 43 R_Sapling data
      else if typecode = 3 then sized 43 R_Orchard data
      else rd_return (R_Unknown (word_of_nat typecode) data))"

definition read_receiver :: "'ua memo_format \<Rightarrow> receiver reader" where
  "read_receiver F =
     rd_bind (mf_cs_read F) (\<lambda>typecode.
     rd_bind (mf_cs_read F) (\<lambda>addr_len.
     rd_bind (read_exact addr_len) (\<lambda>receiver_bytes.
     decode_receiver typecode receiver_bytes)))"

definition read_unified_address_from_raw_encoding :: "'ua memo_format \<Rightarrow> 'ua reader" where
  "read_unified_address_from_raw_encoding F =
     rd_bind (vec_read (mf_vec_receiver F) (read_receiver F)) (\<lambda>receivers.
     case mf_from_items F receivers of
       Inl e \<Rightarrow> rd_fail (InvalidData e)
     | Inr ua \<Rightarrow> rd_return ua)"

section \<open>Memos\<close>

datatype 'ua parsed_memo =
    Version0 "'ua list"
  | Version1 "'ua list" "u32 list"

definition pad_memo :: "string \<Rightarrow> byte list \<Rightarrow> io_error + byte list" where
  "pad_memo msg bs =
     (if length bs > 511 then Inl (InvalidData msg) else Inr (bs @ replicate (511 - length bs) 0))"

definition create_wallet_internal_memo_version_0 ::
  "'ua memo_format \<Rightarrow> 'ua list \<Rightarrow> io_error + byte list" where
  "create_wallet_internal_memo_version_0 F uas =
     pad_memo ''Too many uas to fit in memo field''
       (mf_cs_write F 0 @ vec_write (mf_vec_ua F) (write_unified_address_to_raw_encoding F) uas)"

definition create_wallet_internal_memo_version_1 ::
  "'ua memo_format \<Rightarrow> 'ua list \<Rightarrow> u32 list \<Rightarrow> io_error + byte list" where
  "create_wallet_internal_memo_version_1 F uas ephemeral_address_indexes =
     pad_memo ''Too many addresses to fit in memo field''
       (mf_cs_write F 1 @ vec_write (mf_vec_ua F) (write_unified_address_to_raw_encoding F) uas @
        vec_write (mf_vec_index F) (\<lambda>ea_index. mf_cs_write F (unat ea_index)) ephemeral_address_indexes)"

definition parse_zingo_memo :: "'ua memo_format \<Rightarrow> 'ua parsed_memo reader" where
  "parse_zingo_memo F =
     rd_bind (mf_cs_read F) (\<lambda>version.
     if version = 0 then
       rd_bind (vec_read (mf_vec_ua F) (read_unified_address_from_raw_encoding F)) (\<lambda>uas.
       rd_return (Version0 uas))
     else if version = 1 then
       rd_bind (vec_read (mf_vec_ua F) (read_unified_address_from_raw_encoding F)) (\<lambda>uas.
       rd_bind (vec_read (mf_vec_index F) (mf_cs_read_u32 F)) (\<lambda>rejection_address_indexes.
       rd_return (Version1 uas rejection_address_indexes)))
     else rd_fail (InvalidData ''Received memo from a future version of this protocol.''))"

section \<open>Documented behaviour of the formats\<close>

definition format_ok :: "'ua memo_format \<Rightarrow> bool" where
  "format_ok F \<longleftrightarrow>
     (\<forall>n rest. n \<le> max_vec_len \<longrightarrow> mf_cs_read F (mf_cs_write F n @ rest) = Rd_Ok n rest) \<and>
     (\<forall>i rest. unat i \<le> max_vec_len \<longrightarrow>
        mf_cs_read_u32 F (mf_cs_write F (unat i) @ rest) = Rd_Ok i rest) \<and>
     vec_laws (mf_vec_ua F) \<and> vec_laws (mf_vec_receiver F) \<and> vec_laws (mf_vec_index F)"

definition format_counted :: "'ua memo_format \<Rightarrow> bool" where
  "format_counted F \<longleftrightarrow>
     (\<forall>n < 253. length (mf_cs_write F n) = 1) \<and>
     (\<forall>w xs. vec_write (mf_vec_ua F) w xs = mf_cs_write F (length xs) @ concat (map w xs)) \<and>
     (\<forall>w xs. vec_write (mf_vec_receiver F) w xs = mf_cs_write F (length xs) @ concat (map w xs)) \<and>
     (\<forall>w xs. vec_write (mf_vec_index F) w xs = mf_cs_write F (length xs) @ concat (map w xs))"

fun receiver_ok :: "receiver \<Rightarrow> bool" where
  "receiver_ok (R_Orchard data) = (length data = 43)"
| "receiver_ok (R_Sapling data) = (length data = 43)"
| "receiver_ok (R_P2pkh data) = (length data = 20)"
| "receiver_ok (R_P2sh data) = (length data = 20)"
| "receiver_ok (R_Unknown typecode data) =
     (unat typecode > 3 \<and> unat typecode \<le> max_vec_len \<and> length data \<le> max_vec_len)"

definition ua_ok :: "'ua memo_format \<Rightarrow> 'ua \<Rightarrow> bool" where
  "ua_ok F ua \<longleftrightarrow> length (mf_items F ua) \<le> max_vec_len \<and> list_all receiver_ok (mf_items F ua) \<and>
     mf_from_items F (mf_items F ua) = Inr ua"

section \<open>Laws\<close>

lemma read_write_receiver:
  assumes "format_ok F" "receiver_ok r"
  shows "read_receiver F (write_receiver F r @ rest) = Rd_Ok r rest"
proof -
  have cs: "mf_cs_read F (mf_cs_write F n @ rest) = Rd_Ok n rest" if "n \<le> max_vec_len" for n rest
    using assms(1) that by (simp add: format_ok_def)
  have small: "n \<le> max_vec_len" if "n < 100" for n using that by (simp add: max_vec_len_def)
  show ?thesis
    using assms(2) by (cases r)
      (simp_all add: write_receiver_def read_receiver_def rd_bind_apply cs small decode_receiver_def sized_def)
qed

lemma read_write_ua:
  assumes "format_ok F" "ua_ok F ua"
  shows "read_unified_address_from_raw_encoding F (write_unified_address_to_raw_encoding F ua @ rest) = Rd_Ok ua rest"
proof -
  have "vec_laws (mf_vec_receiver F)" using assms(1) by (simp add: format_ok_def)
  then have "vec_read (mf_vec_receiver F) (read_receiver F)
      (vec_write (mf_vec_receiver F) (write_receiver F) (mf_items F ua) @ rest) = Rd_Ok (mf_items F ua) rest"
    using assms(2) by (intro vec_lawsD_id) (auto simp: ua_ok_def list_all_iff read_write_receiver [OF assms(1)])
  then show ?thesis using assms(2)
    by (simp add: read_unified_address_from_raw_encoding_def write_unified_address_to_raw_encoding_def
        rd_bind_apply ua_ok_def)
qed

lemma read_write_uas:
  assumes "format_ok F" "length uas \<le> max_vec_len" "list_all (ua_ok F) uas"
  shows "vec_read (mf_vec_ua F) (read_unified_address_from_raw_encoding F)
     (vec_write (mf_vec_ua F) (write_unified_address_to_raw_encoding F) uas @ rest) = Rd_Ok uas rest"
  using assms by (intro vec_lawsD_id) (auto simp: list_all_iff read_write_ua format_ok_def)

lemma read_write_indexes:
  assumes "format_ok F" "length is \<le> max_vec_len" "list_all (\<lambda>i. unat i \<le> max_vec_len) is"
  shows "vec_read (mf_vec_index F) (mf_cs_read_u32 F)
     (vec_write (mf_vec_index F) (\<lambda>i. mf_cs_write F (unat i)) is @ rest) = Rd_Ok is rest"
  using assms by (intro vec_lawsD_id) (auto simp: list_all_iff format_ok_def)

lemma pad_memo_InrD: "pad_memo msg bs = Inr memo \<Longrightarrow> length memo = 511 \<and> (\<exists>pad. memo = bs @ pad)"
  by (auto simp: pad_memo_def split: if_splits)

lemma cs_version: "format_ok F \<Longrightarrow> n \<le> 1 \<Longrightarrow> mf_cs_read F (mf_cs_write F n @ rest) = Rd_Ok n rest"
  by (simp add: format_ok_def max_vec_len_def)

definition compact_write :: "nat writer" where
  "compact_write n = (if n < 253 then [word_of_nat n] else 254 # write_u32 (word_of_nat n))"

definition compact_read :: "nat reader" where
  "compact_read = rd_bind read_u8 (\<lambda>b.
     if b = 254 then rd_bind read_u32 (\<lambda>n. rd_return (unat n)) else rd_return (unat b))"

definition compact_vec :: "'a vec_codec" where
  "compact_vec = \<lparr>
     vec_write = (\<lambda>w xs. compact_write (length xs) @ concat (map w xs)),
     vec_read = (\<lambda>r. rd_bind compact_read (\<lambda>n. read_n n r)) \<rparr>"

definition compact_format :: "receiver list memo_format" where
  "compact_format = \<lparr> mf_cs_write = compact_write, mf_cs_read = compact_read,
     mf_cs_read_u32 = rd_bind compact_read (\<lambda>n. rd_return (word_of_nat n)),
     mf_vec_ua = compact_vec, mf_vec_receiver = compact_vec, mf_vec_index = compact_vec,
     mf_items = (\<lambda>rs. rs), mf_from_items = Inr \<rparr>"

lemma compact_read_write: "n \<le> max_vec_len \<Longrightarrow> compact_read (compact_write n @ rest) = Rd_Ok n rest"
proof -
  assume n: "n \<le> max_vec_len"
  have "unat (word_of_nat n :: u32) = n"
    using n by (intro unat_word_of_nat_len) (simp add: max_vec_len_def)
  moreover have "unat (word_of_nat n :: byte) = n" if "n < 253"
    using that by (intro unat_word_of_nat_len) simp
  moreover have "(word_of_nat n :: byte) \<noteq> 254" if "n < 253"
  proof
    assume "(word_of_nat n :: byte) = 254"
    then have "unat (word_of_nat n :: byte) = 254" by simp
    then show False using that calculation(2) by simp
  qed
  ultimately show ?thesis by (auto simp: compact_read_def compact_write_def rd_bind_apply)
qed

lemma compact_vec_laws: "vec_laws compact_vec"
  by (auto simp: vec_laws_def compact_vec_def rd_bind_apply compact_read_write read_n_concat)

lemma compact_format_ok: "format_ok compact_format"
  by (simp add: format_ok_def compact_format_def compact_read_write compact_vec_laws rd_bind_apply)

lemma compact_format_counted: "format_counted compact_format"
  by (simp add: format_counted_def compact_format_def compact_vec_def compact_write_def)

definition full_ua :: "receiver list" where
  "full_ua = [R_P2pkh (replicate 20 1), R_Sapling (replicate 43 2), R_Orchard (replicate 43 3)]"

lemma full_ua_ok: "ua_ok compact_format full_ua"
  by (simp add: ua_ok_def compact_format_def full_ua_def max_vec_len_def)

lemma length_write_receiver:
  assumes "format_counted F" "receiver_parts r = (typecode, data)" "unat typecode < 253" "length data < 253"
  shows "length (write_receiver F r) = 2 + length data"
  using assms by (simp add: write_receiver_def format_counted_def)

lemma length_write_full_ua:
  assumes "format_counted F" "mf_items F ua = [R_P2pkh p, R_Sapling s, R_Orchard q]"
    "length p = 20" "length s = 43" "length q = 43"
  shows "length (write_unified_address_to_raw_encoding F ua) = 113"
  using assms(1) assms(2-)
  by (simp add: write_unified_address_to_raw_encoding_def format_counted_def write_receiver_def)

lemma length_write_vec_ua:
  assumes "format_counted F" "length uas < 253" "\<And>ua. ua \<in> set uas \<Longrightarrow> length (w ua) = k"
  shows "length (vec_write (mf_vec_ua F) w uas) = 1 + k * length uas"
proof -
  have "sum_list (map (\<lambda>ua. length (w ua)) uas) = k * length uas"
    using assms(3) by (induction uas) auto
  then show ?thesis using assms(1,2) by (simp add: format_counted_def length_concat o_def)
qed

lemma parse_created_memo:
  assumes "format_ok F" "length uas \<le> max_vec_len" "list_all (ua_ok F) uas"
    and "length indexes \<le> max_vec_len" "list_all (\<lambda>i. unat i \<le> max_vec_len) indexes"
  shows "create_wallet_internal_memo_version_1 F uas indexes = Inr memo \<Longrightarrow>
         length memo = 511 \<and> (\<exists>rest. parse_zingo_memo F memo = Rd_Ok (Version1 uas indexes) rest)"
    and "create_wallet_internal_memo_version_0 F uas = Inr memo \<Longrightarrow>
         length memo = 511 \<and> (\<exists>rest. parse_zingo_memo F memo = Rd_Ok (Version0 uas) rest)"
  using read_write_uas [OF assms(1-3)] read_write_indexes [OF assms(1,4,5)] cs_version [OF assms(1)]
  by (auto dest!: pad_memo_InrD simp: create_wallet_internal_memo_version_1_def
      create_wallet_internal_memo_version_0_def parse_zingo_memo_def rd_bind_apply)

section \<open>Properties\<close>

text \<open>C38. A wallet-internal memo of either version has 511 bytes and parses back to the addresses and
  refund indexes it was made from.\<close>

theorem memo_roundtrip:
  assumes "format_ok F" "length uas \<le> max_vec_len" "\<forall>ua \<in> set uas. ua_ok F ua"
    and "length indexes \<le> max_vec_len" "\<forall>i \<in> set indexes. unat i \<le> max_vec_len"
  shows "(create_wallet_internal_memo_version_1 F uas indexes = Inr memo \<longrightarrow>
          length memo = 511 \<and> (\<exists>rest. parse_zingo_memo F memo = Rd_Ok (Version1 uas indexes) rest)) \<and>
         (create_wallet_internal_memo_version_0 F uas = Inr memo \<longrightarrow>
          length memo = 511 \<and> (\<exists>rest. parse_zingo_memo F memo = Rd_Ok (Version0 uas) rest))"
  using parse_created_memo [OF assms(1,2) _ assms(4)] assms(3,5) by (auto simp: list_all_iff)

theorem memo_roundtrip_witness:
  "\<exists>memo rest. create_wallet_internal_memo_version_1 compact_format [full_ua] [0, 7] = Inr memo \<and>
     parse_zingo_memo compact_format memo = Rd_Ok (Version1 [full_ua] [0, 7]) rest"
proof -
  obtain memo where m: "create_wallet_internal_memo_version_1 compact_format [full_ua] [0, 7] = Inr memo"
    by (simp add: create_wallet_internal_memo_version_1_def pad_memo_def compact_format_def compact_vec_def
        compact_write_def write_unified_address_to_raw_encoding_def write_receiver_def full_ua_def)
  have "\<exists>rest. parse_zingo_memo compact_format memo = Rd_Ok (Version1 [full_ua] [0, 7]) rest"
    using memo_roundtrip [OF compact_format_ok, of "[full_ua]" "[0, 7]" memo] full_ua_ok m
    by (simp add: max_vec_len_def)
  with m show ?thesis by blast
qed



end
