(* ===== verification/Light_Wallet.thy ===== *)
theory Light_Wallet
  imports Block_Management Zingo_Memo Record_Steps
begin

text \<open>
  The wallet itself: its state and setters (\<open>wallet.rs\<close>), the balances and heights it reports
  (\<open>wallet/describe.rs\<close>), the parts of \<open>wallet/send.rs\<close> that choose the anchor and write the memo of the
  change, and the price lookup of \<open>wallet/utils.rs\<close>.

  Locks and reference counts are left out: a method is a function of the wallet's state. The fields
  of the optional feature \<open>sync\<close> are left out; a mnemonic is its phrase and account index. The
  activation heights of the public networks are arguments, as are the time and the reading of
  payment addresses. Sums of \<open>u64\<close> wrap, as in the release build.
\<close>

section \<open>Options\<close>

datatype memo_download_option = NoMemos | WalletMemos | AllMemos

record wallet_options =
  wo_download_memos :: memo_download_option
  wo_transaction_size_filter :: "u32 option"

definition MAX_TRANSACTION_SIZE_DEFAULT :: u32 where
  "MAX_TRANSACTION_SIZE_DEFAULT = 500"

definition default_wallet_options :: wallet_options where
  "default_wallet_options =
     \<lparr> wo_download_memos = WalletMemos,
       wo_transaction_size_filter = Some MAX_TRANSACTION_SIZE_DEFAULT \<rparr>"

definition options_serialized_version :: u64 where
  "options_serialized_version = 2"

fun memo_option_byte :: "memo_download_option \<Rightarrow> byte" where
  "memo_option_byte NoMemos = 0"
| "memo_option_byte WalletMemos = 1"
| "memo_option_byte AllMemos = 2"

definition write_options :: "'w encodings \<Rightarrow> wallet_options writer" where
  "write_options E opts =
     write_u64 options_serialized_version @ write_u8 (memo_option_byte (wo_download_memos opts)) @
     opt_write (e_opt_u32 E) write_u32 (wo_transaction_size_filter opts)"

definition read_options :: "'w encodings \<Rightarrow> wallet_options reader" where
  "read_options E =
     rd_bind read_u64 (\<lambda>external_version.
     rd_bind read_u8 (\<lambda>v.
     rd_bind (if v = 0 then rd_return NoMemos
              else if v = 1 then rd_return WalletMemos
              else if v = 2 then rd_return AllMemos
              else rd_fail (InvalidData ''Bad download option'')) (\<lambda>download_memos.
     rd_bind (if external_version > 1 then opt_read (e_opt_u32 E) read_u32
              else rd_return (Some 500)) (\<lambda>transaction_size_filter.
     rd_return \<lparr> wo_download_memos = download_memos,
                 wo_transaction_size_filter = transaction_size_filter \<rparr>))))"

section \<open>State\<close>

record view_key =
  vk_transparent :: bool
  vk_sapling :: bool
  vk_orchard :: bool

datatype unified_key_store = KS_Spend | KS_View view_key | KS_Empty

record send_progress =
  sp_id :: u32
  sp_is_send_in_progress :: bool
  sp_progress :: u32
  sp_total :: u32
  sp_last_result :: "(string + string) option"

definition new_send_progress :: "u32 \<Rightarrow> send_progress" where
  "new_send_progress i =
     \<lparr> sp_id = i, sp_is_send_in_progress = False, sp_progress = 0, sp_total = 0, sp_last_result = None \<rparr>"

record ('t, 'uri) light_wallet =
  lw_birthday :: u64
  lw_mnemonic :: "(string \<times> u32) option"
  lw_last_100_blocks :: "block_data list"
  lw_wallet_options :: wallet_options
  lw_verified_tree :: "tree_state option"
  lw_send_progress :: send_progress
  lw_price :: wallet_zec_price_info
  lw_key_store :: unified_key_store
  lw_config :: "'uri zingo_config"
  lw_tx_map :: "'t tx_map"

text \<open>\<open>activation\<close> is \<open>config.sapling_activation_height()\<close>.\<close>

definition adjust_wallet_birthday ::
  "u64 \<Rightarrow> u64 \<Rightarrow> ('t, 'uri) light_wallet \<Rightarrow> ('t, 'uri) light_wallet" where
  "adjust_wallet_birthday activation new_birthday w =
     (if new_birthday < lw_birthday w then w\<lparr> lw_birthday := max new_birthday activation \<rparr> else w)"

definition clear_all ::
  "'t tree_ops \<Rightarrow> ('t, 'uri) light_wallet \<Rightarrow> ('t, 'uri) light_wallet option" where
  "clear_all ops w =
     map_option (\<lambda>tm. w\<lparr> lw_last_100_blocks := [], lw_tx_map := tm \<rparr>) (clear_tx_map ops (lw_tx_map w))"

fun memo_str :: "memo option \<Rightarrow> string option" where
  "memo_str (Some (Memo_Text m)) = Some m"
| "memo_str (Some (Memo_Arbitrary _)) = Some ''Wallet-internal memo''"
| "memo_str _ = None"

definition set_blocks :: "block_data list \<Rightarrow> ('t, 'uri) light_wallet \<Rightarrow> ('t, 'uri) light_wallet" where
  "set_blocks new_blocks w = w\<lparr> lw_last_100_blocks := new_blocks \<rparr>"

definition set_download_memo ::
  "memo_download_option \<Rightarrow> ('t, 'uri) light_wallet \<Rightarrow> ('t, 'uri) light_wallet" where
  "set_download_memo v w =
     w\<lparr> lw_wallet_options := (lw_wallet_options w)\<lparr> wo_download_memos := v \<rparr> \<rparr>"

text \<open>The hash is taken as its decoded bytes.\<close>

definition set_initial_block ::
  "(byte list \<Rightarrow> byte list) \<Rightarrow> u64 \<Rightarrow> byte list \<Rightarrow> ('t, 'uri) light_wallet \<Rightarrow>
   ('t, 'uri) light_wallet \<times> bool" where
  "set_initial_block encode_hash_block height hash w =
     (if lw_last_100_blocks w \<noteq> [] then (w, False)
      else (w\<lparr> lw_last_100_blocks := [new_with encode_hash_block height hash] \<rparr>, True))"

definition set_latest_zec_price ::
  "(f64_bits \<Rightarrow> bool) \<Rightarrow> u64 \<Rightarrow> f64_bits \<Rightarrow> ('t, 'uri) light_wallet \<Rightarrow> ('t, 'uri) light_wallet" where
  "set_latest_zec_price le_zero now price w =
     (if le_zero price then w
      else w\<lparr> lw_price := (lw_price w)\<lparr> zp_zec_price := Some (now, price) \<rparr> \<rparr>)"

definition set_send_result ::
  "string + string \<Rightarrow> ('t, 'uri) light_wallet \<Rightarrow> ('t, 'uri) light_wallet" where
  "set_send_result res w =
     w\<lparr> lw_send_progress := (lw_send_progress w)\<lparr> sp_is_send_in_progress := False,
          sp_last_result := Some res \<rparr> \<rparr>"

definition reset_send_progress :: "('t, 'uri) light_wallet \<Rightarrow> ('t, 'uri) light_wallet" where
  "reset_send_progress w = w\<lparr> lw_send_progress := new_send_progress (sp_id (lw_send_progress w) + 1) \<rparr>"

definition get_seed_phrase :: "('t, 'uri) light_wallet \<Rightarrow> string option" where
  "get_seed_phrase w = map_option fst (lw_mnemonic w)"

section \<open>Balances\<close>

definition can_view_pool :: "unified_key_store \<Rightarrow> pool_type \<Rightarrow> bool" where
  "can_view_pool ks pool =
     (case ks of
        KS_Spend \<Rightarrow> True
      | KS_View vk \<Rightarrow>
          (case pool of
             Transparent \<Rightarrow> vk_transparent vk
           | Shielded Sapling \<Rightarrow> vk_sapling vk
           | Shielded Orchard \<Rightarrow> vk_orchard vk)
      | KS_Empty \<Rightarrow> False)"

definition get_filtered_balance ::
  "shielded_protocol \<Rightarrow> 'n pool_get \<Rightarrow> ('n shielded_note \<Rightarrow> u64) \<Rightarrow>
   ('n shielded_note \<Rightarrow> transaction_record \<Rightarrow> bool) \<Rightarrow> ('t, 'uri) light_wallet \<Rightarrow> u64 option" where
  "get_filtered_balance protocol gn nvalue filter_function w =
     (if can_view_pool (lw_key_store w) (Shielded protocol)
      then Some (sum_list (map (\<lambda>transaction.
             sum_list (map (\<lambda>notedata. if sn_spend notedata = None then nvalue notedata else 0)
               (filter (\<lambda>nnmd. filter_function nnmd transaction) (gn transaction))))
             (hm_values (tm_records (lw_tx_map w)))))
      else None)"

definition confirmed_balance ::
  "shielded_protocol \<Rightarrow> 'n pool_get \<Rightarrow> ('n shielded_note \<Rightarrow> u64) \<Rightarrow> ('t, 'uri) light_wallet \<Rightarrow> u64 option" where
  "confirmed_balance protocol gn nvalue =
     get_filtered_balance protocol gn nvalue
       (\<lambda>nnmd transaction. is_confirmed (tr_status transaction) \<and> \<not> pending_receipt nnmd)"

definition pending_balance ::
  "shielded_protocol \<Rightarrow> 'n pool_get \<Rightarrow> ('n shielded_note \<Rightarrow> u64) \<Rightarrow> ('t, 'uri) light_wallet \<Rightarrow> u64 option" where
  "pending_balance protocol gn nvalue =
     get_filtered_balance protocol gn nvalue (\<lambda>note _. pending_receipt note)"

definition spendable_balance ::
  "shielded_protocol \<Rightarrow> 'n pool_get \<Rightarrow> ('n shielded_note \<Rightarrow> u64) \<Rightarrow> ('t, 'uri) light_wallet \<Rightarrow> u64 option" where
  "spendable_balance protocol gn nvalue w =
     (if lw_key_store w = KS_Spend then confirmed_balance protocol gn nvalue w else None)"

definition confirmed_balance_excluding_dust ::
  "u64 \<Rightarrow> shielded_protocol \<Rightarrow> 'n pool_get \<Rightarrow> ('n shielded_note \<Rightarrow> u64) \<Rightarrow> ('t, 'uri) light_wallet \<Rightarrow>
   u64 option" where
  "confirmed_balance_excluding_dust marginal_fee protocol gn nvalue =
     get_filtered_balance protocol gn nvalue
       (\<lambda>note transaction. is_confirmed (tr_status transaction) \<and> \<not> pending_receipt note \<and>
          nvalue note > marginal_fee)"

datatype balance_calc_error = NoFullViewingKey | ConversionFailed

text \<open>\<open>from_u64\<close> is the checked conversion to an amount.\<close>

definition confirmed_shielded_balance_excluding_dust ::
  "u64 \<Rightarrow> (u64 \<Rightarrow> bool) \<Rightarrow> ('t, 'uri) light_wallet \<Rightarrow> balance_calc_error + u64" where
  "confirmed_shielded_balance_excluding_dust marginal_fee from_u64 w =
     (case confirmed_balance_excluding_dust marginal_fee Orchard tr_orchard_notes orchard_value w of
        None \<Rightarrow> Inl NoFullViewingKey
      | Some o_value \<Rightarrow>
          (case confirmed_balance_excluding_dust marginal_fee Sapling tr_sapling_notes sapling_value w of
             None \<Rightarrow> Inl NoFullViewingKey
           | Some s_value \<Rightarrow>
               if from_u64 (o_value + s_value) then Inr (o_value + s_value) else Inl ConversionFailed))"

definition get_utxos :: "('t, 'uri) light_wallet \<Rightarrow> transparent_output list" where
  "get_utxos w =
     concat (map (\<lambda>transaction. filter (\<lambda>utxo. \<not> is_spent_confirmed (to_spend utxo))
       (tr_transparent_outputs transaction)) (hm_values (tm_records (lw_tx_map w))))"

definition get_transparent_balance :: "('t, 'uri) light_wallet \<Rightarrow> u64 option" where
  "get_transparent_balance w =
     (if can_view_pool (lw_key_store w) Transparent
      then Some (sum_list (map to_value (filter (\<lambda>u. is_unspent (to_spend u)) (get_utxos w))))
      else None)"

section \<open>Heights\<close>

definition get_target_height_and_anchor_offset :: "('t, 'uri) light_wallet \<Rightarrow> (u32 \<times> u32) option" where
  "get_target_height_and_anchor_offset w =
     (if lw_last_100_blocks w = [] then None
      else
        let min_height = (ucast (bd_height (last (lw_last_100_blocks w))) :: u32);
            max_height = (ucast (bd_height (hd (lw_last_100_blocks w))) :: u32);
            target_height = max_height + 1;
            anchor_height = max (saturating_sub target_height (c_reorg_buffer_offset (lw_config w))) min_height
        in Some (target_height, target_height - anchor_height))"

definition get_anchor_height :: "('t, 'uri) light_wallet \<Rightarrow> u32" where
  "get_anchor_height w =
     (case get_target_height_and_anchor_offset w of
        Some (height, anchor_offset) \<Rightarrow> height - anchor_offset - 1
      | None \<Rightarrow> 0)"

definition get_first_transaction_block :: "u64 \<Rightarrow> ('t, 'uri) light_wallet \<Rightarrow> u64" where
  "get_first_transaction_block activation w =
     (case map (\<lambda>wtx. ucast (get_height (tr_status wtx)) :: u64) (hm_values (tm_records (lw_tx_map w))) of
        [] \<Rightarrow> max (lw_birthday w) activation
      | h # hs \<Rightarrow> foldl min h hs)"

definition get_birthday :: "u64 \<Rightarrow> ('t, 'uri) light_wallet \<Rightarrow> u64" where
  "get_birthday activation w =
     (if lw_birthday w = 0 then get_first_transaction_block activation w
      else min (get_first_transaction_block activation w) (lw_birthday w))"

definition last_synced_height :: "u64 \<Rightarrow> ('t, 'uri) light_wallet \<Rightarrow> u64" where
  "last_synced_height activation w =
     (case lw_last_100_blocks w of [] \<Rightarrow> activation - 1 | b # _ \<Rightarrow> bd_height b)"

definition last_synced_hash :: "block_codec \<Rightarrow> ('t, 'uri) light_wallet \<Rightarrow> string option" where
  "last_synced_hash C w =
     (case lw_last_100_blocks w of [] \<Rightarrow> Some [] | b # _ \<Rightarrow> block_data_hash C b)"

text \<open>The difference is taken in \<open>i64\<close>.\<close>

definition get_price :: "u64 \<Rightarrow> wallet_zec_price_info \<Rightarrow> f64_bits option" where
  "get_price datetime price =
     (case zp_zec_price price of
        None \<Rightarrow> None
      | Some (t, p) \<Rightarrow>
          if \<bar>sint t - sint datetime\<bar> < 24 * 60 * 60 then Some p else None)"

section \<open>The memo of the change\<close>

text \<open>The recipients of the payments, as their kinds: a unified address together with the result of
  converting it, a TEX address, or another one.\<close>

datatype 'ua address_kind = AK_Unified "'ua option" | AK_Tex | AK_Other

fun collect_payments ::
  "'ua address_kind list \<Rightarrow> u32 \<Rightarrow> 'ua list \<times> u32 list \<Rightarrow> 'ua list \<times> u32 list" where
  "collect_payments [] number_of_rejection_addresses acc = acc"
| "collect_payments (AK_Unified (Some ua) # ps) n (uas, is) = collect_payments ps n (uas @ [ua], is)"
| "collect_payments (AK_Tex # ps) n (uas, is) = collect_payments ps (n + 1) (uas, is @ [n])"
| "collect_payments (_ # ps) n acc = collect_payments ps n acc"

definition change_memo_from_transaction_request ::
  "'ua memo_format \<Rightarrow> 'ua address_kind list \<Rightarrow> u32 \<Rightarrow> memo" where
  "change_memo_from_transaction_request F payments number_of_rejection_addresses =
     (let (recipient_uas, rejection_address_indexes) =
        collect_payments payments number_of_rejection_addresses ([], [])
      in Memo_Arbitrary
           (case create_wallet_internal_memo_version_1 F recipient_uas rejection_address_indexes of
              Inr bytes \<Rightarrow> bytes
            | Inl e \<Rightarrow> replicate 511 0))"

section \<open>Laws\<close>

lemma sum_list_filter_if:
  fixes f :: "'a \<Rightarrow> u64"
  shows "sum_list (map (\<lambda>x. if Q x then f x else 0) xs) = sum_list (map f (filter Q xs))"
  by (induction xs) auto

definition unspent_in :: "'n pool_get \<Rightarrow> ('n shielded_note \<Rightarrow> transaction_record \<Rightarrow> bool) \<Rightarrow> records \<Rightarrow> ('n shielded_note \<times> transaction_record) list" where
  "unspent_in gn P m = filter (\<lambda>(n, r). sn_spend n = None \<and> P n r)
     (concat (map (\<lambda>r. map (\<lambda>n. (n, r)) (gn r)) (hm_values m)))"

lemma get_filtered_balance_eq:
  assumes "can_view_pool (lw_key_store w) (Shielded p)"
  shows "get_filtered_balance p gn nvalue P w =
     Some (sum_list (map (\<lambda>(n, r). nvalue n) (unspent_in gn P (tm_records (lw_tx_map w)))))"
proof -
  have "sum_list (map (\<lambda>r. sum_list (map (\<lambda>n. if sn_spend n = None then nvalue n else 0) (filter (\<lambda>n. P n r) (gn r)))) rs) =
    sum_list (map (\<lambda>(n, r). nvalue n) (filter (\<lambda>(n, r). sn_spend n = None \<and> P n r) (concat (map (\<lambda>r. map (\<lambda>n. (n, r)) (gn r)) rs))))" for rs
    by (induction rs) (simp_all add: sum_list_filter_if filter_map comp_def conj_commute)
  then show ?thesis using assms by (simp add: get_filtered_balance_def unspent_in_def)
qed

lemma balance_split:
  "sum_list (map f (unspent_in gn (\<lambda>_ _. True) m)) =
     sum_list (map f (unspent_in gn (\<lambda>n r. is_confirmed (tr_status r) \<and> \<not> pending_receipt n) m)) +
     sum_list (map f (unspent_in gn (\<lambda>n _. pending_receipt n) m)) +
     sum_list (map (f :: _ \<Rightarrow> u64) (unspent_in gn (\<lambda>n r. \<not> is_confirmed (tr_status r) \<and> \<not> pending_receipt n) m))"
proof -
  have "sum_list (map f (filter (\<lambda>(n, r). sn_spend n = None \<and> True) xs)) =
     sum_list (map f (filter (\<lambda>(n, r). sn_spend n = None \<and> is_confirmed (tr_status r) \<and> \<not> pending_receipt n) xs)) +
     sum_list (map f (filter (\<lambda>(n, r). sn_spend n = None \<and> pending_receipt n) xs)) +
     sum_list (map f (filter (\<lambda>(n, r). sn_spend n = None \<and> \<not> is_confirmed (tr_status r) \<and> \<not> pending_receipt n) xs))" for xs
    by (induction xs) (auto simp: algebra_simps)
  then show ?thesis unfolding unspent_in_def by blast
qed

lemma records_query_sum_map:
  "records_query_sum_value m q = sum_list (map (\<lambda>r. query_sum_value r q) (hm_values m))"
  using foldl_plus_sum_list [of "\<lambda>(k, r). query_sum_value r q" 0 m]
  by (simp add: records_query_sum_value_def hm_values_def comp_def case_prod_beta')

lemma shielded_query_sum:
  "records_query_sum_value m \<lparr> q_spend_status = only_unspent, q_pools = one_pool (Shielded Sapling) \<rparr> =
     sum_list (map (\<lambda>(n, r). sapling_value n) (unspent_in tr_sapling_notes (\<lambda>_ _. True) m))"
  "records_query_sum_value m \<lparr> q_spend_status = only_unspent, q_pools = one_pool (Shielded Orchard) \<rparr> =
     sum_list (map (\<lambda>(n, r). orchard_value n) (unspent_in tr_orchard_notes (\<lambda>_ _. True) m))"
proof -
  have *: "sum_list (map (\<lambda>r. sum_list (map nvalue (filter (\<lambda>n. sn_spend n = None) (gn r)))) rs) =
    sum_list (map (\<lambda>(n, r). nvalue n :: u64) (filter (\<lambda>(n, r). sn_spend n = None)
      (concat (map (\<lambda>r. map (\<lambda>n. (n, r)) (gn r)) rs))))" for nvalue and gn :: "'n pool_get" and rs
    by (induction rs) (simp_all add: filter_map comp_def)
  show "records_query_sum_value m \<lparr> q_spend_status = only_unspent, q_pools = one_pool (Shielded Sapling) \<rparr> =
     sum_list (map (\<lambda>(n, r). sapling_value n) (unspent_in tr_sapling_notes (\<lambda>_ _. True) m))"
    using * [of sapling_value tr_sapling_notes "hm_values m"]
    by (simp add: records_query_sum_map query_sum_value_eq unspent_in_def)
  show "records_query_sum_value m \<lparr> q_spend_status = only_unspent, q_pools = one_pool (Shielded Orchard) \<rparr> =
     sum_list (map (\<lambda>(n, r). orchard_value n) (unspent_in tr_orchard_notes (\<lambda>_ _. True) m))"
    using * [of orchard_value tr_orchard_notes "hm_values m"]
    by (simp add: records_query_sum_map query_sum_value_eq unspent_in_def)
qed

lemma transparent_query_sum:
  "records_query_sum_value (tm_records (lw_tx_map w)) \<lparr> q_spend_status = only_unspent, q_pools = one_pool Transparent \<rparr> =
     sum_list (map to_value (filter (\<lambda>u. is_unspent (to_spend u)) (get_utxos w)))"
proof -
  have f: "filter (\<lambda>u. \<not> is_spent_confirmed (to_spend u) \<and> to_spend u = None) us =
      filter (\<lambda>u. to_spend u = None) us" for us
    by (induction us) auto
  have g: "sum_list (map to_value (filter (\<lambda>u. to_spend u = None) (concat (map (\<lambda>r.
       filter (\<lambda>u. \<not> is_spent_confirmed (to_spend u)) (tr_transparent_outputs r)) rs)))) =
    sum_list (map (\<lambda>r. sum_list (map to_value (filter (\<lambda>u. to_spend u = None) (tr_transparent_outputs r)))) rs)" for rs
    by (induction rs) (simp_all add: f)
  show ?thesis
    by (simp add: records_query_sum_map query_sum_value_eq get_utxos_def g)
qed

lemma foldl_min_le: "foldl min a xs \<le> (a :: u64) \<and> (\<forall>x \<in> set xs. foldl min a xs \<le> x) \<and> foldl min a xs \<in> set (a # xs)"
proof (induction xs arbitrary: a)
  case (Cons x xs)
  show ?case using Cons [of "min a x"] by (auto simp: min_def split: if_splits)
qed simp

definition example_wallet :: "(unit, unit) light_wallet" where
  "example_wallet = \<lparr> lw_birthday = 5, lw_mnemonic = None, lw_last_100_blocks = [\<lparr> bd_ecb = [], bd_height = 120 \<rparr>, \<lparr> bd_ecb = [], bd_height = 119 \<rparr>],
     lw_wallet_options = default_wallet_options, lw_verified_tree = None, lw_send_progress = new_send_progress 0,
     lw_price = default_price_info, lw_key_store = KS_Spend,
     lw_config = create_config () default_builder, lw_tx_map = (new_treeless [])\<lparr> tm_records := example_records \<rparr> \<rparr>"

section \<open>Properties\<close>

text \<open>C30. A spending wallet's transparent balance is the value of its unspent transparent outputs, and the
  unspent value of each shielded pool is its spendable balance plus the pending balance (notes
  without nullifier yet) plus the notes with a nullifier in transactions not yet confirmed.\<close>

theorem balances_account_for_unspent:
  assumes "lw_key_store w = KS_Spend"
  shows "let m = tm_records (lw_tx_map w);
      unspent = (\<lambda>pool. records_query_sum_value m \<lparr> q_spend_status = only_unspent, q_pools = one_pool pool \<rparr>)
    in get_transparent_balance w = Some (unspent Transparent) \<and>
       (\<exists>confirmed pending unmined.
          spendable_balance Sapling tr_sapling_notes sapling_value w = Some confirmed \<and>
          pending_balance Sapling tr_sapling_notes sapling_value w = Some pending \<and>
          get_filtered_balance Sapling tr_sapling_notes sapling_value
            (\<lambda>n r. \<not> is_confirmed (tr_status r) \<and> \<not> pending_receipt n) w = Some unmined \<and>
          unspent (Shielded Sapling) = confirmed + pending + unmined) \<and>
       (\<exists>confirmed pending unmined.
          spendable_balance Orchard tr_orchard_notes orchard_value w = Some confirmed \<and>
          pending_balance Orchard tr_orchard_notes orchard_value w = Some pending \<and>
          get_filtered_balance Orchard tr_orchard_notes orchard_value
            (\<lambda>n r. \<not> is_confirmed (tr_status r) \<and> \<not> pending_receipt n) w = Some unmined \<and>
          unspent (Shielded Orchard) = confirmed + pending + unmined)"
proof -
  have v: "can_view_pool (lw_key_store w) pool" for pool using assms by (simp add: can_view_pool_def)
  note eqs = get_filtered_balance_eq [OF v] spendable_balance_def confirmed_balance_def pending_balance_def
  have "get_transparent_balance w = Some (records_query_sum_value (tm_records (lw_tx_map w))
      \<lparr> q_spend_status = only_unspent, q_pools = one_pool Transparent \<rparr>)"
    using v [of Transparent] transparent_query_sum [of w] by (simp add: get_transparent_balance_def)
  then show ?thesis unfolding Let_def
    by (auto simp: assms eqs shielded_query_sum balance_split simp del: one_pool.simps)
qed

theorem balances_account_for_unspent_witness:
  "\<exists>confirmed. spendable_balance Orchard tr_orchard_notes orchard_value example_wallet = Some confirmed"
  using balances_account_for_unspent [of example_wallet] by (auto simp: example_wallet_def Let_def)

text \<open>The birthday the wallet reports, from which a rescan starts, is not above the height of any of its
  transactions nor above a recorded birthday, and is one of these heights.\<close>

theorem birthday_precedes_transactions:
  assumes "hm_get (tm_records (lw_tx_map w)) txid = Some r"
  shows "get_birthday activation w \<le> ucast (get_height (tr_status r)) \<and>
    (lw_birthday w \<noteq> 0 \<longrightarrow> get_birthday activation w \<le> lw_birthday w) \<and>
    (get_birthday activation w = lw_birthday w \<or>
     (\<exists>r'. r' \<in> set (hm_values (tm_records (lw_tx_map w))) \<and>
        get_birthday activation w = ucast (get_height (tr_status r'))))"
proof -
  let ?hs = "map (\<lambda>wtx. ucast (get_height (tr_status wtx)) :: u64) (hm_values (tm_records (lw_tx_map w)))"
  have "r \<in> set (hm_values (tm_records (lw_tx_map w)))"
    using assms by (force simp: hm_values_def dest: map_of_SomeD)
  then have mem: "(ucast (get_height (tr_status r)) :: u64) \<in> set ?hs" by force
  then obtain h hs where hs: "?hs = h # hs" by (cases ?hs) auto
  have f: "get_first_transaction_block activation w = foldl min h hs"
    by (simp add: get_first_transaction_block_def hs)
  have "foldl min h hs \<in> set ?hs" "\<forall>x \<in> set ?hs. foldl min h hs \<le> x"
    using foldl_min_le [of h hs] unfolding hs by auto
  then show ?thesis using mem unfolding get_birthday_def f by (auto simp: min_def)
qed

theorem birthday_precedes_transactions_witness:
  "get_birthday 1 example_wallet \<le> ucast (10 :: u32)"
  using birthday_precedes_transactions [of example_wallet "[1]" example_received 1]
  by (simp add: example_wallet_def new_treeless_def example_records_def example_received_def new_record_def)

text \<open>With stored blocks above height zero the anchor height is one below the larger of the next height
  minus the configured offset and the lowest stored height, without wrapping, and never above the
  last synced block.\<close>

theorem anchor_height_in_stored_blocks:
  assumes "lw_last_100_blocks w = b # bs" "unat (bd_height b) + 1 < 2 ^ 32"
    and "bd_height (last (b # bs)) \<le> bd_height b" "0 < bd_height (last (b # bs))"
  shows "unat (get_anchor_height w) =
     max (unat (bd_height b) + 1 - unat (c_reorg_buffer_offset (lw_config w))) (unat (bd_height (last (b # bs)))) - 1 \<and>
     unat (get_anchor_height w) \<le> unat (bd_height b)"
proof -
  let ?off = "c_reorg_buffer_offset (lw_config w)" and ?lo = "bd_height (last (b # bs))"
  have hi: "unat (ucast (bd_height b) :: u32) = unat (bd_height b)" and lo: "unat (ucast ?lo :: u32) = unat ?lo"
    using assms(2,3) by (simp_all add: unsigned_ucast_eq take_bit_nat_eq_self word_le_nat_alt)
  have t: "unat ((ucast (bd_height b) :: u32) + 1) = unat (bd_height b) + 1"
    using assms(2) hi unat_add_lem [of "ucast (bd_height b) :: u32" 1] by simp
  let ?a = "max (saturating_sub ((ucast (bd_height b) :: u32) + 1) ?off) (ucast ?lo)"
  have a: "unat ?a = max (unat (bd_height b) + 1 - unat ?off) (unat ?lo)"
    using lo t by (simp add: max_def word_le_nat_alt)
  have "get_anchor_height w = ?a - 1"
    using assms(1) by (simp add: get_anchor_height_def get_target_height_and_anchor_offset_def Let_def)
  moreover have "unat ?lo \<le> unat ?a" unfolding a by (rule max.cobounded2)
  then have pos: "0 < unat ?a" using assms(4) unfolding word_less_nat_alt by simp
  then have "unat (?a - 1) = unat ?a - 1" by (simp add: unat_minus_one word_neq_0_conv word_less_nat_alt)
  ultimately show ?thesis using a pos assms(3,4) by (auto simp: word_le_nat_alt word_less_nat_alt max_def)
qed

theorem anchor_height_in_stored_blocks_witness:
  "unat (get_anchor_height example_wallet) = 120"
  using anchor_height_in_stored_blocks [of example_wallet "\<lparr> bd_ecb = [], bd_height = 120 \<rparr>" "[\<lparr> bd_ecb = [], bd_height = 119 \<rparr>]"]
  by (simp add: example_wallet_def create_config_def default_builder_def REORG_BUFFER_OFFSET_def)

end
