(* ===== verification/Shielded_Scan.thy ===== *)
theory Shielded_Scan
  imports Transparent_Scan Memo_Recovery "HOL-Library.Monad_Syntax"
begin

text \<open>
  The scan of a full transaction: \<open>scan_full_tx\<close> of \<open>wallet/transaction_context.rs\<close> with the shielded receipts and
  spends, the recovery of outgoing data, and the post processing of transparent recipients.

  Decryption of outputs, recovery with outgoing keys, encodings of addresses and memos belong to other
  crates: \<open>shielded_lib\<close> has the functions of a pool, \<open>taddr_lib\<close> those of transparent addresses. The two pools are
  told apart by the arguments the other operations on records have, too. A result \<open>None\<close> is a panic.
\<close>

section \<open>Addresses\<close>

datatype transparent_address = PublicKeyHash "byte list" | ScriptHash "byte list"

record taddr_lib =
  tl_recipient_address :: "tx_out \<Rightarrow> transparent_address option"
  tl_sha256 :: "byte list \<Rightarrow> byte list"
  tl_to_base58 :: "byte list \<Rightarrow> string"
  tl_pubkey_prefix :: "byte list"
  tl_script_prefix :: "byte list"
  tl_bech32m :: "string \<Rightarrow> byte list \<Rightarrow> string option"
  tl_hrp_tex_address :: string

definition double_sha256 :: "taddr_lib \<Rightarrow> byte list \<Rightarrow> byte list" where
  "double_sha256 T payload = tl_sha256 T (tl_sha256 T payload)"

definition to_base58check :: "taddr_lib \<Rightarrow> byte list \<Rightarrow> byte list \<Rightarrow> byte list \<Rightarrow> string" where
  "to_base58check T self version suffix =
     (let payload = version @ self @ suffix;
          checksum = double_sha256 T payload
      in tl_to_base58 T (payload @ take 4 checksum))"

fun address_from_pubkeyhash :: "taddr_lib \<Rightarrow> transparent_address \<Rightarrow> string" where
  "address_from_pubkeyhash T (PublicKeyHash hash) = to_base58check T hash (tl_pubkey_prefix T) []"
| "address_from_pubkeyhash T (ScriptHash hash) = to_base58check T hash (tl_script_prefix T) []"

definition interpret_taddr_as_tex_addr :: "taddr_lib \<Rightarrow> byte list \<Rightarrow> string option" where
  "interpret_taddr_as_tex_addr T taddr_bytes = tl_bech32m T (tl_hrp_tex_address T) taddr_bytes"

section \<open>Transactions\<close>

record 'out shielded_bundle =
  sb_output_elements :: "'out list"
  sb_spend_nullifiers :: "nullifier list"

record ('so, 'oo) full_tx = scanned_tx +
  sx_sapling_bundle :: "'so shielded_bundle option"
  sx_orchard_bundle :: "'oo shielded_bundle option"

text \<open>\<open>sl_viewing\<close> is the pair of the external incoming and outgoing viewing keys, if the wallet can view the
  pool. A decrypted output is the note, the diversifier of the recipient and the memo; a recovered one
  has the encoded address instead.\<close>

record ('out, 'd, 'ivk, 'ovk, 'n) shielded_lib =
  sl_domain :: "block_height \<Rightarrow> 'out \<Rightarrow> 'd"
  sl_try_note_decryption :: "'ivk \<Rightarrow> ('d \<times> 'out) list \<Rightarrow> ('n \<times> byte list \<times> byte list) option list"
  sl_try_output_recovery :: "'d \<Rightarrow> 'ovk \<Rightarrow> 'out \<Rightarrow> ('n \<times> string \<times> byte list) option"
  sl_viewing :: "('ivk \<times> 'ovk) option"

section \<open>Receipts\<close>

definition zingo_memo_of :: "'ua memo_format \<Rightarrow> memo \<Rightarrow> 'ua parsed_memo list option" where
  "zingo_memo_of F memo =
     (case memo of
        Memo_Arbitrary wallet_internal_data \<Rightarrow>
          (case parse_zingo_memo F wallet_internal_data of
             Rd_Ok parsed_zingo_memo _ \<Rightarrow> Some [parsed_zingo_memo]
           | Rd_Err _ \<Rightarrow> Some []
           | Rd_Panic \<Rightarrow> None)
      | _ \<Rightarrow> Some [])"

fun receipts_loop ::
  "memo_api \<Rightarrow> 'ua memo_format \<Rightarrow> 'n pool_get \<Rightarrow> 'n pool_upd \<Rightarrow> txid \<Rightarrow> confirmation_status \<Rightarrow> u32 option \<Rightarrow>
   nat \<Rightarrow> ('n \<times> byte list \<times> byte list) option list \<Rightarrow> records \<times> ('ua parsed_memo \<times> txid) list \<Rightarrow>
   (records \<times> ('ua parsed_memo \<times> txid) list) option" where
  "receipts_loop ma F notes notes_upd txid status block_time output_index [] st = Some st"
| "receipts_loop ma F notes notes_upd txid status block_time output_index (None # attempts) st =
     receipts_loop ma F notes notes_upd txid status block_time (Suc output_index) attempts st"
| "receipts_loop ma F notes notes_upd txid status block_time output_index (Some (n, to, bytes) # attempts)
       (m, memos) = do {
     memo_bytes \<leftarrow> ma_from_bytes ma bytes;
     m \<leftarrow> create_modify_get_transaction_record txid status block_time
       (\<lambda>transaction_record.
          if \<not> is_confirmed status
          then add_pending_note notes notes_upd n to (word_of_nat output_index) transaction_record
          else fst (update_output_index notes notes_upd n (word_of_nat output_index) transaction_record)) m;
     let memo = (case ma_try_from ma memo_bytes of Some memo \<Rightarrow> memo | None \<Rightarrow> Memo_Future memo_bytes);
     parsed \<leftarrow> zingo_memo_of F memo;
     receipts_loop ma F notes notes_upd txid status block_time (Suc output_index) attempts
       (add_memo_to_note_metadata notes_upd txid n memo m, memos @ map (\<lambda>p. (p, txid)) parsed) }"

definition account_for_shielded_receipts ::
  "('out, 'd, 'ivk, 'ovk, 'n) shielded_lib \<Rightarrow> memo_api \<Rightarrow> 'ua memo_format \<Rightarrow> 'n pool_get \<Rightarrow> 'n pool_upd \<Rightarrow>
   'ivk \<Rightarrow> ('d \<times> 'out) list \<Rightarrow> confirmation_status \<Rightarrow> txid \<Rightarrow> u32 option \<Rightarrow>
   records \<times> ('ua parsed_memo \<times> txid) list \<Rightarrow> (records \<times> ('ua parsed_memo \<times> txid) list) option" where
  "account_for_shielded_receipts lib ma F notes notes_upd ivk domain_tagged_outputs status txid block_time st =
     receipts_loop ma F notes notes_upd txid status block_time 0
       (sl_try_note_decryption lib ivk domain_tagged_outputs) st"

section \<open>Spends and outgoing data\<close>

fun pending_spends_loop ::
  "'t tree_ops \<Rightarrow> (nullifier \<Rightarrow> pool_nullifier) \<Rightarrow> (nullifier \<times> u64 \<times> txid \<times> u32 option) list \<Rightarrow> txid \<Rightarrow>
   confirmation_status \<Rightarrow> u32 option \<Rightarrow> nullifier list \<Rightarrow> 't tx_map \<Rightarrow> 't tx_map option" where
  "pending_spends_loop ops into_pool unspent_nullifiers txid status block_time [] tm = Some tm"
| "pending_spends_loop ops into_pool unspent_nullifiers txid status block_time (nullifier # rest) tm =
     (case find (\<lambda>(nf, _, _, _). nf = nullifier) unspent_nullifiers of
        None \<Rightarrow> pending_spends_loop ops into_pool unspent_nullifiers txid status block_time rest tm
      | Some (nf, _, transaction_id, output_index) \<Rightarrow> do {
          (tm, _) \<leftarrow> found_spent_nullifier ops txid status block_time (into_pool nf) transaction_id output_index tm;
          pending_spends_loop ops into_pool unspent_nullifiers txid status block_time rest tm })"

text \<open>The encodings of the wallet's own addresses.\<close>

definition own_receivers :: "'ua ua_encodings \<Rightarrow> 'ua \<Rightarrow> string list" where
  "own_receivers U unified_address =
     List.map_filter id [ue_transparent U unified_address, ue_sapling U unified_address, ue_orchard U unified_address]"

definition outgoing_data_of ::
  "('out, 'd, 'ivk, 'ovk, 'n) shielded_lib \<Rightarrow> memo_api \<Rightarrow> 'ua ua_encodings \<Rightarrow> 'ua list \<Rightarrow> ('n \<Rightarrow> u64) \<Rightarrow>
   'ovk \<Rightarrow> block_height \<Rightarrow> 'out \<Rightarrow> outgoing_tx_data option" where
  "outgoing_data_of lib ma U addresses value_from_note ovk height out =
     (case sl_try_output_recovery lib (sl_domain lib height out) ovk out of
        None \<Rightarrow> None
      | Some (n, address, bytes) \<Rightarrow>
          (case Option.bind (ma_from_bytes ma bytes) (ma_try_from ma) of
             None \<Rightarrow> None
           | Some memo \<Rightarrow>
               if list_ex (\<lambda>unified_address. list_ex (\<lambda>addr. addr = address) (own_receivers U unified_address)) addresses
               then None
               else Some \<lparr> ot_recipient_address = address, ot_value = value_from_note n, ot_memo = memo,
                           ot_recipient_ua = None \<rparr>))"

definition decrypt_transaction_to_record_domain ::
  "('out, 'd, 'ivk, 'ovk, 'n) shielded_lib \<Rightarrow> memo_api \<Rightarrow> 'ua memo_format \<Rightarrow> 'ua ua_encodings \<Rightarrow> 'ua list \<Rightarrow>
   't tree_ops \<Rightarrow> 'n pool_get \<Rightarrow> 'n pool_upd \<Rightarrow> ('n shielded_note \<Rightarrow> u64) \<Rightarrow> ('n \<Rightarrow> u64) \<Rightarrow>
   (nullifier \<Rightarrow> pool_nullifier) \<Rightarrow> txid \<Rightarrow> 'out shielded_bundle option \<Rightarrow> confirmation_status \<Rightarrow> u32 option \<Rightarrow>
   't tx_map \<times> outgoing_tx_data list \<times> ('ua parsed_memo \<times> txid) list \<Rightarrow>
   ('t tx_map \<times> outgoing_tx_data list \<times> ('ua parsed_memo \<times> txid) list) option" where
  "decrypt_transaction_to_record_domain lib ma F U addresses ops notes notes_upd nvalue value_from_note into_pool
       txid bundle status block_time = (\<lambda>(tm, outgoing_metadatas, memos).
     (let output_elements = (case bundle of None \<Rightarrow> [] | Some b \<Rightarrow> sb_output_elements b);
          nullifiers = (case bundle of None \<Rightarrow> [] | Some b \<Rightarrow> sb_spend_nullifiers b);
          domain_tagged_outputs = map (\<lambda>out. (sl_domain lib (get_height status) out, out)) output_elements
      in case sl_viewing lib of
           None \<Rightarrow> Some (tm, outgoing_metadatas, memos)
         | Some (ivk, ovk) \<Rightarrow> do {
             (m, memos) \<leftarrow> account_for_shielded_receipts lib ma F notes notes_upd ivk domain_tagged_outputs status
               txid block_time (tm_records tm, memos);
             let tm = tm\<lparr> tm_records := m \<rparr>;
             tm \<leftarrow> (if \<not> is_confirmed status
                     then pending_spends_loop ops into_pool
                            (get_nullifier_value_txid_outputindex_of_unspent_notes notes nvalue tm)
                            txid status block_time nullifiers tm
                     else Some tm);
             Some (tm, outgoing_metadatas @
                     List.map_filter (\<lambda>(_, out). outgoing_data_of lib ma U addresses value_from_note ovk
                       (get_height status) out) domain_tagged_outputs, memos) }))"

section \<open>The whole scan\<close>

record ('so, 'sd, 'si, 'sv, 'oo, 'od, 'oi, 'ov, 'ua, 't, 'e) scan_context =
  sc_chain :: chain_type
  sc_taddr_lib :: taddr_lib
  sc_memo_api :: memo_api
  sc_memo_format :: "'ua memo_format"
  sc_ua_encodings :: "'ua ua_encodings"
  sc_addresses :: "'ua list"
  sc_taddrs :: "string list"
  sc_tree_ops :: "'t tree_ops"
  sc_sapling_lib :: "('so, 'sd, 'si, 'sv, sapling_crypto_note) shielded_lib"
  sc_orchard_lib :: "('oo, 'od, 'oi, 'ov, orchard_crypto_note) shielded_lib"
  sc_derive_rejection :: "u32 \<Rightarrow> 'e + rejection_key"

definition decrypt_transaction_to_record_sapling where
  "decrypt_transaction_to_record_sapling C transaction =
     decrypt_transaction_to_record_domain (sc_sapling_lib C) (sc_memo_api C) (sc_memo_format C) (sc_ua_encodings C)
       (sc_addresses C) (sc_tree_ops C) tr_sapling_notes tr_sapling_notes_update sapling_value sc_value SaplingNullifier
       (sx_txid transaction) (sx_sapling_bundle transaction)"

definition decrypt_transaction_to_record_orchard where
  "decrypt_transaction_to_record_orchard C transaction =
     decrypt_transaction_to_record_domain (sc_orchard_lib C) (sc_memo_api C) (sc_memo_format C) (sc_ua_encodings C)
       (sc_addresses C) (sc_tree_ops C) tr_orchard_notes tr_orchard_notes_update orchard_value oc_value OrchardNullifier
       (sx_txid transaction) (sx_orchard_bundle transaction)"

definition taddr_recipient :: "taddr_lib \<Rightarrow> recipient_of" where
  "taddr_recipient T vout = map_option (address_from_pubkeyhash T) (tl_recipient_address T vout)"

definition decrypt_transaction_to_record where
  "decrypt_transaction_to_record C transaction status block_time = (\<lambda>(tm, outgoing_metadatas, memos, sent_to_tex). do {
     (m, sent_to_tex) \<leftarrow> decrypt_transaction_to_record_transparent (taddr_recipient (sc_taddr_lib C)) (sc_taddrs C)
       (map fst (tm_rejection_addresses tm)) (scanned_tx.truncate transaction) status block_time sent_to_tex (tm_records tm);
     (tm, outgoing_metadatas, memos) \<leftarrow> decrypt_transaction_to_record_sapling C transaction status block_time
       (tm\<lparr> tm_records := m \<rparr>, outgoing_metadatas, memos);
     (tm, outgoing_metadatas, memos) \<leftarrow> decrypt_transaction_to_record_orchard C transaction status block_time
       (tm, outgoing_metadatas, memos);
     Some (tm, outgoing_metadatas, memos, sent_to_tex) })"

text \<open>The address under which a transparent recipient is recorded; a script hash cannot be a tex address, and the
  code panics there.\<close>

fun recipient_taddr :: "taddr_lib \<Rightarrow> bool \<Rightarrow> transparent_address \<Rightarrow> string option" where
  "recipient_taddr T False raw_taddr = Some (address_from_pubkeyhash T raw_taddr)"
| "recipient_taddr T True (PublicKeyHash taddr_bytes) = interpret_taddr_as_tex_addr T taddr_bytes"
| "recipient_taddr T True (ScriptHash _) = None"

fun vout_loop ::
  "taddr_lib \<Rightarrow> string list \<Rightarrow> bool \<Rightarrow> tx_out list \<Rightarrow> outgoing_tx_data list \<Rightarrow> outgoing_tx_data list option" where
  "vout_loop T taddrs_set sent_to_tex [] outgoing_metadatas = Some outgoing_metadatas"
| "vout_loop T taddrs_set sent_to_tex (vout # vouts) outgoing_metadatas =
     (case tl_recipient_address T vout of
        None \<Rightarrow> vout_loop T taddrs_set sent_to_tex vouts outgoing_metadatas
      | Some raw_taddr \<Rightarrow> do {
          taddr \<leftarrow> recipient_taddr T sent_to_tex raw_taddr;
          vout_loop T taddrs_set sent_to_tex vouts
            (if taddr \<notin> set taddrs_set
             then outgoing_metadatas @ [\<lparr> ot_recipient_address = taddr, ot_value = vo_value vout,
                                         ot_memo = Memo_Empty, ot_recipient_ua = None \<rparr>]
             else outgoing_metadatas) })"

definition post_process_scan_results where
  "post_process_scan_results C transaction sent_to_tex m outgoing_metadatas =
     (case hm_get m (sx_txid transaction) of
        None \<Rightarrow> Some outgoing_metadatas
      | Some transaction_record \<Rightarrow> do {
          kind \<leftarrow> transaction_kind m transaction_record (sc_chain C);
          case kind of
            Sent _ \<Rightarrow>
              (case sx_transparent_bundle transaction of
                 None \<Rightarrow> Some outgoing_metadatas
               | Some t_bundle \<Rightarrow>
                   vout_loop (sc_taddr_lib C) (sc_taddrs C) sent_to_tex (tb_vout t_bundle) outgoing_metadatas)
          | Received \<Rightarrow> Some outgoing_metadatas })"

definition scan_full_tx where
  "scan_full_tx C transaction status block_time price tm = do {
     (tm, outgoing_metadatas, memos, sent_to_tex) \<leftarrow>
       decrypt_transaction_to_record C transaction status block_time (tm, [], [], False);
     outgoing_metadatas \<leftarrow> post_process_scan_results C transaction sent_to_tex (tm_records tm) outgoing_metadatas;
     let m = (if outgoing_metadatas \<noteq> [] then add_outgoing_metadata (sx_txid transaction) outgoing_metadatas (tm_records tm)
              else tm_records tm);
     (case update_from_zingomemos (sc_ua_encodings C) (sc_derive_rejection C) memos (m, tm_rejection_addresses tm) of
        (_, Inl _) \<Rightarrow> None
      | ((m, keys), Inr _) \<Rightarrow>
          Some (tm\<lparr> tm_records := set_price (sx_txid transaction) price m, tm_rejection_addresses := keys \<rparr>)) }"

definition unindexed_records :: "block_height \<Rightarrow> 't tx_map \<Rightarrow> (txid \<times> block_height) list + unit" where
  "unindexed_records wallet_height tm =
     map_sum id (\<lambda>_. ()) (get_spendable_note_ids_and_values (tm_records tm) [Sapling, Orchard] wallet_height [])"

end
