(* ===== verification/Shielded_Scan_Laws.thy ===== *)
theory Shielded_Scan_Laws
  imports Shielded_Scan
begin

text \<open>
  Laws of the scan of a full transaction. The locale \<open>receiving_pool\<close> extends the contract of a note pool by what
  the scan needs of the record; it is interpreted for Sapling and Orchard, so that the receipts, the spends and the outgoing
  data of both pools are treated once. The relation \<open>quiet\<close> holds between two maps of records when the step
  between them keeps the invariant and the outgoing data and changes statuses only to the given one; readers are \<open>calm\<close> when they never panic.
\<close>

section \<open>Receipts\<close>

definition memo_of :: "memo_api \<Rightarrow> byte list \<Rightarrow> memo option" where
  "memo_of ma bytes = map_option (\<lambda>mb. case ma_try_from ma mb of Some memo \<Rightarrow> memo | None \<Rightarrow> Memo_Future mb)
     (ma_from_bytes ma bytes)"

definition decrypted_attempts :: "'a option list \<Rightarrow> 'a list" where
  "decrypted_attempts = List.map_filter id"

lemma decrypted_attempts_simps [simp]:
  "decrypted_attempts [] = []"
  "decrypted_attempts (None # xs) = decrypted_attempts xs"
  "decrypted_attempts (Some x # xs) = x # decrypted_attempts xs"
  by (simp_all add: decrypted_attempts_def List.map_filter_simps)

definition notes_of :: "'n pool_get \<Rightarrow> records \<Rightarrow> txid \<Rightarrow> 'n shielded_note list" where
  "notes_of pget m txid = (case hm_get m txid of Some r \<Rightarrow> pget r | None \<Rightarrow> [])"

text \<open>The memo of the first note of a record with the given contents.\<close>

definition memo_at :: "'n pool_get \<Rightarrow> records \<Rightarrow> txid \<Rightarrow> 'n \<Rightarrow> memo option option" where
  "memo_at pget m txid cn = map_option sn_memo (find (\<lambda>n. sn_note n = cn) (notes_of pget m txid))"

lemma memo_at_None: "memo_at pget m txid cn = None \<longleftrightarrow> cn \<notin> sn_note ` set (notes_of pget m txid)"
  by (auto simp: memo_at_def find_None_iff)

locale receiving_pool = note_pool +
  assumes new_notes: "pget (new_record st dt txid) = []"
    and status_notes: "pget (r\<lparr> tr_status := s, tr_datetime := d \<rparr>) = pget r"
    and upd_outgoing: "tr_outgoing_tx_data (pupd f r) = tr_outgoing_tx_data r"
begin

lemma create_modify_notes:
  assumes "create_modify_get_transaction_record txid status dt k m = Some m'"
  shows "\<exists>r. pget r = notes_of pget m txid \<and> notes_of pget m' txid = pget (k r)"
proof -
  have "\<exists>r. hm_get m' txid = Some (k r) \<and> pget r = notes_of pget m txid"
  proof (cases "hm_get m txid")
    case None
    with create_modify_get [OF assms, of txid] show ?thesis
      by (intro exI [of _ "new_record status (ucast (the dt)) txid"]) (simp add: notes_of_def new_notes)
  next
    case (Some r)
    with create_modify_get [OF assms, of txid] show ?thesis
      by (cases "is_confirmed (tr_status r) \<and> \<not> is_confirmed status")
         (force simp: notes_of_def status_notes simp del: de_Morgan_conj)+
  qed
  then show ?thesis by (auto simp: notes_of_def)
qed

lemma add_pending_note_notes:
  "sn_note ` set (pget (add_pending_note pget pupd cn d i r)) = insert cn (sn_note ` set (pget r))"
  by (auto simp: add_pending_note_def get_upd shielded_from_parts_def list_ex_iff)

lemma add_pending_note_find:
  assumes "find (\<lambda>n. sn_note n = cn') (pget r) = Some x"
  shows "find (\<lambda>n. sn_note n = cn') (pget (add_pending_note pget pupd cn d i r)) = Some x"
proof -
  have "find p (xs @ ys) = (case find p xs of Some y \<Rightarrow> Some y | None \<Rightarrow> find p ys)"
    for p and xs ys :: "'a shielded_note list"
    by (induction xs) auto
  with assms show ?thesis by (simp add: add_pending_note_def get_upd)
qed

lemma update_index_find:
  "map_option sn_memo (find (\<lambda>n. sn_note n = cn') (pget (fst (update_output_index pget pupd cn i r)))) =
   map_option sn_memo (find (\<lambda>n. sn_note n = cn') (pget r))"
proof -
  have "map_option sn_memo (find (\<lambda>n. sn_note n = cn')
      (update_first (\<lambda>n. sn_note n = cn) (\<lambda>n. n\<lparr> sn_output_index := oi \<rparr>) ns)) =
    map_option sn_memo (find (\<lambda>n. sn_note n = cn') ns)" for ns :: "'a shielded_note list" and oi
    by (induction ns) auto
  then show ?thesis by (auto simp: update_output_index_def get_upd split: option.splits)
qed

lemma add_memo_notes:
  "map sn_note (notes_of pget (add_memo_to_note_metadata pupd txid cn memo m) t) = map sn_note (notes_of pget m t)"
  by (auto simp: notes_of_def add_memo_to_note_metadata_def hm_simps get_upd update_first_map split: option.splits)

lemma add_memo_at:
  "memo_at pget (add_memo_to_note_metadata pupd txid cn memo m) txid cn' =
   (if cn' = cn then map_option (\<lambda>_. Some memo) (memo_at pget m txid cn) else memo_at pget m txid cn')"
proof -
  have "map_option sn_memo (find (\<lambda>n. sn_note n = cn')
      (update_first (\<lambda>n. sn_note n = cn) (\<lambda>n. n\<lparr> sn_memo := Some memo \<rparr>) ns)) =
    (if cn' = cn then map_option (\<lambda>_. Some memo) (map_option sn_memo (find (\<lambda>n. sn_note n = cn) ns))
     else map_option sn_memo (find (\<lambda>n. sn_note n = cn') ns))" for ns :: "'a shielded_note list"
    by (induction ns) auto
  then show ?thesis
    by (auto simp: memo_at_def notes_of_def add_memo_to_note_metadata_def hm_simps get_upd split: option.splits)
qed

text \<open>One received output.\<close>

lemma receipt_step:
  assumes "create_modify_get_transaction_record txid status block_time
       (\<lambda>r. if \<not> is_confirmed status then add_pending_note pget pupd cn to i r
            else fst (update_output_index pget pupd cn i r)) m = Some m1"
    and m2: "m2 = add_memo_to_note_metadata pupd txid cn memo m1"
  shows "sn_note ` set (notes_of pget m2 txid) =
      sn_note ` set (notes_of pget m txid) \<union> (if is_confirmed status then {} else {cn})" (is ?notes)
    and "cn \<in> sn_note ` set (notes_of pget m2 txid) \<Longrightarrow> memo_at pget m2 txid cn = Some (Some memo)"
    and "cn' \<noteq> cn \<Longrightarrow> memo_at pget m txid cn' = Some x \<Longrightarrow> memo_at pget m2 txid cn' = Some x"
    and "t \<noteq> txid \<Longrightarrow> hm_get m2 t = hm_get m t"
proof -
  obtain r where r: "pget r = notes_of pget m txid"
    "notes_of pget m1 txid = pget (if \<not> is_confirmed status then add_pending_note pget pupd cn to i r
       else fst (update_output_index pget pupd cn i r))"
    using create_modify_notes [OF assms(1)] by auto
  have eq: "sn_note ` set (notes_of pget m2 txid) = sn_note ` set (notes_of pget m1 txid)"
    using arg_cong [OF add_memo_notes [of txid cn memo m1 txid], of set] by (simp add: m2)
  have "sn_note ` set (pget (fst (update_output_index pget pupd cn i r))) = sn_note ` set (pget r)"
    using arg_cong [OF update_output_index_keeps_notes [of cn i r], of set] by simp
  then show ?notes using r by (simp add: eq add_pending_note_notes)
  show "memo_at pget m2 txid cn = Some (Some memo)" if "cn \<in> sn_note ` set (notes_of pget m2 txid)"
    using that eq memo_at_None [of pget m1 txid cn] add_memo_at [of txid cn memo m1 cn] by (auto simp: m2)
  show "memo_at pget m2 txid cn' = Some x" if "cn' \<noteq> cn" "memo_at pget m txid cn' = Some x"
    using that add_memo_at [of txid cn memo m1 cn'] add_pending_note_find [of cn' r] update_index_find [of cn' cn i r] r
    by (auto simp: m2 memo_at_def)
  show "hm_get m2 t = hm_get m t" if "t \<noteq> txid"
    using that create_modify_get [OF assms(1), of t] by (simp add: m2 add_memo_to_note_metadata_def hm_simps)
qed

lemma receipts_loop_effect:
  assumes "receipts_loop ma F pget pupd txid status block_time i attempts (m, memos) = Some (m', memos')"
  shows "sn_note ` set (notes_of pget m' txid) = sn_note ` set (notes_of pget m txid) \<union>
      (if is_confirmed status then {} else fst ` set (decrypted_attempts attempts)) \<and>
    (\<forall>t. t \<noteq> txid \<longrightarrow> hm_get m' t = hm_get m t) \<and>
    (\<forall>cn x. cn \<notin> fst ` set (decrypted_attempts attempts) \<longrightarrow> memo_at pget m txid cn = Some x \<longrightarrow>
      memo_at pget m' txid cn = Some x) \<and>
    (distinct (map fst (decrypted_attempts attempts)) \<longrightarrow>
      (\<forall>(cn, to, bytes) \<in> set (decrypted_attempts attempts). cn \<in> sn_note ` set (notes_of pget m' txid) \<longrightarrow>
        memo_at pget m' txid cn = Some (memo_of ma bytes)))"
  using assms
proof (induction attempts arbitrary: i m memos)
  case Nil
  then show ?case by simp
next
  case (Cons a attempts)
  show ?case
  proof (cases a)
    case None
    with Cons.prems have "receipts_loop ma F pget pupd txid status block_time (Suc i) attempts (m, memos) = Some (m', memos')"
      by simp
    then show ?thesis unfolding None decrypted_attempts_simps by (rule Cons.IH)
  next
    case (Some v)
    obtain cn to bytes where v: "v = (cn, to, bytes)" by (cases v)
    obtain mb m1 memo parsed where s: "ma_from_bytes ma bytes = Some mb"
      "create_modify_get_transaction_record txid status block_time
         (\<lambda>r. if \<not> is_confirmed status then add_pending_note pget pupd cn to (word_of_nat i) r
              else fst (update_output_index pget pupd cn (word_of_nat i) r)) m = Some m1"
      "memo = (case ma_try_from ma mb of Some memo \<Rightarrow> memo | None \<Rightarrow> Memo_Future mb)"
      "receipts_loop ma F pget pupd txid status block_time (Suc i) attempts
         (add_memo_to_note_metadata pupd txid cn memo m1, memos @ map (\<lambda>p. (p, txid)) parsed) = Some (m', memos')"
      using Cons.prems by (auto simp: Some v Let_def split: Option.bind_splits)
    let ?m2 = "add_memo_to_note_metadata pupd txid cn memo m1"
    note step = receipt_step [where memo = memo and ?m2.0 = ?m2, OF s(2) refl]
    note IH = Cons.IH [OF s(4)]
    have memo: "Some memo = memo_of ma bytes" by (simp add: memo_of_def s(1,3))
    have head: "memo_at pget m' txid cn = Some (memo_of ma bytes)"
      if "distinct (map fst (decrypted_attempts (a # attempts)))" "cn \<in> sn_note ` set (notes_of pget m' txid)"
    proof -
      have "cn \<notin> fst ` set (decrypted_attempts attempts)" using that(1) by (simp add: Some v)
      moreover from this have "cn \<in> sn_note ` set (notes_of pget ?m2 txid)"
        using that(2) IH by (auto split: if_splits)
      ultimately show ?thesis using step(2) IH memo by simp
    qed
    have tail: "\<forall>(cn, to, bytes) \<in> set (decrypted_attempts attempts). cn \<in> sn_note ` set (notes_of pget m' txid) \<longrightarrow>
        memo_at pget m' txid cn = Some (memo_of ma bytes)"
      if "distinct (map fst (decrypted_attempts (a # attempts)))"
    proof -
      have "distinct (map fst (decrypted_attempts attempts))" using that by (simp add: Some v)
      with IH show ?thesis by blast
    qed
    have "memo_at pget m' txid cn' = Some x"
      if "cn' \<notin> fst ` set (decrypted_attempts (a # attempts))" "memo_at pget m txid cn' = Some x" for cn' x
      using that step(3) [of cn' x] IH by (simp add: Some v)
    moreover have "sn_note ` set (notes_of pget m' txid) = sn_note ` set (notes_of pget m txid) \<union>
        (if is_confirmed status then {} else fst ` set (decrypted_attempts (a # attempts)))"
      using conjunct1 [OF IH] step(1) by (simp add: Some v)
    moreover have "\<forall>t. t \<noteq> txid \<longrightarrow> hm_get m' t = hm_get m t" using IH step(4) by simp
    moreover have "\<forall>(cn, to, bytes) \<in> set (decrypted_attempts (a # attempts)). cn \<in> sn_note ` set (notes_of pget m' txid) \<longrightarrow>
        memo_at pget m' txid cn = Some (memo_of ma bytes)"
      if d: "distinct (map fst (decrypted_attempts (a # attempts)))"
    proof
      fix w
      assume w: "w \<in> set (decrypted_attempts (a # attempts))"
      show "case w of (cn, to, bytes) \<Rightarrow> cn \<in> sn_note ` set (notes_of pget m' txid) \<longrightarrow>
          memo_at pget m' txid cn = Some (memo_of ma bytes)"
      proof (cases "w = v")
        case True
        with head [OF d] show ?thesis by (simp add: v)
      next
        case False
        with w have "w \<in> set (decrypted_attempts attempts)" by (simp add: Some)
        with tail [OF d] show ?thesis by blast
      qed
    qed
    ultimately show ?thesis by blast
  qed
qed

end

interpretation sapling_receipts: receiving_pool tr_sapling_notes tr_sapling_notes_update
  by unfold_locales (simp_all add: new_record_def)

interpretation orchard_receipts: receiving_pool tr_orchard_notes tr_orchard_notes_update
  by unfold_locales (simp_all add: new_record_def)

section \<open>Steps that keep the outgoing data\<close>

definition outgoing_of :: "records \<Rightarrow> txid \<Rightarrow> outgoing_tx_data list" where
  "outgoing_of m t = (case hm_get m t of Some r \<Rightarrow> tr_outgoing_tx_data r | None \<Rightarrow> [])"

definition moves :: "confirmation_status \<Rightarrow> records \<Rightarrow> records \<Rightarrow> bool" where
  "moves st m m' \<longleftrightarrow> (\<forall>t r. hm_get m t = Some r \<longrightarrow>
     (\<exists>r'. hm_get m' t = Some r' \<and> (tr_status r' = tr_status r \<or> tr_status r' = st)))"

lemma moves_refl [simp]: "moves st m m"
  by (simp add: moves_def)

lemma moves_trans: "moves st m1 m2 \<Longrightarrow> moves st m2 m3 \<Longrightarrow> moves st m1 m3"
  unfolding moves_def by metis

lemma moves_modify:
  assumes "\<And>r. tr_status (f r) = tr_status r"
  shows "moves st m (hm_modify t f m)"
  using assms by (auto simp: moves_def hm_simps)

definition quiet :: "confirmation_status \<Rightarrow> records \<Rightarrow> records \<Rightarrow> bool" where
  "quiet st m m' \<longleftrightarrow> (records_wf m \<longrightarrow> records_wf m') \<and> outgoing_of m' = outgoing_of m \<and> moves st m m'"

lemma quiet_refl [simp]: "quiet st m m"
  by (simp add: quiet_def)

lemma quiet_trans [trans]: "quiet st m1 m2 \<Longrightarrow> quiet st m2 m3 \<Longrightarrow> quiet st m1 m3"
  unfolding quiet_def using moves_trans by auto

lemma quiet_wf: "quiet st m m' \<Longrightarrow> records_wf m \<Longrightarrow> records_wf m'"
  by (simp add: quiet_def)

lemma quiet_outgoing: "quiet st m m' \<Longrightarrow> outgoing_of m' = outgoing_of m"
  by (simp add: quiet_def)

lemma quiet_modify:
  assumes "\<And>r. tr_txid (f r) = tr_txid r" "\<And>r. tr_outgoing_tx_data (f r) = tr_outgoing_tx_data r"
    and "\<And>r. tr_status (f r) = tr_status r"
  shows "quiet st m (hm_modify t f m)"
  using assms records_wf_modify [of m f t] moves_modify [of f st m t]
  by (auto simp: quiet_def outgoing_of_def hm_simps fun_eq_iff split: option.splits)

lemma quiet_create_modify:
  assumes "create_modify_get_transaction_record t st dt k m = Some m'"
    and "\<And>r. tr_txid (k r) = tr_txid r" "\<And>r. tr_outgoing_tx_data (k r) = tr_outgoing_tx_data r"
    and "\<And>r. tr_status (k r) = tr_status r"
  shows "quiet st m m'"
proof -
  have "\<exists>r'. hm_get m' x = Some r' \<and> (tr_status r' = tr_status r \<or> tr_status r' = st)" if "hm_get m x = Some r" for x r
    using create_modify_get [OF assms(1), of x] assms(4) that by (auto split: if_splits)
  then have "moves st m m'" by (simp add: moves_def)
  moreover
  have "outgoing_of m' x = outgoing_of m x" for x
    using create_modify_get [OF assms(1), of x] assms(3)
    by (auto simp: outgoing_of_def new_record_def split: option.splits if_splits)
  ultimately show ?thesis using create_modify_wf [OF assms(1) _ assms(2)] by (auto simp: quiet_def)
qed

lemma quiet_add_taddr_output:
  "add_new_taddr_output t a st dt vout i m = Some m' \<Longrightarrow> quiet st m m'"
  unfolding add_new_taddr_output_def by (erule quiet_create_modify) (auto simp: Let_def split: option.splits)

lemma quiet_receipts_from:
  "receipts_from rc ts tx st bt n vouts m = Some m' \<Longrightarrow> quiet st m m'"
proof (induction vouts arbitrary: n m)
  case (Cons v vouts)
  let ?here = "case rc v of None \<Rightarrow> Some m
    | Some a \<Rightarrow> if a \<in> set ts then record_taddr_receipt tx st a bt v n m else Some m"
  obtain m1 where m1: "?here = Some m1" "receipts_from rc ts tx st bt (Suc n) vouts m1 = Some m'"
    using Cons.prems by (cases ?here) (simp_all add: Let_def)
  have "quiet st m m1"
    using m1(1) quiet_add_taddr_output by (simp add: record_taddr_receipt_def split: option.splits if_splits)
  with Cons.IH [OF m1(2)] show ?case by (blast intro: quiet_trans)
qed simp

lemma quiet_mark_utxo: "quiet st m (fst (mark_txid_utxo_spent t i s st m))"
  by (auto simp: mark_txid_utxo_spent_def split: option.splits intro!: quiet_modify)

lemma quiet_mark_utxos:
  "quiet st m (fold (\<lambda>(t, i, s) m. fst (mark_txid_utxo_spent t i s st m)) us m)"
proof (induction us arbitrary: m)
  case (Cons u us)
  obtain t i s where "u = (t, i, s)" by (cases u)
  then show ?case using quiet_trans [OF quiet_mark_utxo Cons.IH] by simp
qed simp

lemma quiet_transparent:
  assumes "decrypt_transaction_to_record_transparent rc ts rej tx st bt tex m = Some (m', tex')"
  shows "quiet st m m'"
proof -
  obtain m1 where m1: "account_for_transparent_receipts rc ts tx st bt m = Some m1"
    "account_for_transparent_spending rej tx st bt tex m1 = Some (m', tex')"
    using assms by (auto simp: decrypt_transaction_to_record_transparent_def split: option.splits)
  have "quiet st m m1"
    using m1(1) quiet_receipts_from by (auto simp: account_for_transparent_receipts_def split: option.splits)
  moreover have "quiet st m1 m'"
  proof -
    obtain us v tex2 where "(if v > 0 then map_option (\<lambda>m. (m, tex2)) (add_taddr_spent (sx_txid tx) st bt v
        (fold (\<lambda>(t, i, s) m. fst (mark_txid_utxo_spent t i s st m)) us m1))
      else Some (fold (\<lambda>(t, i, s) m. fst (mark_txid_utxo_spent t i s st m)) us m1, tex2)) = Some (m', tex')"
      using m1(2) by (auto simp: account_for_transparent_spending_def Let_def split: prod.splits)
    moreover have "add_taddr_spent (sx_txid tx) st bt v m2 = Some m3 \<Longrightarrow> quiet st m2 m3" for m2 m3
      unfolding add_taddr_spent_def by (erule quiet_create_modify) simp_all
    ultimately show ?thesis using quiet_mark_utxos [of st m1 us]
      by (auto split: if_splits intro: quiet_trans)
  qed
  ultimately show ?thesis by (rule quiet_trans)
qed

context receiving_pool
begin

lemma quiet_receipts_loop:
  "receipts_loop ma F pget pupd txid st bt i attempts (m, memos) = Some (m', memos') \<Longrightarrow> quiet st m m'"
proof (induction attempts arbitrary: i m memos)
  case (Cons a attempts)
  show ?case
  proof (cases a)
    case None
    with Cons show ?thesis by simp
  next
    case (Some v)
    obtain cn to bytes where v: "v = (cn, to, bytes)" by (cases v)
    obtain m1 memo memos1 where s: "create_modify_get_transaction_record txid st bt
         (\<lambda>r. if \<not> is_confirmed st then add_pending_note pget pupd cn to (word_of_nat i) r
              else fst (update_output_index pget pupd cn (word_of_nat i) r)) m = Some m1"
      "receipts_loop ma F pget pupd txid st bt (Suc i) attempts
         (add_memo_to_note_metadata pupd txid cn memo m1, memos1) = Some (m', memos')"
      using Cons.prems by (auto simp: Some v Let_def split: Option.bind_splits)
    have "quiet st m m1" using s(1)
      by (rule quiet_create_modify)
         (auto simp: add_pending_note_def update_output_index_def upd_txid upd_outgoing upd_status split: option.splits)
    also have "quiet st m1 (add_memo_to_note_metadata pupd txid cn memo m1)"
      unfolding add_memo_to_note_metadata_def by (rule quiet_modify) (simp_all add: upd_txid upd_outgoing upd_status)
    also have "quiet st \<dots> m'" using Cons.IH s(2) .
    finally show ?thesis .
  qed
qed simp

lemma quiet_mark_note:
  assumes "mark_note_as_spent ops pget pupd nv rm nf sp st src oi tm = Some (tm', res)" "\<not> is_confirmed st"
  shows "quiet st (tm_records tm) (tm_records tm')"
  using assms
  by (cases st) (auto simp: mark_note_as_spent_def upd_txid upd_outgoing upd_status split: option.splits intro!: quiet_modify)

end

lemma add_spent_nullifier_keeps [simp]:
  "tr_txid (add_spent_nullifier nf v r) = tr_txid r"
  "tr_outgoing_tx_data (add_spent_nullifier nf v r) = tr_outgoing_tx_data r"
  "tr_status (add_spent_nullifier nf v r) = tr_status r"
  by (cases nf; simp)+

context receiving_pool
begin

lemma quiet_found_internal:
  assumes "found_spent_nullifier_internal ops pget pupd nv rm sns ip sp st ts nf src oi tm = Some (tm', res)"
    and "\<not> is_confirmed st"
  shows "quiet st (tm_records tm) (tm_records tm')"
proof -
  obtain tm1 res1 where m: "mark_note_as_spent ops pget pupd nv rm nf sp st src oi tm = Some (tm1, res1)"
    using assms(1) by (auto simp: found_spent_nullifier_internal_def split: option.splits)
  note q = quiet_mark_note [OF m assms(2)]
  show ?thesis
  proof (cases res1)
    case (Inl e)
    with assms(1) m q show ?thesis by (simp add: found_spent_nullifier_internal_def)
  next
    case (Inr v)
    then obtain rs where "create_modify_get_transaction_record sp st ts
        (\<lambda>r. if \<not> list_ex (\<lambda>x. x = nf) (sns r) then add_spent_nullifier (ip nf) v r else r) (tm_records tm1) = Some rs"
      "tm' = tm1\<lparr> tm_records := rs \<rparr>"
      using assms(1) m by (auto simp: found_spent_nullifier_internal_def)
    moreover from this(1) have "quiet st (tm_records tm1) rs" by (rule quiet_create_modify) simp_all
    ultimately show ?thesis using q by (simp add: quiet_trans)
  qed
qed

lemma found_internal_total:
  assumes "\<not> is_confirmed st"
  shows "\<exists>r. found_spent_nullifier_internal ops pget pupd nv rm sns ip sp st (Some ts) nf src oi tm = Some r"
proof -
  have "create_modify_get_transaction_record sp st (Some ts) k m \<noteq> None" for k m
    by (simp add: create_modify_None_iff)
  then show ?thesis using assms
    by (cases st) (auto simp: found_spent_nullifier_internal_def mark_note_as_spent_def split: option.splits sum.splits)
qed

end

lemma quiet_found_spent:
  "found_spent_nullifier ops sp st ts nf src oi tm = Some (tm', res) \<Longrightarrow> \<not> is_confirmed st \<Longrightarrow>
   quiet st (tm_records tm) (tm_records tm')"
  by (cases nf) (auto elim: sapling_receipts.quiet_found_internal orchard_receipts.quiet_found_internal)

lemma found_spent_total:
  "\<not> is_confirmed st \<Longrightarrow> \<exists>tm' res. found_spent_nullifier ops sp st (Some ts) nf src oi tm = Some (tm', res)"
  using sapling_receipts.found_internal_total orchard_receipts.found_internal_total
  by (cases nf) fastforce+

lemma quiet_pending_spends:
  "pending_spends_loop ops ip us txid st bt nfs tm = Some tm' \<Longrightarrow> \<not> is_confirmed st \<Longrightarrow>
   quiet st (tm_records tm) (tm_records tm')"
proof (induction nfs arbitrary: tm)
  case (Cons nf nfs)
  show ?case
  proof (cases "find (\<lambda>(x, _, _, _). x = nf) us")
    case None
    with Cons show ?thesis by simp
  next
    case (Some u)
    obtain x v t oi where u: "u = (x, v, t, oi)" by (cases u)
    obtain tm1 res where "found_spent_nullifier ops txid st bt (ip x) t oi tm = Some (tm1, res)"
      "pending_spends_loop ops ip us txid st bt nfs tm1 = Some tm'"
      using Cons.prems(1) by (auto simp: Some u split: Option.bind_splits)
    with Cons show ?thesis by (blast intro: quiet_trans quiet_found_spent)
  qed
qed simp

lemma pending_spends_total:
  "\<not> is_confirmed st \<Longrightarrow> \<exists>tm'. pending_spends_loop ops ip us txid st (Some ts) nfs tm = Some tm'"
proof (induction nfs arbitrary: tm)
  case (Cons nf nfs)
  show ?case
  proof (cases "find (\<lambda>(x, _, _, _). x = nf) us")
    case None
    with Cons show ?thesis by simp
  next
    case (Some u)
    obtain x v t oi where u: "u = (x, v, t, oi)" by (cases u)
    obtain tm1 res where "found_spent_nullifier ops txid st (Some ts) (ip x) t oi tm = Some (tm1, res)"
      using found_spent_total [OF Cons.prems] by blast
    with Cons show ?thesis by (simp add: Some u)
  qed
qed simp

section \<open>The domain-specific part\<close>

context receiving_pool
begin

lemma quiet_domain:
  assumes "decrypt_transaction_to_record_domain lib ma F U addresses ops pget pupd nv vn ip txid bundle st bt (tm, out, memos) =
     Some (tm', out', memos')"
  shows "quiet st (tm_records tm) (tm_records tm')"
    and "\<exists>xs. out' = out @ List.map_filter id xs \<and> set xs \<subseteq>
       (\<Union>(ivk, ovk) \<in> set_option (sl_viewing lib). outgoing_data_of lib ma U addresses vn ovk (get_height st) `
          set (case bundle of None \<Rightarrow> [] | Some b \<Rightarrow> sb_output_elements b))"
proof -
  let ?outs = "case bundle of None \<Rightarrow> [] | Some b \<Rightarrow> sb_output_elements b"
  have "quiet st (tm_records tm) (tm_records tm') \<and> (\<exists>xs. out' = out @ List.map_filter id xs \<and> set xs \<subseteq>
       (\<Union>(ivk, ovk) \<in> set_option (sl_viewing lib). outgoing_data_of lib ma U addresses vn ovk (get_height st) ` set ?outs))"
  proof (cases "sl_viewing lib")
    case None
    with assms show ?thesis
      by (auto simp: decrypt_transaction_to_record_domain_def Let_def List.map_filter_simps intro!: exI [of _ "[]"])
  next
    case (Some v)
    obtain ivk ovk where v: "v = (ivk, ovk)" by (cases v)
    let ?nfs = "case bundle of None \<Rightarrow> [] | Some b \<Rightarrow> sb_spend_nullifiers b"
    let ?dto = "map (\<lambda>out. (sl_domain lib (get_height st) out, out)) ?outs"
    obtain m memos1 where r: "account_for_shielded_receipts lib ma F pget pupd ivk ?dto st txid bt
        (tm_records tm, memos) = Some (m, memos1)"
      and p: "(if \<not> is_confirmed st then pending_spends_loop ops ip
           (get_nullifier_value_txid_outputindex_of_unspent_notes pget nv (tm\<lparr> tm_records := m \<rparr>)) txid st bt ?nfs
           (tm\<lparr> tm_records := m \<rparr>) else Some (tm\<lparr> tm_records := m \<rparr>)) = Some tm'"
      and o: "out' = out @ List.map_filter (\<lambda>(_, out). outgoing_data_of lib ma U addresses vn ovk (get_height st) out) ?dto"
      using assms unfolding decrypt_transaction_to_record_domain_def Let_def
      by (auto simp: Some v split: Option.bind_splits if_splits)
    have "quiet st (tm_records tm) m"
      using r quiet_receipts_loop by (simp add: account_for_shielded_receipts_def)
    moreover have "quiet st m (tm_records tm')"
      using p quiet_pending_spends [of ops ip _ txid st bt ?nfs "tm\<lparr> tm_records := m \<rparr>" tm'] by (auto split: if_splits)
    moreover have "out' = out @ List.map_filter id
        (map (\<lambda>x. outgoing_data_of lib ma U addresses vn ovk (get_height st) x) ?outs)"
      by (simp add: o List.map_filter_def comp_def filter_map)
    ultimately show ?thesis by (auto simp: Some v intro: quiet_trans)
  qed
  then show "quiet st (tm_records tm) (tm_records tm')"
    and "\<exists>xs. out' = out @ List.map_filter id xs \<and> set xs \<subseteq>
       (\<Union>(ivk, ovk) \<in> set_option (sl_viewing lib). outgoing_data_of lib ma U addresses vn ovk (get_height st) ` set ?outs)"
    by blast+
qed

lemma receipts_loop_total:
  assumes "\<forall>n to bytes. Some (n, to, bytes) \<in> set attempts \<longrightarrow> ma_from_bytes ma bytes \<noteq> None"
    and "\<forall>bs. parse_zingo_memo F bs \<noteq> Rd_Panic"
  shows "\<exists>st'. receipts_loop ma F pget pupd txid st (Some bt) i attempts s = Some st'"
  using assms(1)
proof (induction attempts arbitrary: i s)
  case (Cons a attempts)
  show ?case
  proof (cases a)
    case None
    with Cons show ?thesis by simp
  next
    case (Some v)
    obtain cn to bytes where v: "v = (cn, to, bytes)" by (cases v)
    obtain m memos where s: "s = (m, memos)" by (cases s)
    have "Some (cn, to, bytes) \<in> set (a # attempts)" by (simp add: Some v)
    with Cons.prems obtain mb where mb: "ma_from_bytes ma bytes = Some mb" by blast
    have z: "\<exists>ps. zingo_memo_of F memo = Some ps" for memo
      using assms(2) by (auto simp: zingo_memo_of_def split: memo.splits rd.splits)
    let ?k = "\<lambda>r. if \<not> is_confirmed st then add_pending_note pget pupd cn to (word_of_nat i) r
       else fst (update_output_index pget pupd cn (word_of_nat i) r)"
    obtain m1 where m1: "create_modify_get_transaction_record txid st (Some bt) ?k m = Some m1"
      using create_modify_None_iff [of txid st "Some bt" ?k m] by auto
    obtain ps where ps: "zingo_memo_of F (case ma_try_from ma mb of Some memo \<Rightarrow> memo | None \<Rightarrow> Memo_Future mb) = Some ps"
      using z by blast
    show ?thesis using Cons.IH Cons.prems by (simp add: Some v s mb m1 ps Let_def)
  qed
qed simp

lemma domain_total:
  assumes "\<forall>ivk outs n to bytes. Some (n, to, bytes) \<in> set (sl_try_note_decryption lib ivk outs) \<longrightarrow> ma_from_bytes ma bytes \<noteq> None"
    and "\<forall>bs. parse_zingo_memo F bs \<noteq> Rd_Panic"
  shows "\<exists>tm' out' memos'. decrypt_transaction_to_record_domain lib ma F U addresses (ops :: 'e tree_ops) pget pupd nv vn ip txid bundle
     st (Some bt) (tm, out, memos) = Some (tm', out', memos')"
proof -
  have r: "\<exists>m memos'. account_for_shielded_receipts lib ma F pget pupd ivk outs st txid (Some bt) s = Some (m, memos')"
    for ivk outs s
    using receipts_loop_total [of "sl_try_note_decryption lib ivk outs" ma F txid st bt 0 s] assms
    unfolding account_for_shielded_receipts_def by auto
  show ?thesis
  proof (cases "sl_viewing lib")
    case (Some v)
    obtain ivk ovk where v: "v = (ivk, ovk)" by (cases v)
    let ?dto = "map (\<lambda>out. (sl_domain lib (get_height st) out, out)) (case bundle of None \<Rightarrow> [] | Some b \<Rightarrow> sb_output_elements b)"
    obtain m memos' where "account_for_shielded_receipts lib ma F pget pupd ivk ?dto st txid (Some bt) (tm_records tm, memos) = Some (m, memos')"
      using r by blast
    moreover have "\<exists>tm'. pending_spends_loop ops ip us txid st (Some bt) nfs tm1 = Some tm'"
      if "\<not> is_confirmed st" for us nfs and tm1 :: "'e tx_map"
      using that by (rule pending_spends_total)
    ultimately show ?thesis
      by (cases "is_confirmed st") (auto simp: decrypt_transaction_to_record_domain_def Some v Let_def split: Option.bind_splits)
  qed (simp add: decrypt_transaction_to_record_domain_def)
qed

end

section \<open>Memos\<close>

definition erase_ua :: "outgoing_tx_data \<Rightarrow> outgoing_tx_data" where
  "erase_ua d = d\<lparr> ot_recipient_ua := None \<rparr>"

lemma erase_foldl_mark [simp]: "erase_ua (foldl (\<lambda>d ua. mark_ua U ua d) d uas) = erase_ua d"
  by (auto simp: foldl_mark_ua erase_ua_def split: option.splits)

lemma handle_uas_txid: "tr_txid (handle_uas U uas r) = tr_txid r"
  unfolding handle_uas_def by (induction uas arbitrary: r) simp_all

lemma modify_handle_uas:
  "(records_wf m \<longrightarrow> records_wf (hm_modify t (handle_uas U uas) m)) \<and>
   (\<forall>x. map erase_ua (outgoing_of (hm_modify t (handle_uas U uas) m) x) = map erase_ua (outgoing_of m x))"
  using records_wf_modify [of m "handle_uas U uas" t]
  by (auto simp: outgoing_of_def hm_simps handle_uas_txid handle_uas_outgoing comp_def split: option.splits)

lemma update_from_zingomemos_keeps:
  assumes "update_from_zingomemos U derive memos (m, keys) = ((m', keys'), res)"
  shows "(records_wf m \<longrightarrow> records_wf m') \<and> (\<forall>x. map erase_ua (outgoing_of m' x) = map erase_ua (outgoing_of m x))"
  using assms
proof (induction memos arbitrary: m keys)
  case (Cons p memos)
  obtain pm t where p: "p = (pm, t)" by (cases p)
  show ?case
  proof (cases "hm_get m t")
    case None
    with Cons show ?thesis by (simp add: p)
  next
    case (Some r)
    show ?thesis
    proof (cases pm)
      case (Version0 uas)
      with Cons.prems have "update_from_zingomemos U derive memos (hm_modify t (handle_uas U uas) m, keys) = ((m', keys'), res)"
        by (simp add: p Some)
      from Cons.IH [OF this] show ?thesis using modify_handle_uas [of m t U uas] by simp
    next
      case (Version1 uas idx)
      let ?m = "hm_modify t (handle_uas U uas) m"
      obtain ks r1 where h: "handle_texes derive idx keys = (ks, r1)" by (cases "handle_texes derive idx keys")
      show ?thesis
      proof (cases r1)
        case (Inl e)
        with Cons.prems h have "m' = ?m" by (simp add: p Some Version1 Let_def)
        then show ?thesis using modify_handle_uas [of m t U uas] by simp
      next
        case (Inr x)
        with Cons.prems h have "update_from_zingomemos U derive memos (?m, ks) = ((m', keys'), res)"
          by (simp add: p Some Version1 Let_def)
        from Cons.IH [OF this] show ?thesis using modify_handle_uas [of m t U uas] by simp
      qed
    qed
  qed
qed simp

lemma texes_loop_Inr:
  assumes "\<And>i. \<exists>k. derive i = Inr k"
  shows "\<exists>ks. texes_loop derive t is keys = (ks, Inr ())"
proof (induction "is" arbitrary: keys)
  case (Cons i "is")
  obtain new where "fill_gap derive (unat i + 1 - t) keys = (keys @ new, Inr ())"
    using fill_gap_total [of derive, OF assms] by blast
  with Cons show ?case by simp
qed simp

lemma update_from_zingomemos_Inr:
  assumes "\<And>i. \<exists>k. derive i = Inr k"
  shows "\<exists>m' ks. update_from_zingomemos U derive memos (m, keys) = ((m', ks), Inr ())"
proof (induction memos arbitrary: m keys)
  case (Cons p memos)
  obtain pm t where p: "p = (pm, t)" by (cases p)
  have h: "\<exists>ks. handle_texes derive idx keys = (ks, Inr ())" for idx
    unfolding handle_texes_def using assms by (rule texes_loop_Inr)
  show ?case
  proof (cases "hm_get m t")
    case (Some r)
    show ?thesis
    proof (cases pm)
      case (Version1 uas idx)
      obtain ks where "handle_texes derive idx keys = (ks, Inr ())" using h by blast
      with Cons.IH show ?thesis by (simp add: p Some Version1 Let_def)
    qed (use Cons.IH in \<open>simp add: p Some\<close>)
  qed (use Cons.IH in \<open>simp add: p\<close>)
qed simp

section \<open>Transparent recipients\<close>

definition paid_transparent :: "taddr_lib \<Rightarrow> string list \<Rightarrow> tx_out list \<Rightarrow> outgoing_tx_data \<Rightarrow> bool" where
  "paid_transparent T taddrs vouts d \<longleftrightarrow> (\<exists>vout \<in> set vouts. \<exists>a tex. tl_recipient_address T vout = Some a \<and>
     recipient_taddr T tex a = Some (ot_recipient_address d) \<and> ot_value d = vo_value vout \<and>
     ot_memo d = Memo_Empty \<and> ot_recipient_address d \<notin> set taddrs)"

lemma vout_loop_paid:
  "vout_loop T taddrs tex vouts out = Some out' \<Longrightarrow>
   \<exists>new. out' = out @ new \<and> list_all (paid_transparent T taddrs vouts) new"
proof (induction vouts arbitrary: out)
  case (Cons v vouts)
  have mono: "list_all (paid_transparent T taddrs (v # vouts)) xs" if "list_all (paid_transparent T taddrs vouts) xs" for xs
    using that by (auto simp: paid_transparent_def list_all_iff)
  show ?case
  proof (cases "tl_recipient_address T v")
    case None
    with Cons.prems have "vout_loop T taddrs tex vouts out = Some out'" by simp
    from Cons.IH [OF this] mono show ?thesis by blast
  next
    case (Some a)
    let ?d = "\<lambda>t. \<lparr> ot_recipient_address = t, ot_value = vo_value v, ot_memo = Memo_Empty, ot_recipient_ua = None \<rparr>"
    obtain t where t: "recipient_taddr T tex a = Some t"
      "vout_loop T taddrs tex vouts (if t \<notin> set taddrs then out @ [?d t] else out) = Some out'"
      using Cons.prems by (auto simp: Some split: Option.bind_splits)
    obtain new where new: "out' = (if t \<notin> set taddrs then out @ [?d t] else out) @ new" "list_all (paid_transparent T taddrs vouts) new"
      using Cons.IH [OF t(2)] by blast
    show ?thesis
    proof (cases "t \<in> set taddrs")
      case True
      with new mono show ?thesis by auto
    next
      case False
      then have "paid_transparent T taddrs (v # vouts) (?d t)"
        using t(1) Some by (auto simp: paid_transparent_def)
      with False new mono [OF new(2)] show ?thesis by (intro exI [of _ "?d t # new"]) simp
    qed
  qed
qed simp

lemma vout_loop_total:
  assumes "\<forall>vout \<in> set vouts. \<forall>h. tl_recipient_address T vout \<noteq> Some (ScriptHash h)"
    and tex: "\<forall>h. tl_bech32m T (tl_hrp_tex_address T) h \<noteq> None"
  shows "\<exists>out'. vout_loop T taddrs tex' vouts out = Some out'"
  using assms(1)
proof (induction vouts arbitrary: out)
  case (Cons v vouts)
  show ?case
  proof (cases "tl_recipient_address T v")
    case (Some a)
    with Cons.prems obtain h where "a = PublicKeyHash h" by (cases a) auto
    then obtain t where "recipient_taddr T tex' a = Some t" using tex by (cases tex') (auto simp: interpret_taddr_as_tex_addr_def)
    with Cons Some show ?thesis by simp
  qed (use Cons in simp)
qed simp

section \<open>The whole scan\<close>

definition paid_shielded ::
  "('out, 'd, 'ivk, 'ovk, 'n) shielded_lib \<Rightarrow> memo_api \<Rightarrow> 'ua ua_encodings \<Rightarrow> 'ua list \<Rightarrow> ('n \<Rightarrow> u64) \<Rightarrow>
   block_height \<Rightarrow> 'out shielded_bundle option \<Rightarrow> outgoing_tx_data \<Rightarrow> bool" where
  "paid_shielded lib ma U addresses value_from_note height bundle d \<longleftrightarrow>
     (\<exists>ivk ovk b out n bytes. sl_viewing lib = Some (ivk, ovk) \<and> bundle = Some b \<and> out \<in> set (sb_output_elements b) \<and>
        sl_try_output_recovery lib (sl_domain lib height out) ovk out = Some (n, ot_recipient_address d, bytes) \<and>
        ot_value d = value_from_note n \<and> Option.bind (ma_from_bytes ma bytes) (ma_try_from ma) = Some (ot_memo d) \<and>
        (\<forall>u \<in> set addresses. ot_recipient_address d \<notin> set (own_receivers U u)))"

lemma outgoing_data_of_paid:
  assumes "outgoing_data_of lib ma U addresses vn ovk h out = Some d" "sl_viewing lib = Some (ivk, ovk)"
    and "bundle = Some b" "out \<in> set (sb_output_elements b)"
  shows "paid_shielded lib ma U addresses vn h bundle d"
proof -
  obtain n a bytes memo where s: "sl_try_output_recovery lib (sl_domain lib h out) ovk out = Some (n, a, bytes)"
    "Option.bind (ma_from_bytes ma bytes) (ma_try_from ma) = Some memo"
    "\<forall>u \<in> set addresses. a \<notin> set (own_receivers U u)"
    "d = \<lparr> ot_recipient_address = a, ot_value = vn n, ot_memo = memo, ot_recipient_ua = None \<rparr>"
    using assms(1) by (auto simp: outgoing_data_of_def list_ex_iff split: option.splits if_splits)
  then show ?thesis using assms(2-) unfolding paid_shielded_def
    by (intro exI [of _ ivk] exI [of _ ovk] exI [of _ b] exI [of _ out] exI [of _ n] exI [of _ bytes]) simp
qed

context receiving_pool
begin

lemma domain_paid:
  assumes "decrypt_transaction_to_record_domain lib ma F U addresses ops pget pupd nv vn ip txid bundle st bt (tm, out, memos) =
     Some (tm', out', memos')"
  shows "\<exists>new. out' = out @ new \<and> list_all (paid_shielded lib ma U addresses vn (get_height st) bundle) new"
proof -
  obtain xs where xs: "out' = out @ List.map_filter id xs" "set xs \<subseteq>
       (\<Union>(ivk, ovk) \<in> set_option (sl_viewing lib). outgoing_data_of lib ma U addresses vn ovk (get_height st) `
          set (case bundle of None \<Rightarrow> [] | Some b \<Rightarrow> sb_output_elements b))"
    using quiet_domain(2) [OF assms] by blast
  have "paid_shielded lib ma U addresses vn (get_height st) bundle d" if d: "Some d \<in> set xs" for d
  proof -
    obtain ivk ovk where v: "sl_viewing lib = Some (ivk, ovk)" 
      "Some d \<in> outgoing_data_of lib ma U addresses vn ovk (get_height st) ` set (case bundle of None \<Rightarrow> [] | Some b \<Rightarrow> sb_output_elements b)"
      using d xs(2) by auto
    then obtain b x where "bundle = Some b" "x \<in> set (sb_output_elements b)"
      "outgoing_data_of lib ma U addresses vn ovk (get_height st) x = Some d"
      by (cases "bundle") (auto dest: sym)
    with v(1) show ?thesis by (blast intro: outgoing_data_of_paid)
  qed
  then show ?thesis using xs(1) by (auto simp: list_all_iff map_filter_set)
qed

end

lemma decrypt_phases:
  assumes "decrypt_transaction_to_record C tx st bt (tm, out, memos, tex) = Some (tm', out', memos', tex')"
  obtains m tm1 out1 memos1 where
    "decrypt_transaction_to_record_transparent (taddr_recipient (sc_taddr_lib C)) (sc_taddrs C)
       (map fst (tm_rejection_addresses tm)) (scanned_tx.truncate tx) st bt tex (tm_records tm) = Some (m, tex')"
    "decrypt_transaction_to_record_sapling C tx st bt (tm\<lparr> tm_records := m \<rparr>, out, memos) = Some (tm1, out1, memos1)"
    "decrypt_transaction_to_record_orchard C tx st bt (tm1, out1, memos1) = Some (tm', out', memos')"
  using assms unfolding decrypt_transaction_to_record_def by (auto simp: Option.bind_eq_Some_conv intro: that)

definition paid_sapling where
  "paid_sapling C tx st = paid_shielded (sc_sapling_lib C) (sc_memo_api C) (sc_ua_encodings C) (sc_addresses C) sc_value
     (get_height st) (sx_sapling_bundle tx)"

definition paid_orchard where
  "paid_orchard C tx st = paid_shielded (sc_orchard_lib C) (sc_memo_api C) (sc_ua_encodings C) (sc_addresses C) oc_value
     (get_height st) (sx_orchard_bundle tx)"

lemma decrypt_to_record_effect:
  assumes "decrypt_transaction_to_record C tx st bt (tm, [], [], tex) = Some (tm', out', memos', tex')"
  shows "quiet st (tm_records tm) (tm_records tm')"
    and "list_all (\<lambda>d. paid_sapling C tx st d \<or> paid_orchard C tx st d) out'"
proof -
  obtain m tm1 out1 memos1 where d:
    "decrypt_transaction_to_record_transparent (taddr_recipient (sc_taddr_lib C)) (sc_taddrs C)
       (map fst (tm_rejection_addresses tm)) (scanned_tx.truncate tx) st bt tex (tm_records tm) = Some (m, tex')"
    "decrypt_transaction_to_record_sapling C tx st bt (tm\<lparr> tm_records := m \<rparr>, [], []) = Some (tm1, out1, memos1)"
    "decrypt_transaction_to_record_orchard C tx st bt (tm1, out1, memos1) = Some (tm', out', memos')"
    using assms by (rule decrypt_phases)
  note s = d(2) [unfolded decrypt_transaction_to_record_sapling_def]
    and o = d(3) [unfolded decrypt_transaction_to_record_orchard_def]
  have "quiet st (tm_records tm) m" using d(1) by (rule quiet_transparent)
  also have "quiet st m (tm_records tm1)" using sapling_receipts.quiet_domain(1) [OF s] by simp
  also have "quiet st (tm_records tm1) (tm_records tm')" by (rule orchard_receipts.quiet_domain(1) [OF o])
  finally show "quiet st (tm_records tm) (tm_records tm')" .
  obtain a where a: "out1 = a" "list_all (paid_sapling C tx st) a"
    using sapling_receipts.domain_paid [OF s] by (auto simp: paid_sapling_def)
  obtain b where "out' = out1 @ b" "list_all (paid_orchard C tx st) b"
    using orchard_receipts.domain_paid [OF o] by (auto simp: paid_orchard_def)
  with a show "list_all (\<lambda>d. paid_sapling C tx st d \<or> paid_orchard C tx st d) out'"
    by (auto simp: list_all_iff)
qed

lemma post_process_paid:
  assumes "post_process_scan_results C tx tex m out = Some out'"
  shows "\<exists>new. out' = out @ new \<and> list_all (paid_transparent (sc_taddr_lib C) (sc_taddrs C)
    (case sx_transparent_bundle tx of None \<Rightarrow> [] | Some b \<Rightarrow> tb_vout b)) new"
  using assms vout_loop_paid [of "sc_taddr_lib C" "sc_taddrs C" tex _ out out']
  by (auto simp: post_process_scan_results_def split: option.splits tx_kind.splits Option.bind_splits)

lemma scan_full_tx_phases:
  assumes "scan_full_tx C tx st bt price tm = Some tm'"
  obtains tm1 out1 memos tex out m where
    "decrypt_transaction_to_record C tx st bt (tm, [], [], False) = Some (tm1, out1, memos, tex)"
    "post_process_scan_results C tx tex (tm_records tm1) out1 = Some out"
    "update_from_zingomemos (sc_ua_encodings C) (sc_derive_rejection C) memos
       (if out \<noteq> [] then add_outgoing_metadata (sx_txid tx) out (tm_records tm1) else tm_records tm1,
        tm_rejection_addresses tm1) = ((m, tm_rejection_addresses tm'), Inr ())"
    "tm_records tm' = set_price (sx_txid tx) price m"
proof -
  obtain tm1 out1 memos tex out where p:
    "decrypt_transaction_to_record C tx st bt (tm, [], [], False) = Some (tm1, out1, memos, tex)"
    "post_process_scan_results C tx tex (tm_records tm1) out1 = Some out"
    using assms unfolding scan_full_tx_def by (auto simp: Option.bind_eq_Some_conv)
  obtain m ks res where u: "update_from_zingomemos (sc_ua_encodings C) (sc_derive_rejection C) memos
       (if out \<noteq> [] then add_outgoing_metadata (sx_txid tx) out (tm_records tm1) else tm_records tm1,
        tm_rejection_addresses tm1) = ((m, ks), res)"
    by (metis surj_pair)
  have "res = Inr () \<and> tm' = tm1\<lparr> tm_records := set_price (sx_txid tx) price m, tm_rejection_addresses := ks \<rparr>"
    using assms unfolding scan_full_tx_def by (cases res) (simp_all add: p u Let_def)
  with p u show ?thesis by (intro that) simp_all
qed

lemma paid_erase:
  "erase_ua d = erase_ua d' \<Longrightarrow> paid_shielded lib ma U as vn h b d = paid_shielded lib ma U as vn h b d'"
  "erase_ua d = erase_ua d' \<Longrightarrow> paid_transparent T ts vouts d = paid_transparent T ts vouts d'"
  by (cases d; cases d'; simp add: erase_ua_def paid_shielded_def paid_transparent_def)+


section \<open>Readers that never panic\<close>

definition calm :: "'a reader \<Rightarrow> bool" where
  "calm r \<longleftrightarrow> (\<forall>bs. r bs \<noteq> Rd_Panic)"

named_theorems calm_intros

lemma calm_bind [calm_intros]: "calm r \<Longrightarrow> (\<And>x. calm (f x)) \<Longrightarrow> calm (rd_bind r f)"
  by (auto simp: calm_def rd_bind_apply split: rd.splits)

lemma calm_basic [calm_intros]: "calm (rd_return x)" "calm (rd_fail e)" "calm (read_exact n)"
  by (simp_all add: calm_def read_exact_def rd_return_def rd_fail_def)

lemma calm_if [calm_intros]: "(b \<Longrightarrow> calm r) \<Longrightarrow> (\<not> b \<Longrightarrow> calm s) \<Longrightarrow> calm (if b then r else s)"
  by simp

lemma calm_read_le [calm_intros]: "calm (read_le n)"
  unfolding read_le_def by (intro calm_intros)

lemma calm_read_n [calm_intros]: "calm r \<Longrightarrow> calm (read_n n r)"
  by (induction n) (auto intro!: calm_intros)

definition format_calm :: "'ua memo_format \<Rightarrow> bool" where
  "format_calm F \<longleftrightarrow> calm (mf_cs_read F) \<and> calm (mf_cs_read_u32 F) \<and>
     (\<forall>r. calm r \<longrightarrow> calm (vec_read (mf_vec_ua F) r)) \<and> (\<forall>r. calm r \<longrightarrow> calm (vec_read (mf_vec_receiver F) r)) \<and>
     (\<forall>r. calm r \<longrightarrow> calm (vec_read (mf_vec_index F) r))"

lemma parse_zingo_memo_calm:
  assumes "format_calm F"
  shows "calm (parse_zingo_memo F)"
proof -
  have "calm (read_receiver F)"
    using assms unfolding read_receiver_def decode_receiver_def sized_def format_calm_def by (intro calm_intros) auto
  then have "calm (read_unified_address_from_raw_encoding F)"
    using assms unfolding read_unified_address_from_raw_encoding_def format_calm_def
    by (auto intro!: calm_intros split: sum.splits)
  then show ?thesis using assms unfolding parse_zingo_memo_def format_calm_def by (intro calm_intros) auto
qed

lemma compact_read_calm [calm_intros]: "calm compact_read"
  unfolding compact_read_def read_u8_def read_u32_def by (intro calm_intros)

lemma compact_vec_calm: "calm r \<Longrightarrow> calm (vec_read compact_vec r)"
  by (simp add: compact_vec_def calm_intros)

lemma compact_format_calm: "format_calm compact_format"
  by (simp add: format_calm_def compact_format_def compact_vec_calm calm_intros)

section \<open>Totality\<close>

text \<open>What a scan needs of the other crates: memos have 512 bytes, which always are a memo; reading the encodings of internal memos
  does not panic; deriving a refund address and encoding a tex address succeed.\<close>

definition decrypts_to_memos :: "('out, 'd, 'ivk, 'ovk, 'n) shielded_lib \<Rightarrow> bool" where
  "decrypts_to_memos lib \<longleftrightarrow>
     (\<forall>ivk outs n to bytes. Some (n, to, bytes) \<in> set (sl_try_note_decryption lib ivk outs) \<longrightarrow> length bytes = 512)"

definition scan_apis_ok :: "('so, 'sd, 'si, 'sv, 'oo, 'od, 'oi, 'ov, 'ua, 't, 'e) scan_context \<Rightarrow> bool" where
  "scan_apis_ok C \<longleftrightarrow> decrypts_to_memos (sc_sapling_lib C) \<and> decrypts_to_memos (sc_orchard_lib C) \<and>
     (\<forall>bytes. length bytes = 512 \<longrightarrow> ma_from_bytes (sc_memo_api C) bytes \<noteq> None) \<and>
     format_calm (sc_memo_format C) \<and>
     (\<forall>i. \<exists>k. sc_derive_rejection C i = Inr k) \<and>
     (\<forall>h. tl_bech32m (sc_taddr_lib C) (tl_hrp_tex_address (sc_taddr_lib C)) h \<noteq> None)"

definition no_script_hashes :: "taddr_lib \<Rightarrow> transparent_bundle option \<Rightarrow> bool" where
  "no_script_hashes T t_bundle \<longleftrightarrow>
     (\<forall>b. t_bundle = Some b \<longrightarrow> (\<forall>vout \<in> set (tb_vout b). \<forall>h. tl_recipient_address T vout \<noteq> Some (ScriptHash h)))"

lemma decrypt_to_record_total:
  assumes "scan_apis_ok C" "records_wf (tm_records tm)"
  shows "\<exists>tm' out' memos' tex'. decrypt_transaction_to_record C tx st (Some bt) (tm, out, memos, tex) =
    Some (tm', out', memos', tex')"
proof -
  obtain m tex' where m: "decrypt_transaction_to_record_transparent (taddr_recipient (sc_taddr_lib C)) (sc_taddrs C)
      (map fst (tm_rejection_addresses tm)) (scanned_tx.truncate tx) st (Some bt) tex (tm_records tm) = Some (m, tex')"
    using transparent_scan_total [OF assms(2)] by blast
  have s: "\<forall>ivk outs n to bytes. Some (n, to, bytes) \<in> set (sl_try_note_decryption (sc_sapling_lib C) ivk outs) \<longrightarrow>
      ma_from_bytes (sc_memo_api C) bytes \<noteq> None"
    and o: "\<forall>ivk outs n to bytes. Some (n, to, bytes) \<in> set (sl_try_note_decryption (sc_orchard_lib C) ivk outs) \<longrightarrow>
      ma_from_bytes (sc_memo_api C) bytes \<noteq> None"
    using assms(1) unfolding scan_apis_ok_def decrypts_to_memos_def by blast+
  have p: "\<forall>bs. parse_zingo_memo (sc_memo_format C) bs \<noteq> Rd_Panic"
    using assms(1) parse_zingo_memo_calm by (auto simp: scan_apis_ok_def calm_def)
  obtain tm1 out1 memos1 where "decrypt_transaction_to_record_sapling C tx st (Some bt) (tm\<lparr> tm_records := m \<rparr>, out, memos) =
      Some (tm1, out1, memos1)"
    unfolding decrypt_transaction_to_record_sapling_def using sapling_receipts.domain_total [OF s p] by blast
  moreover obtain tm2 out2 memos2 where "decrypt_transaction_to_record_orchard C tx st (Some bt) (tm1, out1, memos1) =
      Some (tm2, out2, memos2)"
    unfolding decrypt_transaction_to_record_orchard_def using orchard_receipts.domain_total [OF o p] by blast
  ultimately show ?thesis using m by (simp add: decrypt_transaction_to_record_def)
qed

lemma post_process_total:
  assumes "scan_apis_ok C" "no_script_hashes (sc_taddr_lib C) (sx_transparent_bundle tx)"
  shows "\<exists>out'. post_process_scan_results C tx tex m out = Some out'"
proof (cases "hm_get m (sx_txid tx)")
  case (Some r)
  obtain kind where k: "transaction_kind m r (sc_chain C) = Some kind"
    using transaction_kind_total by blast
  have "\<exists>out'. vout_loop (sc_taddr_lib C) (sc_taddrs C) tex (tb_vout b) out = Some out'"
    if "sx_transparent_bundle tx = Some b" for b
    using assms that by (intro vout_loop_total) (simp_all add: no_script_hashes_def scan_apis_ok_def)
  then show ?thesis
    by (cases kind; cases "sx_transparent_bundle tx") (simp_all add: post_process_scan_results_def Some k)
qed (simp add: post_process_scan_results_def)

lemma scan_full_tx_total:
  assumes "scan_apis_ok C" "no_script_hashes (sc_taddr_lib C) (sx_transparent_bundle tx)" "records_wf (tm_records tm)"
  shows "\<exists>tm'. scan_full_tx C tx st (Some bt) price tm = Some tm' \<and> records_wf (tm_records tm')"
proof -
  obtain tm1 out1 memos tex where d:
    "decrypt_transaction_to_record C tx st (Some bt) (tm, [], [], False) = Some (tm1, out1, memos, tex)"
    using decrypt_to_record_total [OF assms(1,3)] by blast
  have wf1: "records_wf (tm_records tm1)"
    using quiet_wf [OF decrypt_to_record_effect(1) [OF d] assms(3)] .
  have "\<exists>out. post_process_scan_results C tx tex (tm_records tm1) out1 = Some out"
    by (rule post_process_total [OF assms(1,2)])
  then obtain out where out: "post_process_scan_results C tx tex (tm_records tm1) out1 = Some out" by blast
  let ?m = "if out \<noteq> [] then add_outgoing_metadata (sx_txid tx) out (tm_records tm1) else tm_records tm1"
  have wf2: "records_wf ?m"
    using wf1 by (simp add: add_outgoing_metadata_def records_wf_modify)
  have "\<And>i. \<exists>k. sc_derive_rejection C i = Inr k" using assms(1) by (simp add: scan_apis_ok_def)
  then obtain m ks where u: "update_from_zingomemos (sc_ua_encodings C) (sc_derive_rejection C) memos
      (?m, tm_rejection_addresses tm1) = ((m, ks), Inr ())"
    using update_from_zingomemos_Inr by blast
  have "records_wf m" using update_from_zingomemos_keeps [OF u] wf2 by blast
  then have "records_wf (set_price (sx_txid tx) price m)"
    by (simp add: set_price_def records_wf_modify split: option.split)
  then show ?thesis using d out u by (simp add: scan_full_tx_def Let_def)
qed



section \<open>An example\<close>

text \<open>A transaction with two Orchard outputs: the first is change, the second pays somebody else.\<close>

definition demo_note :: "u64 \<Rightarrow> orchard_crypto_note" where
  "demo_note v = \<lparr> oc_recipient = [1], oc_value = v, oc_rho = [2], oc_rseed = [3] \<rparr>"

definition blank_memo :: "byte list" where
  "blank_memo = 0xF6 # replicate 511 0"

definition demo_orchard_lib :: "(bool, unit, unit, unit, orchard_crypto_note) shielded_lib" where
  "demo_orchard_lib = \<lparr> sl_domain = (\<lambda>_ _. ()),
     sl_try_note_decryption = (\<lambda>_ outs. map (\<lambda>(_, out). if out then Some (demo_note 40, [9], blank_memo) else None) outs),
     sl_try_output_recovery = (\<lambda>_ _ out. if out then Some (demo_note 40, ''uo'', blank_memo) else Some (demo_note 7, ''u9'', blank_memo)),
     sl_viewing = Some ((), ()) \<rparr>"

definition demo_sapling_lib :: "(bool, unit, unit, unit, sapling_crypto_note) shielded_lib" where
  "demo_sapling_lib = \<lparr> sl_domain = (\<lambda>_ _. ()), sl_try_note_decryption = (\<lambda>_ _. []),
     sl_try_output_recovery = (\<lambda>_ _ _. None), sl_viewing = None \<rparr>"

definition demo_taddr_lib :: taddr_lib where
  "demo_taddr_lib = \<lparr> tl_recipient_address = (\<lambda>_. Some (PublicKeyHash [5])), tl_sha256 = (\<lambda>bs. bs), tl_to_base58 = (\<lambda>bs. ''t9''),
     tl_pubkey_prefix = [], tl_script_prefix = [], tl_bech32m = (\<lambda>_ _. Some ''tex9''), tl_hrp_tex_address = ''tex'' \<rparr>"

definition demo_tree_ops :: "unit tree_ops" where
  "demo_tree_ops = \<lparr> st_empty = (), st_truncate = (\<lambda>_ t. t), st_checkpoint = (\<lambda>_ t. Some t), st_remove_mark = (\<lambda>_ _ t. Some t),
     st_max_checkpoint = (\<lambda>_. None), bh_sub = (\<lambda>a b. Some (a - b)), bh_add = (+) \<rparr>"

definition demo_scan_context ::
  "(bool, unit, unit, unit, bool, unit, unit, unit, receiver list, unit, unit) scan_context" where
  "demo_scan_context = \<lparr> sc_chain = Mainnet, sc_taddr_lib = demo_taddr_lib, sc_memo_api = example_memo_api,
     sc_memo_format = compact_format, sc_ua_encodings = example_ua_encodings, sc_addresses = [[]], sc_taddrs = [''t1''],
     sc_tree_ops = demo_tree_ops, sc_sapling_lib = demo_sapling_lib, sc_orchard_lib = demo_orchard_lib,
     sc_derive_rejection = (\<lambda>i. Inr (''t'', i)) \<rparr>"

definition demo_full_tx :: "(bool, bool) full_tx" where
  "demo_full_tx = \<lparr> sx_txid = [4], sx_transparent_bundle = None, sx_sapling_bundle = None,
     sx_orchard_bundle = Some \<lparr> sb_output_elements = [True, False], sb_spend_nullifiers = [] \<rparr> \<rparr>"

definition demo_empty_map :: "unit tx_map" where
  "demo_empty_map = \<lparr> tm_records = [], tm_spending_data = None, tm_transparent_child_addresses = [], tm_rejection_addresses = [] \<rparr>"

lemma length_blank_memo [simp]: "length blank_memo = 512"
  by (simp add: blank_memo_def)

lemma demo_apis_ok: "scan_apis_ok demo_scan_context"
  by (auto simp: scan_apis_ok_def demo_scan_context_def decrypts_to_memos_def demo_taddr_lib_def demo_sapling_lib_def demo_orchard_lib_def
      compact_format_calm example_memo_api_def split: if_splits)




end
