(* ===== verification/Batch_Runners.thy ===== *)
theory Batch_Runners
  imports Block_Management
begin

text \<open>
  Trial decryption in batches: \<open>zingo-sync/src/scan/runners.rs\<close> and the scanning keys of
  \<open>zingo-sync/src/keys.rs\<close>.

  The outputs of many transactions are gathered into one batch, and every output carries a replier:
  its index in its transaction and the sending end of the channel of that transaction. A channel is
  a number here, and \<open>br_delivered\<close> holds what has been sent over all channels. A batch runs on a thread
  pool once it is handed over; nothing is read from a channel before all its senders are gone, so
  it is run at that moment. The parsing and the decryption of outputs belong to other crates
  and are arguments. A result \<open>None\<close> is a panic, or a wait that never ends.
\<close>

section \<open>Keys\<close>

datatype key_scope = ExternalScope | InternalScope

type_synonym key_id = "u32 \<times> key_scope"

record ('ivk, 'nk) scanning_key =
  sk_key_id :: key_id
  sk_ivk :: 'ivk
  sk_nk :: "'nk option"

text \<open>\<open>ufvk.sapling()\<close> and \<open>ufvk.orchard()\<close> are optional; a key of a pool gives an incoming viewing key
  and a nullifier key for each scope.\<close>

type_synonym ('ivk, 'nk) pool_fvk = "(key_scope \<Rightarrow> 'ivk) \<times> (key_scope \<Rightarrow> 'nk)"

definition insert_scopes ::
  "u32 \<Rightarrow> ('ivk, 'nk) pool_fvk option \<Rightarrow> (key_id, ('ivk, 'nk) scanning_key) hash_map \<Rightarrow>
   (key_id, ('ivk, 'nk) scanning_key) hash_map" where
  "insert_scopes account_id fvk m =
     (case fvk of
        None \<Rightarrow> m
      | Some (to_ivk, to_nk) \<Rightarrow>
          foldl (\<lambda>m scope. hm_insert (account_id, scope)
                   \<lparr> sk_key_id = (account_id, scope), sk_ivk = to_ivk scope, sk_nk = Some (to_nk scope) \<rparr> m)
            m [ExternalScope, InternalScope])"

record ('si, 'sk, 'oi, 'ok) scanning_keys =
  sks_sapling :: "(key_id, ('si, 'sk) scanning_key) hash_map"
  sks_orchard :: "(key_id, ('oi, 'ok) scanning_key) hash_map"

definition from_account_ufvks ::
  "(u32 \<times> ('si, 'sk) pool_fvk option \<times> ('oi, 'ok) pool_fvk option) list \<Rightarrow>
   ('si, 'sk, 'oi, 'ok) scanning_keys" where
  "from_account_ufvks ufvks =
     foldl (\<lambda>keys (account_id, sapling, orchard).
              \<lparr> sks_sapling = insert_scopes account_id sapling (sks_sapling keys),
                sks_orchard = insert_scopes account_id orchard (sks_orchard keys) \<rparr>)
       \<lparr> sks_sapling = [], sks_orchard = [] \<rparr> ufvks"

section \<open>Batches\<close>

record output_id =
  oi_txid :: txid
  oi_output_index :: nat

record ('n, 'r) decrypted_output =
  dec_ivk_tag :: key_id
  dec_recipient :: 'r
  dec_note :: 'n
  dec_memo :: unit

type_synonym ('ivk, 'd, 'o, 'n, 'r) trial_decryption =
  "'ivk list \<Rightarrow> ('d \<times> 'o) list \<Rightarrow> (('n \<times> 'r) \<times> nat) option list"

text \<open>\<open>tags[ivk_idx]\<close> panics when the index is out of range.\<close>

definition tag_result ::
  "key_id list \<Rightarrow> (('n \<times> 'r) \<times> nat) option \<Rightarrow> ('n, 'r) decrypted_output option option" where
  "tag_result tags res =
     (case res of
        None \<Rightarrow> Some None
      | Some ((n, recipient), ivk_idx) \<Rightarrow>
          if ivk_idx < length tags
          then Some (Some \<lparr> dec_ivk_tag = tags ! ivk_idx, dec_recipient = recipient, dec_note = n,
                            dec_memo = () \<rparr>)
          else None)"

definition batch_decrypt ::
  "('ivk, 'd, 'o, 'n, 'r) trial_decryption \<Rightarrow> key_id list \<Rightarrow> 'ivk list \<Rightarrow> ('d \<times> 'o) list \<Rightarrow>
   ('n, 'r) decrypted_output option list option" where
  "batch_decrypt try_decrypt tags ivks outs = those (map (tag_result tags) (try_decrypt ivks outs))"

type_synonym replier = "nat \<times> nat"

record ('ivk, 'd, 'o) batch =
  ba_tags :: "key_id list"
  ba_ivks :: "'ivk list"
  ba_outputs :: "('d \<times> 'o) list"
  ba_repliers :: "replier list"

definition batch_new :: "key_id list \<Rightarrow> 'ivk list \<Rightarrow> ('ivk, 'd, 'o) batch option" where
  "batch_new tags ivks =
     (if length tags = length ivks
      then Some \<lparr> ba_tags = tags, ba_ivks = ivks, ba_outputs = [], ba_repliers = [] \<rparr> else None)"

definition batch_is_empty :: "('ivk, 'd, 'o) batch \<Rightarrow> bool" where
  "batch_is_empty b \<longleftrightarrow> ba_outputs b = []"

definition batch_add_outputs ::
  "('o \<Rightarrow> 'd) \<Rightarrow> 'o list \<Rightarrow> nat \<Rightarrow> ('ivk, 'd, 'o) batch \<Rightarrow> ('ivk, 'd, 'o) batch" where
  "batch_add_outputs domain outs channel b = b\<lparr>
     ba_outputs := ba_outputs b @ map (\<lambda>x. (domain x, x)) outs,
     ba_repliers := ba_repliers b @ map (\<lambda>i. (i, channel)) [0..<length outs] \<rparr>"

text \<open>What a run of the batch sends: channel, output index and value. Sending to a channel whose receiver
  is gone ends the loop.\<close>

type_synonym ('n, 'r) delivery = "nat \<times> nat \<times> ('n, 'r) decrypted_output"

fun send_results ::
  "(nat \<Rightarrow> bool) \<Rightarrow> (('n, 'r) decrypted_output option \<times> replier) list \<Rightarrow> ('n, 'r) delivery list" where
  "send_results alive [] = []"
| "send_results alive ((None, _) # rest) = send_results alive rest"
| "send_results alive ((Some v, (i, channel)) # rest) =
     (if alive channel then (channel, i, v) # send_results alive rest else [])"

definition batch_run ::
  "('ivk, 'd, 'o, 'n, 'r) trial_decryption \<Rightarrow> (nat \<Rightarrow> bool) \<Rightarrow> ('ivk, 'd, 'o) batch \<Rightarrow>
   ('n, 'r) delivery list option" where
  "batch_run try_decrypt alive b =
     (if length (ba_outputs b) = length (ba_repliers b)
      then map_option (\<lambda>decryption_results. send_results alive (zip decryption_results (ba_repliers b)))
             (batch_decrypt try_decrypt (ba_tags b) (ba_ivks b) (ba_outputs b))
      else None)"

section \<open>The runner\<close>

type_synonym result_key = "byte list \<times> txid"

record ('ivk, 'd, 'o, 'n, 'r) batch_runner =
  br_batch_size_threshold :: nat
  br_acc :: "('ivk, 'd, 'o) batch"
  br_delivered :: "('n, 'r) delivery list"
  br_pending_results :: "(result_key, nat) hash_map"
  br_next_channel :: nat

definition runner_new ::
  "nat \<Rightarrow> (key_id \<times> 'ivk) list \<Rightarrow> ('ivk, 'd, 'o, 'n, 'r) batch_runner option" where
  "runner_new batch_size_threshold ivks =
     map_option (\<lambda>acc. \<lparr> br_batch_size_threshold = batch_size_threshold, br_acc = acc,
                         br_delivered = [], br_pending_results = [], br_next_channel = 0 \<rparr>)
       (batch_new (map fst ivks) (map snd ivks))"

definition runner_flush ::
  "('ivk, 'd, 'o, 'n, 'r) trial_decryption \<Rightarrow> ('ivk, 'd, 'o, 'n, 'r) batch_runner \<Rightarrow>
   ('ivk, 'd, 'o, 'n, 'r) batch_runner option" where
  "runner_flush try_decrypt rn =
     (if batch_is_empty (br_acc rn) then Some rn
      else case batch_new (ba_tags (br_acc rn)) (ba_ivks (br_acc rn)) of
        None \<Rightarrow> None
      | Some batch \<Rightarrow>
          map_option (\<lambda>sent. rn\<lparr> br_acc := batch, br_delivered := br_delivered rn @ sent \<rparr>)
            (batch_run try_decrypt (\<lambda>ch. ch \<in> snd ` set (br_pending_results rn)) (br_acc rn)))"

definition runner_add_outputs ::
  "('ivk, 'd, 'o, 'n, 'r) trial_decryption \<Rightarrow> byte list \<Rightarrow> txid \<Rightarrow> ('o \<Rightarrow> 'd) \<Rightarrow> 'o list \<Rightarrow>
   ('ivk, 'd, 'o, 'n, 'r) batch_runner \<Rightarrow> ('ivk, 'd, 'o, 'n, 'r) batch_runner option" where
  "runner_add_outputs try_decrypt block_tag txid domain outs rn =
     (let channel = br_next_channel rn;
          rn = rn\<lparr> br_next_channel := Suc channel,
                   br_acc := batch_add_outputs domain outs channel (br_acc rn),
                   br_pending_results := hm_insert (block_tag, txid) channel (br_pending_results rn) \<rparr>
      in if length (ba_outputs (br_acc rn)) \<ge> br_batch_size_threshold rn
         then runner_flush try_decrypt rn else Some rn)"

text \<open>Reading a channel ends once every sender is dropped: with a replier of it still waiting in the
  accumulated batch it never ends.\<close>

definition collect_results ::
  "byte list \<Rightarrow> txid \<Rightarrow> ('ivk, 'd, 'o, 'n, 'r) batch_runner \<Rightarrow>
   (('ivk, 'd, 'o, 'n, 'r) batch_runner \<times> (output_id, ('n, 'r) decrypted_output) hash_map) option" where
  "collect_results block_tag txid rn =
     (case hm_get (br_pending_results rn) (block_tag, txid) of
        None \<Rightarrow> Some (rn, [])
      | Some channel \<Rightarrow>
          if channel \<in> snd ` set (ba_repliers (br_acc rn)) then None
          else Some (rn\<lparr> br_pending_results := hm_remove (block_tag, txid) (br_pending_results rn) \<rparr>,
                     fold (\<lambda>(_, i, v). hm_insert \<lparr> oi_txid = txid, oi_output_index = i \<rparr> v)
                       (filter (\<lambda>d. fst d = channel) (br_delivered rn)) []))"

section \<open>Batched decryption as decryption output by output\<close>

definition decrypts_singly ::
  "('ivk, 'd, 'o, 'n, 'r) trial_decryption \<Rightarrow> ('ivk list \<Rightarrow> 'd \<times> 'o \<Rightarrow> (('n \<times> 'r) \<times> nat) option) \<Rightarrow> bool" where
  "decrypts_singly try_decrypt single \<longleftrightarrow>
     (\<forall>ivks outs. try_decrypt ivks outs = map (single ivks) outs) \<and>
     (\<forall>ivks out v i. single ivks out = Some (v, i) \<longrightarrow> i < length ivks)"

definition decrypt_one ::
  "('ivk list \<Rightarrow> 'd \<times> 'o \<Rightarrow> (('n \<times> 'r) \<times> nat) option) \<Rightarrow> (key_id \<times> 'ivk) list \<Rightarrow> 'd \<times> 'o \<Rightarrow>
   ('n, 'r) decrypted_output option" where
  "decrypt_one single keys out =
     map_option (\<lambda>((n, recipient), i). \<lparr> dec_ivk_tag = fst (keys ! i), dec_recipient = recipient, dec_note = n,
         dec_memo = () \<rparr>) (single (map snd keys) out)"

fun deliveries ::
  "('x \<Rightarrow> ('n, 'r) decrypted_output option) \<Rightarrow> nat \<Rightarrow> nat \<Rightarrow> 'x list \<Rightarrow> ('n, 'r) delivery list" where
  "deliveries one channel i [] = []"
| "deliveries one channel i (x # xs) =
     (case one x of None \<Rightarrow> [] | Some v \<Rightarrow> [(channel, i, v)]) @ deliveries one channel (Suc i) xs"

definition waiting_deliveries ::
  "('x \<Rightarrow> ('n, 'r) decrypted_output option) \<Rightarrow> ('x \<times> replier) list \<Rightarrow> ('n, 'r) delivery list" where
  "waiting_deliveries one xs =
     List.map_filter (\<lambda>(x, (i, channel)). map_option (\<lambda>v. (channel, i, v)) (one x)) xs"

lemma waiting_deliveries_append [simp]:
  "waiting_deliveries one (xs @ ys) = waiting_deliveries one xs @ waiting_deliveries one ys"
  by (simp add: waiting_deliveries_def List.map_filter_def)

lemma waiting_deliveries_new:
  "waiting_deliveries one (zip xs (map (\<lambda>i. (i, channel)) [k..<k + length xs])) = deliveries one channel k xs"
proof (induction xs arbitrary: k)
  case (Cons x xs)
  have "[k..<k + length (x # xs)] = k # [Suc k..<Suc k + length xs]" by (simp add: upt_rec)
  with Cons [of "Suc k"] show ?case
    by (auto simp: waiting_deliveries_def List.map_filter_simps split: option.splits simp del: upt_Suc)
qed (simp add: waiting_deliveries_def List.map_filter_simps)

lemma send_results_alive:
  assumes "\<forall>(i, channel) \<in> set repliers. alive channel" "length xs = length repliers"
  shows "send_results alive (zip (map one xs) repliers) = waiting_deliveries one (zip xs repliers)"
  using assms(2,1)
  by (induction xs repliers rule: list_induct2)
     (auto simp: waiting_deliveries_def List.map_filter_simps split: option.splits)

lemma batch_decrypt_singly:
  assumes "decrypts_singly try_decrypt single"
  shows "batch_decrypt try_decrypt (map fst keys) (map snd keys) outs = Some (map (decrypt_one single keys) outs)"
proof -
  have "tag_result (map fst keys) (single (map snd keys) out) = Some (decrypt_one single keys out)" for out
  proof (cases "single (map snd keys) out")
    case None
    then show ?thesis by (simp add: tag_result_def decrypt_one_def)
  next
    case (Some v)
    then obtain n recipient i where v: "single (map snd keys) out = Some ((n, recipient), i)"
      by (cases v) auto
    with assms have "i < length keys" unfolding decrypts_singly_def by fastforce
    with v show ?thesis by (simp add: tag_result_def decrypt_one_def)
  qed
  with assms show ?thesis by (simp add: batch_decrypt_def decrypts_singly_def those_map_Some comp_def)
qed

text \<open>The invariant while outputs are added: \<open>added\<close> lists the result keys, the channels and the outputs so
  far.\<close>

type_synonym 'x added = "(result_key \<times> nat \<times> 'x list) list"

definition runner_inv ::
  "('ivk list \<Rightarrow> 'd \<times> 'o \<Rightarrow> (('n \<times> 'r) \<times> nat) option) \<Rightarrow> (key_id \<times> 'ivk) list \<Rightarrow> ('d \<times> 'o) added \<Rightarrow>
   ('ivk, 'd, 'o, 'n, 'r) batch_runner \<Rightarrow> bool" where
  "runner_inv single keys added rn \<longleftrightarrow>
     ba_tags (br_acc rn) = map fst keys \<and> ba_ivks (br_acc rn) = map snd keys \<and>
     length (ba_outputs (br_acc rn)) = length (ba_repliers (br_acc rn)) \<and>
     (\<forall>(i, channel) \<in> set (ba_repliers (br_acc rn)). channel \<in> (fst \<circ> snd) ` set added) \<and>
     br_delivered rn @ waiting_deliveries (decrypt_one single keys)
       (zip (ba_outputs (br_acc rn)) (ba_repliers (br_acc rn))) =
       concat (map (\<lambda>(_, channel, outs). deliveries (decrypt_one single keys) channel 0 outs) added) \<and>
     br_pending_results rn = map (\<lambda>(key, channel, _). (key, channel)) added \<and>
     (\<forall>(_, channel, _) \<in> set added. channel < br_next_channel rn) \<and>
     distinct (map fst added) \<and> distinct (map (fst \<circ> snd) added)"

lemma runner_new_inv:
  "\<exists>rn. runner_new threshold keys = Some rn \<and> runner_inv single keys [] rn \<and> br_batch_size_threshold rn = threshold"
  by (auto simp: runner_new_def batch_new_def runner_inv_def waiting_deliveries_def List.map_filter_simps)

lemma runner_flush_inv:
  assumes "decrypts_singly try_decrypt single" "runner_inv single keys added rn"
  shows "\<exists>rn'. runner_flush try_decrypt rn = Some rn' \<and> runner_inv single keys added rn' \<and>
    ba_outputs (br_acc rn') = []"
proof (cases "batch_is_empty (br_acc rn)")
  case True
  with assms show ?thesis by (auto simp: runner_flush_def batch_is_empty_def)
next
  case False
  let ?acc = "br_acc rn" and ?one = "decrypt_one single keys"
  have acc: "ba_tags ?acc = map fst keys" "ba_ivks ?acc = map snd keys"
    "length (ba_outputs ?acc) = length (ba_repliers ?acc)"
    using assms(2) by (simp_all add: runner_inv_def)
  have alive: "\<forall>(i, channel) \<in> set (ba_repliers ?acc). channel \<in> snd ` set (br_pending_results rn)"
  proof -
    have "snd ` set (br_pending_results rn) = (fst \<circ> snd) ` set added"
      using assms(2) by (simp add: runner_inv_def image_image split_beta comp_def)
    with assms(2) show ?thesis by (simp add: runner_inv_def)
  qed
  have "batch_run try_decrypt (\<lambda>ch. ch \<in> snd ` set (br_pending_results rn)) ?acc =
      Some (waiting_deliveries ?one (zip (ba_outputs ?acc) (ba_repliers ?acc)))"
    using send_results_alive [OF alive acc(3), of ?one]
    by (simp add: batch_run_def acc batch_decrypt_singly [OF assms(1)])
  then have "runner_flush try_decrypt rn = Some (rn\<lparr>
      br_acc := \<lparr> ba_tags = map fst keys, ba_ivks = map snd keys, ba_outputs = [], ba_repliers = [] \<rparr>,
      br_delivered := br_delivered rn @ waiting_deliveries ?one (zip (ba_outputs ?acc) (ba_repliers ?acc)) \<rparr>)"
    using False acc by (simp add: runner_flush_def batch_new_def)
  with assms(2) show ?thesis
    by (auto simp: runner_inv_def waiting_deliveries_def List.map_filter_simps)
qed

lemma runner_add_outputs_inv:
  assumes "decrypts_singly try_decrypt single" "runner_inv single keys added rn"
    and new: "(block_tag, txid) \<notin> fst ` set added"
  shows "\<exists>rn'. runner_add_outputs try_decrypt block_tag txid domain outs rn = Some rn' \<and>
    runner_inv single keys (added @ [((block_tag, txid), br_next_channel rn, map (\<lambda>x. (domain x, x)) outs)]) rn'"
proof -
  let ?ch = "br_next_channel rn" and ?xs = "map (\<lambda>x. (domain x, x)) outs"
  let ?added = "added @ [((block_tag, txid), ?ch, ?xs)]"
  let ?rn = "rn\<lparr> br_next_channel := Suc ?ch, br_acc := batch_add_outputs domain outs ?ch (br_acc rn),
     br_pending_results := hm_insert (block_tag, txid) ?ch (br_pending_results rn) \<rparr>"
  have insert: "hm_insert k v m = m @ [(k, v)]" if "k \<notin> fst ` set m" for k v and m :: "(result_key, nat) hash_map"
    using that by (induction m) (auto simp: hm_insert_def)
  have "runner_inv single keys ?added ?rn"
    using assms(2) new waiting_deliveries_new [of "decrypt_one single keys" ?xs ?ch 0]
    by (auto simp: runner_inv_def batch_add_outputs_def insert image_iff split_beta)
  from this runner_flush_inv [OF assms(1) this] show ?thesis
    by (auto simp: runner_add_outputs_def Let_def)
qed

text \<open>After the last flush every channel holds what its outputs decrypt to; \<open>left\<close> are the keys not yet
  collected.\<close>

definition runner_ready ::
  "('ivk list \<Rightarrow> 'd \<times> 'o \<Rightarrow> (('n \<times> 'r) \<times> nat) option) \<Rightarrow> (key_id \<times> 'ivk) list \<Rightarrow> ('d \<times> 'o) added \<Rightarrow>
   result_key set \<Rightarrow> ('ivk, 'd, 'o, 'n, 'r) batch_runner \<Rightarrow> bool" where
  "runner_ready single keys added left rn \<longleftrightarrow> ba_repliers (br_acc rn) = [] \<and>
     br_delivered rn =
       concat (map (\<lambda>(_, channel, outs). deliveries (decrypt_one single keys) channel 0 outs) added) \<and>
     distinct (map fst added) \<and> distinct (map (fst \<circ> snd) added) \<and>
     (\<forall>(key, channel, _) \<in> set added. key \<in> left \<longrightarrow> hm_get (br_pending_results rn) key = Some channel)"

lemma runner_inv_ready:
  assumes "runner_inv single keys added rn" "ba_outputs (br_acc rn) = []"
  shows "runner_ready single keys added UNIV rn"
proof -
  have "hm_get (map (\<lambda>(key, channel, _). (key, channel)) added) key = Some channel"
    if "(key, channel, outs) \<in> set added" "distinct (map fst added)" for key channel outs
    using that by (intro map_of_is_SomeI) (force simp: comp_def split_beta)+
  with assms show ?thesis
    by (auto simp: runner_ready_def runner_inv_def waiting_deliveries_def List.map_filter_simps)
qed

lemma deliveries_filter:
  "filter (\<lambda>d. fst d = channel) (deliveries one channel' k xs) =
   (if channel' = channel then deliveries one channel k xs else [])"
  by (induction xs arbitrary: k) (auto split: option.splits)

lemma concat_deliveries_filter:
  assumes "distinct (map (fst \<circ> snd) added)" "(key, channel, outs) \<in> set added"
  shows "filter (\<lambda>d. fst d = channel)
      (concat (map (\<lambda>(_, channel, outs). deliveries one channel 0 outs) added)) = deliveries one channel 0 outs"
  using assms
proof (induction added)
  case (Cons x added)
  have none: "filter (\<lambda>d. fst d = channel)
      (concat (map (\<lambda>(_, channel, outs). deliveries one channel 0 outs) added)) = []"
    if "channel \<notin> (fst \<circ> snd) ` set added" for added :: "('a \<times> nat \<times> 'b list) list"
    using that by (induction added) (auto simp: deliveries_filter)
  show ?case
  proof (cases "x = (key, channel, outs)")
    case True
    with Cons.prems none [of added] show ?thesis by (simp add: deliveries_filter)
  next
    case False
    with Cons.prems have "(key, channel, outs) \<in> set added" by simp
    moreover from this Cons.prems(1) have "fst (snd x) \<noteq> channel" by (force simp: image_iff)
    ultimately show ?thesis using Cons by (cases x) (simp add: deliveries_filter)
  qed
qed simp

lemma hm_insert_fresh: "k \<notin> fst ` set m \<Longrightarrow> hm_insert k v m = m @ [(k, v)]"
  by (induction m) (auto simp: hm_insert_def)

definition incoming_of ::
  "('x \<Rightarrow> ('n, 'r) decrypted_output option) \<Rightarrow> txid \<Rightarrow> nat \<Rightarrow> 'x list \<Rightarrow>
   (output_id, ('n, 'r) decrypted_output) hash_map" where
  "incoming_of one txid k xs =
     map (\<lambda>(_, i, v). (\<lparr> oi_txid = txid, oi_output_index = i \<rparr>, v)) (deliveries one 0 k xs)"

lemma deliveries_index: "(ch, i, v) \<in> set (deliveries one c k xs) \<Longrightarrow> k \<le> i \<and> i < k + length xs \<and> one (xs ! (i - k)) = Some v"
proof (induction xs arbitrary: k)
  case (Cons x xs)
  show ?case
  proof (cases "(ch, i, v) \<in> set (deliveries one c (Suc k) xs)")
    case True
    from Cons.IH [OF this] have "Suc k \<le> i" "i < Suc k + length xs" "one (xs ! (i - Suc k)) = Some v" by auto
    moreover from this have "i - k = Suc (i - Suc k)" by simp
    ultimately show ?thesis by simp
  next
    case False
    with Cons.prems show ?thesis by (auto split: option.splits)
  qed
qed simp

lemma deliveries_complete:
  "i < length xs \<Longrightarrow> one (xs ! i) = Some v \<Longrightarrow> (c, k + i, v) \<in> set (deliveries one c k xs)"
proof (induction xs arbitrary: i k)
  case (Cons x xs)
  then show ?case
  proof (cases i)
    case (Suc j)
    with Cons.prems Cons.IH [of j "Suc k"] show ?thesis by simp
  qed simp
qed simp

lemma incoming_fold:
  assumes "\<forall>p \<in> set m. oi_output_index (fst p) < k"
  shows "fold (\<lambda>(_, i, v). hm_insert \<lparr> oi_txid = txid, oi_output_index = i \<rparr> v) (deliveries one c k xs) m =
    m @ incoming_of one txid k xs"
  using assms
proof (induction xs arbitrary: k m)
  case Nil
  then show ?case by (simp add: incoming_of_def)
next
  case (Cons x xs)
  show ?case
  proof (cases "one x")
    case None
    with Cons.IH [of m "Suc k"] Cons.prems show ?thesis by (fastforce simp: incoming_of_def)
  next
    case (Some v)
    let ?id = "\<lparr> oi_txid = txid, oi_output_index = k \<rparr>"
    have "?id \<notin> fst ` set m" using Cons.prems by force
    then have "hm_insert ?id v m = m @ [(?id, v)]" by (rule hm_insert_fresh)
    with Some Cons.IH [of "m @ [(?id, v)]" "Suc k"] Cons.prems show ?thesis
      by (fastforce simp: incoming_of_def)
  qed
qed

lemma collect_ready:
  assumes "runner_ready single keys added left rn" "((tag, txid), channel, outs) \<in> set added" "(tag, txid) \<in> left"
  shows "\<exists>rn'. collect_results tag txid rn = Some (rn', incoming_of (decrypt_one single keys) txid 0 outs) \<and>
    runner_ready single keys added (left - {(tag, txid)}) rn'"
proof -
  have "hm_get (br_pending_results rn) (tag, txid) = Some channel"
    using assms by (fastforce simp: runner_ready_def)
  moreover have "filter (\<lambda>d. fst d = channel) (br_delivered rn) =
      deliveries (decrypt_one single keys) channel 0 outs"
    using assms concat_deliveries_filter by (fastforce simp: runner_ready_def)
  moreover have "fold (\<lambda>(_, i, v). hm_insert \<lparr> oi_txid = txid, oi_output_index = i \<rparr> v)
      (deliveries (decrypt_one single keys) channel 0 outs) [] = incoming_of (decrypt_one single keys) txid 0 outs"
    using incoming_fold [of "[]" 0 txid] by simp
  ultimately show ?thesis using assms(1)
    by (auto simp: collect_results_def runner_ready_def hm_simps)
qed

lemma incoming_indices:
  "i \<in> (\<lambda>(output_id, _). oi_output_index output_id) ` set (incoming_of one txid 0 xs) \<longleftrightarrow>
   i < length xs \<and> one (xs ! i) \<noteq> None"
  using deliveries_complete [of i xs one _ 0 0]
  by (force simp: incoming_of_def image_iff dest: deliveries_index)

lemma incoming_distinct: "hm_wf (incoming_of one txid k xs)"
proof (induction xs arbitrary: k)
  case (Cons x xs)
  have "\<lparr> oi_txid = txid, oi_output_index = k \<rparr> \<notin> fst ` set (incoming_of one txid (Suc k) xs)"
    using deliveries_index [of _ _ _ one 0 "Suc k" xs] by (fastforce simp: incoming_of_def)
  with Cons [of "Suc k"] show ?case
    by (auto simp: incoming_of_def hm_wf_def split: option.splits dest: deliveries_index)
qed (simp add: incoming_of_def hm_wf_def)

lemma incoming_get:
  "hm_get (incoming_of one txid 0 xs) oid =
   (if oi_txid oid = txid \<and> oi_output_index oid < length xs then one (xs ! oi_output_index oid) else None)"
proof (cases "hm_get (incoming_of one txid 0 xs) oid")
  case None
  have "one (xs ! oi_output_index oid) = None" if id: "oi_txid oid = txid" and i: "oi_output_index oid < length xs"
  proof (rule ccontr)
    assume "one (xs ! oi_output_index oid) \<noteq> None"
    then obtain v where v: "one (xs ! oi_output_index oid) = Some v" by blast
    from deliveries_complete [of "oi_output_index oid" xs one v 0 0, OF i v] have "(0, oi_output_index oid, v) \<in> set (deliveries one 0 0 xs)"
      by simp
    then have "(oid, v) \<in> set (incoming_of one txid 0 xs)"
      using id by (cases oid) (force simp: incoming_of_def)
    with None show False by (force simp: map_of_eq_None_iff)
  qed
  with None show ?thesis by simp
next
  case (Some v)
  then have "(oid, v) \<in> set (incoming_of one txid 0 xs)" by (rule map_of_SomeD)
  then obtain i where "(0, i, v) \<in> set (deliveries one 0 0 xs) \<or> (\<exists>c. (c, i, v) \<in> set (deliveries one 0 0 xs))"
      "oid = \<lparr> oi_txid = txid, oi_output_index = i \<rparr>" by (auto simp: incoming_of_def)
  with Some show ?thesis by (auto dest: deliveries_index)
qed

end
