(* ===== verification/Compact_Scan.thy ===== *)
theory Compact_Scan
  imports Batch_Runners "HOL-Library.Monad_Syntax"
begin

text \<open>
  The scan of a range of compact blocks: \<open>zingo-sync/src/scan.rs\<close>, with the data it fills from
  \<open>zingo-sync/src/primitives.rs\<close> and \<open>zingo-sync/src/witness.rs\<close>.

  What other crates compute of a block, an output or a key is a field of \<open>compact_lib\<close> and \<open>pool_lib\<close>;
  both pools share the type variables of the objects these functions exchange. A result \<open>None\<close> is a
  panic. Tree sizes are \<open>u32\<close> values that wrap, as in a release build. Ordered maps are HOL maps.
\<close>

section \<open>Data\<close>

record chain_metadata =
  cm_sapling_commitment_tree_size :: u32
  cm_orchard_commitment_tree_size :: u32

record scan_block = compact_block +
  cb_chain_metadata :: "chain_metadata option"

record wallet_block =
  wb_block_height :: block_height
  wb_block_hash :: "byte list"
  wb_prev_hash :: "byte list"
  wb_time :: u32
  wb_txids :: "txid list"
  wb_sapling_commitment_tree_size :: u32
  wb_orchard_commitment_tree_size :: u32

record nullifier_map =
  nm_sapling :: "nullifier \<rightharpoonup> block_height \<times> txid"
  nm_orchard :: "nullifier \<rightharpoonup> block_height \<times> txid"

definition new_nullifier_map :: nullifier_map where
  "new_nullifier_map = \<lparr> nm_sapling = Map.empty, nm_orchard = Map.empty \<rparr>"

datatype marking = MarkingNone | MarkingMarked

datatype retention = Ephemeral | Marked | RetainCheckpoint block_height marking

record 'l shard_tree_data =
  st_sapling_initial_position :: u64
  st_orchard_initial_position :: u64
  st_sapling_leaves_and_retentions :: "('l \<times> retention) list"
  st_orchard_leaves_and_retentions :: "('l \<times> retention) list"

definition new_shard_tree_data :: "u64 \<Rightarrow> u64 \<Rightarrow> 'l shard_tree_data" where
  "new_shard_tree_data sapling_initial_position orchard_initial_position =
     \<lparr> st_sapling_initial_position = sapling_initial_position,
       st_orchard_initial_position = orchard_initial_position,
       st_sapling_leaves_and_retentions = [], st_orchard_leaves_and_retentions = [] \<rparr>"

record decrypted_note_data =
  dn_sapling_nullifiers_and_positions :: "output_id \<rightharpoonup> nullifier \<times> u64"
  dn_orchard_nullifiers_and_positions :: "output_id \<rightharpoonup> nullifier \<times> u64"

definition new_decrypted_note_data :: decrypted_note_data where
  "new_decrypted_note_data =
     \<lparr> dn_sapling_nullifiers_and_positions = Map.empty, dn_orchard_nullifiers_and_positions = Map.empty \<rparr>"

record 'l scan_data =
  sd_nullifiers :: nullifier_map
  sd_wallet_blocks :: "block_height \<rightharpoonup> wallet_block"
  sd_relevent_txids :: "txid set"
  sd_decrypted_note_data :: decrypted_note_data
  sd_shard_tree_data :: "'l shard_tree_data"

record 'l scan_results =
  sr_nullifiers :: nullifier_map
  sr_wallet_blocks :: "block_height \<rightharpoonup> wallet_block"
  sr_shard_tree_data :: "'l shard_tree_data"

section \<open>Code of other crates\<close>

record ('raw, 'o, 'd, 'i, 'n, 'r, 'k, 'l) pool_lib =
  pl_parse :: "'raw \<Rightarrow> 'o option"
  pl_domain :: "block_height \<Rightarrow> 'o \<Rightarrow> 'd"
  pl_try_decrypt :: "('i, 'd, 'o, 'n, 'r) trial_decryption"
  pl_leaf :: "'o \<Rightarrow> 'l"
  pl_note_nf :: "'k \<Rightarrow> 'n \<Rightarrow> u64 \<Rightarrow> nullifier"
  pl_nullifier :: "byte list \<Rightarrow> nullifier option"

record ('o, 'd, 'i, 'n, 'r, 'k, 'l) compact_lib =
  cl_height :: "scan_block \<Rightarrow> block_height"
  cl_hash :: "scan_block \<Rightarrow> byte list"
  cl_prev_hash :: "scan_block \<Rightarrow> byte list"
  cl_txid :: "compact_tx \<Rightarrow> txid"
  cl_sapling :: "(compact_output, 'o, 'd, 'i, 'n, 'r, 'k, 'l) pool_lib"
  cl_orchard :: "(compact_action, 'o, 'd, 'i, 'n, 'r, 'k, 'l) pool_lib"

section \<open>Initial scan data\<close>

record initial_scan_data =
  is_previous_block :: "wallet_block option"
  is_sapling_initial_tree_size :: u32
  is_orchard_initial_tree_size :: u32

definition u32_try_from :: "nat \<Rightarrow> u32 option" where
  "u32_try_from n = (if n < 2 ^ 32 then Some (word_of_nat n) else None)"

definition checked_sub :: "u32 \<Rightarrow> u32 \<Rightarrow> u32 option" where
  "checked_sub a b = (if b \<le> a then Some (a - b) else None)"

text \<open>\<open>frontiers\<close> gives the sizes of the two trees after the block of a height, from the server.\<close>

definition initial_scan_data_new ::
  "('o, 'd, 'i, 'n, 'r, 'k, 'l) compact_lib \<Rightarrow> (block_height \<Rightarrow> u64 \<times> u64) \<Rightarrow> block_height \<Rightarrow>
   scan_block \<Rightarrow> wallet_block option \<Rightarrow> initial_scan_data option" where
  "initial_scan_data_new L frontiers sapling_activation first_block previous_wallet_block =
     map_option (\<lambda>(sapling, orchard). \<lparr> is_previous_block = previous_wallet_block,
         is_sapling_initial_tree_size = sapling, is_orchard_initial_tree_size = orchard \<rparr>)
       (case previous_wallet_block of
          Some prev \<Rightarrow>
            Some (wb_sapling_commitment_tree_size prev, wb_orchard_commitment_tree_size prev)
        | None \<Rightarrow>
            (case cb_chain_metadata first_block of
               Some chain_metadata \<Rightarrow> do {
                 sapling_output_count \<leftarrow>
                   u32_try_from (sum_list (map (\<lambda>tx. length (ct_outputs tx)) (cb_vtx first_block)));
                 orchard_output_count \<leftarrow>
                   u32_try_from (sum_list (map (\<lambda>tx. length (ct_actions tx)) (cb_vtx first_block)));
                 sapling \<leftarrow> checked_sub (cm_sapling_commitment_tree_size chain_metadata) sapling_output_count;
                 orchard \<leftarrow> checked_sub (cm_orchard_commitment_tree_size chain_metadata) orchard_output_count;
                 Some (sapling, orchard) }
             | None \<Rightarrow>
                 if cl_height L first_block > sapling_activation
                 then (let (sapling, orchard) = frontiers (cl_height L first_block - 1)
                       in Some (ucast sapling, ucast orchard))
                 else if cl_height L first_block = sapling_activation then Some (0, 0)
                 else None))"

section \<open>Checks\<close>

fun continuity_loop ::
  "('o, 'd, 'i, 'n, 'r, 'k, 'l) compact_lib \<Rightarrow> block_height option \<Rightarrow> byte list option \<Rightarrow>
   scan_block list \<Rightarrow> unit option" where
  "continuity_loop L prev_height prev_hash [] = Some ()"
| "continuity_loop L prev_height prev_hash (block # blocks) =
     (if (case prev_height of Some h \<Rightarrow> cl_height L block \<noteq> h + 1 | None \<Rightarrow> False) then None
      else if (case prev_hash of Some h \<Rightarrow> cl_prev_hash L block \<noteq> h | None \<Rightarrow> False) then None
      else continuity_loop L (Some (cl_height L block)) (Some (cl_hash L block)) blocks)"

definition check_continuity ::
  "('o, 'd, 'i, 'n, 'r, 'k, 'l) compact_lib \<Rightarrow> scan_block list \<Rightarrow> wallet_block option \<Rightarrow> unit option" where
  "check_continuity L compact_blocks previous_compact_block =
     continuity_loop L (map_option wb_block_height previous_compact_block)
       (map_option wb_block_hash previous_compact_block) compact_blocks"

definition check_tree_size :: "scan_block \<Rightarrow> wallet_block \<Rightarrow> unit option" where
  "check_tree_size compact_block wallet_block =
     (case cb_chain_metadata compact_block of
        None \<Rightarrow> Some ()
      | Some chain_metadata \<Rightarrow>
          if cm_sapling_commitment_tree_size chain_metadata \<noteq> wb_sapling_commitment_tree_size wallet_block
          then None
          else if cm_orchard_commitment_tree_size chain_metadata \<noteq> wb_orchard_commitment_tree_size wallet_block
          then None
          else Some ())"

section \<open>Outputs of a transaction\<close>

type_synonym ('n, 'r) incoming = "(output_id, ('n, 'r) decrypted_output) hash_map"

definition scanning_key_nf ::
  "('raw, 'o, 'd, 'i, 'n, 'r, 'k, 'l) pool_lib \<Rightarrow> ('i, 'k) scanning_key \<Rightarrow> 'n \<Rightarrow> u64 \<Rightarrow> nullifier option" where
  "scanning_key_nf P key n position = map_option (\<lambda>nk. pl_note_nf P nk n position) (sk_nk key)"

fun calculate_nullifiers_and_positions ::
  "('raw, 'o, 'd, 'i, 'n, 'r, 'k, 'l) pool_lib \<Rightarrow> u32 \<Rightarrow> (key_id, ('i, 'k) scanning_key) hash_map \<Rightarrow>
   ('n, 'r) incoming \<Rightarrow> (output_id \<rightharpoonup> nullifier \<times> u64) \<Rightarrow> (output_id \<rightharpoonup> nullifier \<times> u64) option" where
  "calculate_nullifiers_and_positions P tree_size keys [] m = Some m"
| "calculate_nullifiers_and_positions P tree_size keys ((output_id, incoming_output) # rest) m = do {
     i \<leftarrow> u32_try_from (oi_output_index output_id);
     let position = ucast (tree_size + i);
     key \<leftarrow> hm_get keys (dec_ivk_tag incoming_output);
     nullifier \<leftarrow> scanning_key_nf P key (dec_note incoming_output) position;
     calculate_nullifiers_and_positions P tree_size keys rest (m(output_id \<mapsto> (nullifier, position))) }"

definition output_retention :: "bool \<Rightarrow> bool \<Rightarrow> block_height \<Rightarrow> retention" where
  "output_retention decrypted last_output_in_block block_height =
     (if last_output_in_block
      then RetainCheckpoint block_height (if decrypted then MarkingMarked else MarkingNone)
      else if decrypted then Marked else Ephemeral)"

text \<open>The body that the functions for the two pools share.\<close>

definition leaves_and_retentions ::
  "('raw, 'o, 'd, 'i, 'n, 'r, 'k, 'l) pool_lib \<Rightarrow> 'raw list \<Rightarrow> block_height \<Rightarrow> bool \<Rightarrow>
   ('n, 'r) incoming \<Rightarrow> ('l \<times> retention) list option" where
  "leaves_and_retentions P outs block_height last_outputs_in_block incoming_decrypted_outputs =
     (let incoming_output_indices = map (\<lambda>(output_id, _). oi_output_index output_id) incoming_decrypted_outputs
      in if outs = [] then Some []
         else let last_output_index = length outs - 1
              in those (map (\<lambda>(output_index, raw).
                    map_option (\<lambda>out. (pl_leaf P out,
                       output_retention (output_index \<in> set incoming_output_indices)
                         (last_outputs_in_block \<and> output_index = last_output_index) block_height))
                      (pl_parse P raw)) (enumerate 0 outs)))"

definition calculate_sapling_leaves_and_retentions ::
  "('o, 'd, 'i, 'n, 'r, 'k, 'l) compact_lib \<Rightarrow> compact_output list \<Rightarrow> block_height \<Rightarrow> bool \<Rightarrow>
   ('n, 'r) incoming \<Rightarrow> ('l \<times> retention) list option" where
  "calculate_sapling_leaves_and_retentions L = leaves_and_retentions (cl_sapling L)"

definition calculate_orchard_leaves_and_retentions ::
  "('o, 'd, 'i, 'n, 'r, 'k, 'l) compact_lib \<Rightarrow> compact_action list \<Rightarrow> block_height \<Rightarrow> bool \<Rightarrow>
   ('n, 'r) incoming \<Rightarrow> ('l \<times> retention) list option" where
  "calculate_orchard_leaves_and_retentions L = leaves_and_retentions (cl_orchard L)"

fun insert_nullifiers ::
  "(byte list \<Rightarrow> nullifier option) \<Rightarrow> block_height \<times> txid \<Rightarrow> byte list list \<Rightarrow>
   (nullifier \<rightharpoonup> block_height \<times> txid) \<Rightarrow> (nullifier \<rightharpoonup> block_height \<times> txid) option" where
  "insert_nullifiers parse at [] m = Some m"
| "insert_nullifiers parse at (nf # nfs) m = do {
     nullifier \<leftarrow> parse nf;
     insert_nullifiers parse at nfs (m(nullifier \<mapsto> at)) }"

definition collect_nullifiers ::
  "('o, 'd, 'i, 'n, 'r, 'k, 'l) compact_lib \<Rightarrow> nullifier_map \<Rightarrow> block_height \<Rightarrow> compact_tx \<Rightarrow>
   nullifier_map option" where
  "collect_nullifiers L nullifier_map block_height transaction = do {
     let at = (block_height, cl_txid L transaction);
     sapling \<leftarrow> insert_nullifiers (pl_nullifier (cl_sapling L)) at (ct_spends transaction)
       (nm_sapling nullifier_map);
     orchard \<leftarrow> insert_nullifiers (pl_nullifier (cl_orchard L)) at (map ca_nullifier (ct_actions transaction))
       (nm_orchard nullifier_map);
     Some \<lparr> nm_sapling = sapling, nm_orchard = orchard \<rparr> }"

section \<open>Trial decryption of the blocks\<close>

datatype scan_error = EncodingInvalid block_height txid shielded_protocol nat

fun parse_outputs :: "('raw \<Rightarrow> 'o option) \<Rightarrow> (nat \<Rightarrow> 'e) \<Rightarrow> nat \<Rightarrow> 'raw list \<Rightarrow> 'e + 'o list" where
  "parse_outputs parse err i [] = Inr []"
| "parse_outputs parse err i (raw # raws) =
     (case parse raw of
        None \<Rightarrow> Inl (err i)
      | Some out \<Rightarrow> map_sum id (\<lambda>outs. out # outs) (parse_outputs parse err (Suc i) raws))"

record ('o, 'd, 'i, 'n, 'r) batch_runners =
  brs_sapling :: "('i, 'd, 'o, 'n, 'r) batch_runner"
  brs_orchard :: "('i, 'd, 'o, 'n, 'r) batch_runner"

definition runners_for_keys ::
  "nat \<Rightarrow> ('i, 'k, 'i, 'k) scanning_keys \<Rightarrow> ('o, 'd, 'i, 'n, 'r) batch_runners option" where
  "runners_for_keys batch_size_threshold scanning_keys = do {
     sapling \<leftarrow> runner_new batch_size_threshold (map (\<lambda>(id, key). (id, sk_ivk key)) (sks_sapling scanning_keys));
     orchard \<leftarrow> runner_new batch_size_threshold (map (\<lambda>(id, key). (id, sk_ivk key)) (sks_orchard scanning_keys));
     Some \<lparr> brs_sapling = sapling, brs_orchard = orchard \<rparr> }"

definition runners_flush ::
  "('o, 'd, 'i, 'n, 'r, 'k, 'l) compact_lib \<Rightarrow> ('o, 'd, 'i, 'n, 'r) batch_runners \<Rightarrow>
   ('o, 'd, 'i, 'n, 'r) batch_runners option" where
  "runners_flush L rs = do {
     sapling \<leftarrow> runner_flush (pl_try_decrypt (cl_sapling L)) (brs_sapling rs);
     orchard \<leftarrow> runner_flush (pl_try_decrypt (cl_orchard L)) (brs_orchard rs);
     Some \<lparr> brs_sapling = sapling, brs_orchard = orchard \<rparr> }"

text \<open>One transaction of the loop of \<open>add_block\<close>: a panic is \<open>None\<close>, an output that does not parse is
  an error value.\<close>

definition add_transaction ::
  "('o, 'd, 'i, 'n, 'r, 'k, 'l) compact_lib \<Rightarrow> scan_block \<Rightarrow> compact_tx \<Rightarrow>
   ('o, 'd, 'i, 'n, 'r) batch_runners \<Rightarrow> (scan_error + ('o, 'd, 'i, 'n, 'r) batch_runners) option" where
  "add_transaction L block tx rs =
     (case parse_outputs (pl_parse (cl_sapling L))
             (EncodingInvalid (cl_height L block) (cl_txid L tx) Sapling) 0 (ct_outputs tx) of
        Inl e \<Rightarrow> Some (Inl e)
      | Inr outs \<Rightarrow> do {
          sapling \<leftarrow> runner_add_outputs (pl_try_decrypt (cl_sapling L)) (cl_hash L block) (cl_txid L tx)
            (pl_domain (cl_sapling L) (cl_height L block)) outs (brs_sapling rs);
          case parse_outputs (pl_parse (cl_orchard L))
                 (EncodingInvalid (cl_height L block) (cl_txid L tx) Orchard) 0 (ct_actions tx) of
            Inl e \<Rightarrow> Some (Inl e)
          | Inr actions \<Rightarrow> do {
              orchard \<leftarrow> runner_add_outputs (pl_try_decrypt (cl_orchard L)) (cl_hash L block) (cl_txid L tx)
                (pl_domain (cl_orchard L) (cl_height L block)) actions (brs_orchard rs);
              Some (Inr \<lparr> brs_sapling = sapling, brs_orchard = orchard \<rparr>) } })"

fun add_transactions ::
  "('o, 'd, 'i, 'n, 'r, 'k, 'l) compact_lib \<Rightarrow> scan_block \<Rightarrow> compact_tx list \<Rightarrow>
   ('o, 'd, 'i, 'n, 'r) batch_runners \<Rightarrow> (scan_error + ('o, 'd, 'i, 'n, 'r) batch_runners) option" where
  "add_transactions L block [] rs = Some (Inr rs)"
| "add_transactions L block (tx # txs) rs =
     (case add_transaction L block tx rs of
        None \<Rightarrow> None
      | Some (Inl e) \<Rightarrow> Some (Inl e)
      | Some (Inr rs) \<Rightarrow> add_transactions L block txs rs)"

definition add_block ::
  "('o, 'd, 'i, 'n, 'r, 'k, 'l) compact_lib \<Rightarrow> scan_block \<Rightarrow>
   ('o, 'd, 'i, 'n, 'r) batch_runners \<Rightarrow> (scan_error + ('o, 'd, 'i, 'n, 'r) batch_runners) option" where
  "add_block L block = add_transactions L block (cb_vtx block)"

fun add_blocks ::
  "('o, 'd, 'i, 'n, 'r, 'k, 'l) compact_lib \<Rightarrow> scan_block list \<Rightarrow>
   ('o, 'd, 'i, 'n, 'r) batch_runners \<Rightarrow> ('o, 'd, 'i, 'n, 'r) batch_runners option" where
  "add_blocks L [] rs = Some rs"
| "add_blocks L (block # blocks) rs =
     (case add_block L block rs of
        Some (Inr rs) \<Rightarrow> add_blocks L blocks rs
      | _ \<Rightarrow> None)"

definition trial_decrypt ::
  "('o, 'd, 'i, 'n, 'r, 'k, 'l) compact_lib \<Rightarrow> ('i, 'k, 'i, 'k) scanning_keys \<Rightarrow> scan_block list \<Rightarrow>
   ('o, 'd, 'i, 'n, 'r) batch_runners option" where
  "trial_decrypt L scanning_keys compact_blocks = do {
     runners \<leftarrow> runners_for_keys 100 scanning_keys;
     runners \<leftarrow> add_blocks L compact_blocks runners;
     runners_flush L runners }"

section \<open>The scan\<close>

record ('o, 'd, 'i, 'n, 'r, 'l) scan_state =
  ss_runners :: "('o, 'd, 'i, 'n, 'r) batch_runners"
  ss_data :: "'l scan_data"
  ss_sapling_tree_size :: u32
  ss_orchard_tree_size :: u32

definition scan_transaction ::
  "('o, 'd, 'i, 'n, 'r, 'k, 'l) compact_lib \<Rightarrow> ('i, 'k, 'i, 'k) scanning_keys \<Rightarrow> scan_block \<Rightarrow> bool \<Rightarrow>
   compact_tx \<Rightarrow> ('o, 'd, 'i, 'n, 'r, 'l) scan_state \<Rightarrow> ('o, 'd, 'i, 'n, 'r, 'l) scan_state option" where
  "scan_transaction L scanning_keys block is_last transaction s = do {
     let (data, shard_tree_data) = (ss_data s, sd_shard_tree_data (ss_data s));
     (sapling_runner, incoming_sapling_outputs) \<leftarrow>
       collect_results (cl_hash L block) (cl_txid L transaction) (brs_sapling (ss_runners s));
     (orchard_runner, incoming_orchard_outputs) \<leftarrow>
       collect_results (cl_hash L block) (cl_txid L transaction) (brs_orchard (ss_runners s));
     let relevent_txids = sd_relevent_txids data
       \<union> (oi_txid \<circ> fst) ` set incoming_sapling_outputs \<union> (oi_txid \<circ> fst) ` set incoming_orchard_outputs;
     nullifiers \<leftarrow> collect_nullifiers L (sd_nullifiers data) (cl_height L block) transaction;
     sapling_leaves \<leftarrow> calculate_sapling_leaves_and_retentions L (ct_outputs transaction)
       (cl_height L block) is_last incoming_sapling_outputs;
     orchard_leaves \<leftarrow> calculate_orchard_leaves_and_retentions L (ct_actions transaction)
       (cl_height L block) is_last incoming_orchard_outputs;
     sapling_positions \<leftarrow> calculate_nullifiers_and_positions (cl_sapling L) (ss_sapling_tree_size s)
       (sks_sapling scanning_keys) incoming_sapling_outputs
       (dn_sapling_nullifiers_and_positions (sd_decrypted_note_data data));
     orchard_positions \<leftarrow> calculate_nullifiers_and_positions (cl_orchard L) (ss_orchard_tree_size s)
       (sks_orchard scanning_keys) incoming_orchard_outputs
       (dn_orchard_nullifiers_and_positions (sd_decrypted_note_data data));
     sapling_count \<leftarrow> u32_try_from (length (ct_outputs transaction));
     orchard_count \<leftarrow> u32_try_from (length (ct_actions transaction));
     Some \<lparr> ss_runners = \<lparr> brs_sapling = sapling_runner, brs_orchard = orchard_runner \<rparr>,
            ss_data = data\<lparr>
              sd_nullifiers := nullifiers, sd_relevent_txids := relevent_txids,
              sd_decrypted_note_data := \<lparr> dn_sapling_nullifiers_and_positions = sapling_positions,
                dn_orchard_nullifiers_and_positions = orchard_positions \<rparr>,
              sd_shard_tree_data := shard_tree_data\<lparr>
                st_sapling_leaves_and_retentions :=
                  st_sapling_leaves_and_retentions shard_tree_data @ sapling_leaves,
                st_orchard_leaves_and_retentions :=
                  st_orchard_leaves_and_retentions shard_tree_data @ orchard_leaves \<rparr> \<rparr>,
            ss_sapling_tree_size = ss_sapling_tree_size s + sapling_count,
            ss_orchard_tree_size = ss_orchard_tree_size s + orchard_count \<rparr> }"

fun scan_transactions ::
  "('o, 'd, 'i, 'n, 'r, 'k, 'l) compact_lib \<Rightarrow> ('i, 'k, 'i, 'k) scanning_keys \<Rightarrow> scan_block \<Rightarrow>
   compact_tx list \<Rightarrow> ('o, 'd, 'i, 'n, 'r, 'l) scan_state \<Rightarrow> ('o, 'd, 'i, 'n, 'r, 'l) scan_state option" where
  "scan_transactions L scanning_keys block [] s = Some s"
| "scan_transactions L scanning_keys block (transaction # transactions) s = do {
     s \<leftarrow> scan_transaction L scanning_keys block (transactions = []) transaction s;
     scan_transactions L scanning_keys block transactions s }"

definition scanned_wallet_block ::
  "('o, 'd, 'i, 'n, 'r, 'k, 'l) compact_lib \<Rightarrow> scan_block \<Rightarrow> u32 \<Rightarrow> u32 \<Rightarrow> wallet_block" where
  "scanned_wallet_block L block sapling_tree_size orchard_tree_size =
     \<lparr> wb_block_height = cl_height L block, wb_block_hash = cl_hash L block,
       wb_prev_hash = cl_prev_hash L block, wb_time = cb_time block,
       wb_txids = map (cl_txid L) (cb_vtx block),
       wb_sapling_commitment_tree_size = sapling_tree_size,
       wb_orchard_commitment_tree_size = orchard_tree_size \<rparr>"

fun scan_blocks ::
  "('o, 'd, 'i, 'n, 'r, 'k, 'l) compact_lib \<Rightarrow> ('i, 'k, 'i, 'k) scanning_keys \<Rightarrow> scan_block list \<Rightarrow>
   ('o, 'd, 'i, 'n, 'r, 'l) scan_state \<Rightarrow> ('o, 'd, 'i, 'n, 'r, 'l) scan_state option" where
  "scan_blocks L scanning_keys [] s = Some s"
| "scan_blocks L scanning_keys (block # blocks) s = do {
     s \<leftarrow> scan_transactions L scanning_keys block (cb_vtx block) s;
     let wallet_block = scanned_wallet_block L block (ss_sapling_tree_size s) (ss_orchard_tree_size s);
     _ \<leftarrow> check_tree_size block wallet_block;
     scan_blocks L scanning_keys blocks
       (s\<lparr> ss_data := (ss_data s)\<lparr> sd_wallet_blocks :=
            (sd_wallet_blocks (ss_data s))(wb_block_height wallet_block \<mapsto> wallet_block) \<rparr> \<rparr>) }"

definition initial_scan_state ::
  "('o, 'd, 'i, 'n, 'r) batch_runners \<Rightarrow> initial_scan_data \<Rightarrow> ('o, 'd, 'i, 'n, 'r, 'l) scan_state" where
  "initial_scan_state runners initial =
     \<lparr> ss_runners = runners,
       ss_data = \<lparr> sd_nullifiers = new_nullifier_map, sd_wallet_blocks = Map.empty, sd_relevent_txids = {},
         sd_decrypted_note_data = new_decrypted_note_data,
         sd_shard_tree_data = new_shard_tree_data (ucast (is_sapling_initial_tree_size initial))
           (ucast (is_orchard_initial_tree_size initial)) \<rparr>,
       ss_sapling_tree_size = is_sapling_initial_tree_size initial,
       ss_orchard_tree_size = is_orchard_initial_tree_size initial \<rparr>"

definition scan_compact_blocks ::
  "('o, 'd, 'i, 'n, 'r, 'k, 'l) compact_lib \<Rightarrow> ('i, 'k, 'i, 'k) scanning_keys \<Rightarrow> scan_block list \<Rightarrow>
   initial_scan_data \<Rightarrow> 'l scan_data option" where
  "scan_compact_blocks L scanning_keys compact_blocks initial = do {
     _ \<leftarrow> check_continuity L compact_blocks (is_previous_block initial);
     runners \<leftarrow> trial_decrypt L scanning_keys compact_blocks;
     s \<leftarrow> scan_blocks L scanning_keys compact_blocks (initial_scan_state runners initial);
     Some (ss_data s) }"

text \<open>\<open>compact_blocks\<close> is what the server sends for the range; an empty answer panics.\<close>

definition scan ::
  "('o, 'd, 'i, 'n, 'r, 'k, 'l) compact_lib \<Rightarrow> (block_height \<Rightarrow> u64 \<times> u64) \<Rightarrow> block_height \<Rightarrow>
   ('i, 'k, 'i, 'k) scanning_keys \<Rightarrow> scan_block list \<Rightarrow> wallet_block option \<Rightarrow> 'l scan_results option" where
  "scan L frontiers sapling_activation scanning_keys compact_blocks previous_wallet_block =
     (case compact_blocks of
        [] \<Rightarrow> None
      | first_block # _ \<Rightarrow> do {
          initial \<leftarrow> initial_scan_data_new L frontiers sapling_activation first_block previous_wallet_block;
          data \<leftarrow> scan_compact_blocks L scanning_keys compact_blocks initial;
          Some \<lparr> sr_nullifiers = sd_nullifiers data, sr_wallet_blocks = sd_wallet_blocks data,
                 sr_shard_tree_data = sd_shard_tree_data data \<rparr> })"

end
