(* ===== verification/Sync_Engine.thy ===== *)
theory Sync_Engine
  imports Compact_Scan
begin

text \<open>
  The sync engine: scan ranges, scan workers and the main loop of \<open>zingo-sync/src/sync.rs\<close> and
  \<open>zingo-sync/src/scan/workers.rs\<close>, over the wallet interface of \<open>zingo-sync/src/interface.rs\<close> that
  \<open>zingolib/src/wallet/sync.rs\<close> implements.

  The main loop and the workers are tasks of an asynchronous runtime, connected by unbounded
  channels: a queue of scan tasks per worker and one queue of results. \<open>sync_step\<close> is their
  interleaving. What the server sends for a range is any list in \<open>se_serves\<close>. The type \<open>ScanRange\<close> and its
  \<open>split_at\<close>, and the insertion into shard trees, belong to other crates. A result \<open>None\<close> of a function is a
  panic.
\<close>

section \<open>Scan ranges\<close>

datatype scan_priority =
  PriorityIgnored | PriorityScanned | PriorityHistoric | PriorityOpenAdjacent | PriorityFoundNote
| PriorityChainTip | PriorityVerify

record scan_range =
  rg_start :: block_height
  rg_end :: block_height
  rg_priority :: scan_priority

abbreviation block_range :: "scan_range \<Rightarrow> block_height \<times> block_height" where
  "block_range r \<equiv> (rg_start r, rg_end r)"

type_synonym split_at = "scan_range \<Rightarrow> block_height \<Rightarrow> (scan_range \<times> scan_range) option"

definition SYNC_BATCH_SIZE :: u32 where
  "SYNC_BATCH_SIZE = 10"

definition update_scan_ranges ::
  "block_height \<Rightarrow> block_height \<Rightarrow> block_height \<Rightarrow> scan_range list \<Rightarrow> scan_range list option" where
  "update_scan_ranges chain_tip sapling_activation wallet_birthday scan_ranges =
     (let wallet_height =
        (if scan_ranges = []
         then (if wallet_birthday \<ge> sapling_activation then wallet_birthday else sapling_activation)
         else rg_end (last scan_ranges))
      in if wallet_height > chain_tip then None
         else Some (scan_ranges @
                [\<lparr> rg_start = wallet_height, rg_end = chain_tip + 1, rg_priority = PriorityHistoric \<rparr>]))"

definition selectable :: "scan_range \<Rightarrow> bool" where
  "selectable r \<longleftrightarrow> rg_priority r \<noteq> PriorityScanned \<and> rg_priority r \<noteq> PriorityIgnored"

fun prepare_next_scan_range ::
  "split_at \<Rightarrow> scan_range list \<Rightarrow> scan_range list \<times> scan_range option" where
  "prepare_next_scan_range split [] = ([], None)"
| "prepare_next_scan_range split (r # rs) =
     (if selectable r
      then (case split r (rg_start r + SYNC_BATCH_SIZE) of
              Some (lower_range, higher_range) \<Rightarrow>
                (lower_range\<lparr> rg_priority := PriorityIgnored \<rparr> # higher_range # rs, Some lower_range)
            | None \<Rightarrow> (r\<lparr> rg_priority := PriorityIgnored \<rparr> # rs, Some r))
      else map_prod (\<lambda>rs. r # rs) id (prepare_next_scan_range split rs))"

fun mark_scanned :: "scan_range \<Rightarrow> scan_range list \<Rightarrow> scan_range list option" where
  "mark_scanned scan_range [] = None"
| "mark_scanned scan_range (r # rs) =
     (if block_range r = block_range scan_range
      then Some (r\<lparr> rg_priority := PriorityScanned \<rparr> # rs)
      else map_option (\<lambda>rs. r # rs) (mark_scanned scan_range rs))"

section \<open>The wallet\<close>

record 't sync_wallet =
  sw_birthday :: u64
  sw_scan_ranges :: "scan_range list"
  sw_wallet_blocks :: "block_height \<rightharpoonup> wallet_block"
  sw_nullifier_map :: nullifier_map
  sw_sapling_tree :: 't
  sw_orchard_tree :: 't

type_synonym ('t, 'l) batch_insert = "'t \<Rightarrow> u64 \<Rightarrow> ('l \<times> retention) list \<Rightarrow> 't option"

definition sync_get_birthday :: "'t sync_wallet \<Rightarrow> block_height" where
  "sync_get_birthday w = ucast (sw_birthday w)"

definition get_wallet_block :: "'t sync_wallet \<Rightarrow> block_height \<Rightarrow> wallet_block option" where
  "get_wallet_block w block_height = sw_wallet_blocks w block_height"

definition append_wallet_blocks :: "(block_height \<rightharpoonup> wallet_block) \<Rightarrow> 't sync_wallet \<Rightarrow> 't sync_wallet" where
  "append_wallet_blocks wallet_compact_blocks w =
     w\<lparr> sw_wallet_blocks := sw_wallet_blocks w ++ wallet_compact_blocks \<rparr>"

definition append_nullifiers :: "nullifier_map \<Rightarrow> 't sync_wallet \<Rightarrow> 't sync_wallet" where
  "append_nullifiers nullifier_map w = w\<lparr> sw_nullifier_map :=
     \<lparr> nm_sapling = nm_sapling (sw_nullifier_map w) ++ nm_sapling nullifier_map,
       nm_orchard = nm_orchard (sw_nullifier_map w) ++ nm_orchard nullifier_map \<rparr> \<rparr>"

definition update_shard_trees ::
  "('t, 'l) batch_insert \<Rightarrow> ('t, 'l) batch_insert \<Rightarrow> 'l shard_tree_data \<Rightarrow> 't sync_wallet \<Rightarrow>
   't sync_wallet option" where
  "update_shard_trees insert_sapling insert_orchard data w = do {
     sapling \<leftarrow> insert_sapling (sw_sapling_tree w) (st_sapling_initial_position data)
       (st_sapling_leaves_and_retentions data);
     orchard \<leftarrow> insert_orchard (sw_orchard_tree w) (st_orchard_initial_position data)
       (st_orchard_leaves_and_retentions data);
     Some (w\<lparr> sw_sapling_tree := sapling, sw_orchard_tree := orchard \<rparr>) }"

definition update_wallet_data ::
  "('t, 'l) batch_insert \<Rightarrow> ('t, 'l) batch_insert \<Rightarrow> 'l scan_results \<Rightarrow> 't sync_wallet \<Rightarrow>
   't sync_wallet option" where
  "update_wallet_data insert_sapling insert_orchard results w =
     update_shard_trees insert_sapling insert_orchard (sr_shard_tree_data results)
       (append_nullifiers (sr_nullifiers results) (append_wallet_blocks (sr_wallet_blocks results) w))"

definition map_retain :: "('k \<Rightarrow> 'v \<Rightarrow> bool) \<Rightarrow> ('k \<rightharpoonup> 'v) \<Rightarrow> ('k \<rightharpoonup> 'v)" where
  "map_retain p m = (\<lambda>k. case m k of Some v \<Rightarrow> if p k v then Some v else None | None \<Rightarrow> None)"

definition remove_irrelevant_data :: "scan_range \<Rightarrow> 't sync_wallet \<Rightarrow> 't sync_wallet" where
  "remove_irrelevant_data scan_range w =
     (if rg_priority scan_range \<noteq> PriorityHistoric then w
      else w\<lparr> sw_wallet_blocks := map_retain (\<lambda>height _. height \<ge> rg_end scan_range) (sw_wallet_blocks w),
              sw_nullifier_map :=
                \<lparr> nm_sapling = map_retain (\<lambda>_ (height, _). height \<ge> rg_end scan_range)
                    (nm_sapling (sw_nullifier_map w)),
                  nm_orchard = map_retain (\<lambda>_ (height, _). height \<ge> rg_end scan_range)
                    (nm_orchard (sw_nullifier_map w)) \<rparr> \<rparr>)"

text \<open>What the main loop does with a result.\<close>

definition process_results ::
  "('t, 'l) batch_insert \<Rightarrow> ('t, 'l) batch_insert \<Rightarrow> scan_range \<times> 'l scan_results \<Rightarrow> 't sync_wallet \<Rightarrow>
   't sync_wallet option" where
  "process_results insert_sapling insert_orchard = (\<lambda>(scan_range, scan_results) w. do {
     w \<leftarrow> update_wallet_data insert_sapling insert_orchard scan_results w;
     let w = remove_irrelevant_data scan_range w;
     rs \<leftarrow> mark_scanned scan_range (sw_scan_ranges w);
     Some (w\<lparr> sw_scan_ranges := rs \<rparr>) })"

section \<open>Workers\<close>

definition SCAN_WORKER_POOLSIZE :: nat where
  "SCAN_WORKER_POOLSIZE = 2"

record scan_task =
  tk_scan_range :: scan_range
  tk_previous_wallet_block :: "wallet_block option"

text \<open>The places of the loop of \<open>run\<close>: waiting for a task, a task received but not yet announced, scanning,
  the result sent but the flag not yet reset, ended by a panic of the scan, ended because the sender of tasks
  is dropped.\<close>

datatype worker_state =
  Waiting | TaskReceived scan_task | Scanning scan_task | Reported | WorkerDied | WorkerExited

record scan_worker =
  wk_tasks :: "scan_task list"
  wk_state :: worker_state

definition spawn_workers :: "scan_worker list" where
  "spawn_workers = replicate SCAN_WORKER_POOLSIZE \<lparr> wk_tasks = [], wk_state = Waiting \<rparr>"

fun is_scanning_state :: "worker_state \<Rightarrow> bool" where
  "is_scanning_state (Scanning _) = True"
| "is_scanning_state Reported = True"
| "is_scanning_state WorkerDied = True"
| "is_scanning_state _ = False"

definition is_scanning :: "scan_worker \<Rightarrow> bool" where
  "is_scanning w = is_scanning_state (wk_state w)"

definition is_worker_idle :: "scan_worker list \<Rightarrow> bool" where
  "is_worker_idle workers = list_ex (\<lambda>w. \<not> is_scanning w) workers"

definition add_scan_task :: "scan_task \<Rightarrow> scan_worker list \<Rightarrow> scan_worker list option" where
  "add_scan_task scan_task workers =
     (if list_ex (\<lambda>w. \<not> is_scanning w) workers
      then Some (update_first (\<lambda>w. \<not> is_scanning w) (\<lambda>w. w\<lparr> wk_tasks := wk_tasks w @ [scan_task] \<rparr>) workers)
      else None)"

section \<open>The engine\<close>

text \<open>The environment: the code of other crates, the keys and the server.\<close>

record ('o, 'd, 'i, 'n, 'r, 'k, 'l, 't) sync_env =
  se_split :: split_at
  se_lib :: "('o, 'd, 'i, 'n, 'r, 'k, 'l) compact_lib"
  se_frontiers :: "block_height \<Rightarrow> u64 \<times> u64"
  se_sapling_activation :: block_height
  se_keys :: "('i, 'k, 'i, 'k) scanning_keys"
  se_serves :: "block_height \<times> block_height \<Rightarrow> scan_block list set"
  se_insert_sapling :: "('t, 'l) batch_insert"
  se_insert_orchard :: "('t, 'l) batch_insert"

text \<open>The places of the main loop: before the check for an idle worker, before the hand over of a task, before
  the poll of the results, in the loop after the scanner is dropped, returned, panicked.\<close>

datatype main_state = AtTick | AtAssign scan_task | AtReceive | Draining | Finished | Panicked

record ('l, 't) sync_net =
  sy_wallet :: "'t sync_wallet"
  sy_workers :: "scan_worker list"
  sy_results :: "(scan_range \<times> 'l scan_results) list"
  sy_main :: main_state

definition sync_start ::
  "('o, 'd, 'i, 'n, 'r, 'k, 'l, 't) sync_env \<Rightarrow> block_height \<Rightarrow> 't sync_wallet \<Rightarrow> ('l, 't) sync_net option" where
  "sync_start E chain_tip w =
     map_option (\<lambda>rs. \<lparr> sy_wallet = w\<lparr> sw_scan_ranges := rs \<rparr>, sy_workers = spawn_workers,
                        sy_results = [], sy_main = AtTick \<rparr>)
       (update_scan_ranges chain_tip (se_sapling_activation E) (sync_get_birthday w) (sw_scan_ranges w))"

definition receive_result ::
  "('o, 'd, 'i, 'n, 'r, 'k, 'l, 't) sync_env \<Rightarrow> main_state \<Rightarrow> ('l, 't) sync_net \<Rightarrow> ('l, 't) sync_net" where
  "receive_result E next_place s =
     (case sy_results s of
        [] \<Rightarrow> s\<lparr> sy_main := next_place \<rparr>
      | result # results \<Rightarrow>
          (case process_results (se_insert_sapling E) (se_insert_orchard E) result (sy_wallet s) of
             None \<Rightarrow> s\<lparr> sy_main := Panicked \<rparr>
           | Some w \<Rightarrow> s\<lparr> sy_wallet := w, sy_results := results, sy_main := next_place \<rparr>))"

text \<open>One step of the main task; \<open>None\<close> when it waits or has ended.\<close>

definition sync_main ::
  "('o, 'd, 'i, 'n, 'r, 'k, 'l, 't) sync_env \<Rightarrow> ('l, 't) sync_net \<Rightarrow> ('l, 't) sync_net option" where
  "sync_main E s =
     (case sy_main s of
        AtTick \<Rightarrow>
          if is_worker_idle (sy_workers s)
          then (case prepare_next_scan_range (se_split E) (sw_scan_ranges (sy_wallet s)) of
                  (_, None) \<Rightarrow> Some (s\<lparr> sy_main := Draining \<rparr>)
                | (rs, Some scan_range) \<Rightarrow>
                    Some (s\<lparr> sy_wallet := (sy_wallet s)\<lparr> sw_scan_ranges := rs \<rparr>,
                             sy_main := AtAssign \<lparr> tk_scan_range = scan_range,
                               tk_previous_wallet_block =
                                 get_wallet_block (sy_wallet s) (rg_start scan_range - 1) \<rparr> \<rparr>))
          else Some (s\<lparr> sy_main := AtReceive \<rparr>)
      | AtAssign scan_task \<Rightarrow>
          (case add_scan_task scan_task (sy_workers s) of
             None \<Rightarrow> Some (s\<lparr> sy_main := Panicked \<rparr>)
           | Some workers \<Rightarrow> Some (s\<lparr> sy_workers := workers, sy_main := AtReceive \<rparr>))
      | AtReceive \<Rightarrow> Some (receive_result E AtTick s)
      | Draining \<Rightarrow>
          if sy_results s \<noteq> [] then Some (receive_result E Draining s)
          else if list_all (\<lambda>w. wk_state w \<in> {WorkerDied, WorkerExited}) (sy_workers s)
          then Some (s\<lparr> sy_main := Finished \<rparr>)
          else None
      | Finished \<Rightarrow> None
      | Panicked \<Rightarrow> None)"

text \<open>One step of the loop of a worker, with the results it sends.\<close>

inductive worker_step ::
  "('o, 'd, 'i, 'n, 'r, 'k, 'l, 't) sync_env \<Rightarrow> bool \<Rightarrow> scan_worker \<Rightarrow> scan_worker \<Rightarrow>
   (scan_range \<times> 'l scan_results) list \<Rightarrow> bool" for E dropped where
  receive_task: "wk_state w = Waiting \<Longrightarrow> wk_tasks w = t # ts \<Longrightarrow>
    worker_step E dropped w (w\<lparr> wk_tasks := ts, wk_state := TaskReceived t \<rparr>) []"
| announce: "wk_state w = TaskReceived t \<Longrightarrow>
    worker_step E dropped w (w\<lparr> wk_state := Scanning t \<rparr>) []"
| report: "wk_state w = Scanning t \<Longrightarrow> blocks \<in> se_serves E (block_range (tk_scan_range t)) \<Longrightarrow>
    scan (se_lib E) (se_frontiers E) (se_sapling_activation E) (se_keys E) blocks
      (tk_previous_wallet_block t) = Some results \<Longrightarrow>
    worker_step E dropped w (w\<lparr> wk_state := Reported \<rparr>) [(tk_scan_range t, results)]"
| die: "wk_state w = Scanning t \<Longrightarrow> blocks \<in> se_serves E (block_range (tk_scan_range t)) \<Longrightarrow>
    scan (se_lib E) (se_frontiers E) (se_sapling_activation E) (se_keys E) blocks
      (tk_previous_wallet_block t) = None \<Longrightarrow>
    worker_step E dropped w (w\<lparr> wk_tasks := [], wk_state := WorkerDied \<rparr>) []"
| free: "wk_state w = Reported \<Longrightarrow>
    worker_step E dropped w (w\<lparr> wk_state := Waiting \<rparr>) []"
| exit: "dropped \<Longrightarrow> wk_state w = Waiting \<Longrightarrow> wk_tasks w = [] \<Longrightarrow>
    worker_step E dropped w (w\<lparr> wk_state := WorkerExited \<rparr>) []"

inductive sync_step ::
  "('o, 'd, 'i, 'n, 'r, 'k, 'l, 't) sync_env \<Rightarrow> ('l, 't) sync_net \<Rightarrow> ('l, 't) sync_net \<Rightarrow> bool" for E where
  main: "sync_main E s = Some s' \<Longrightarrow> sync_step E s s'"
| worker: "i < length (sy_workers s) \<Longrightarrow>
    worker_step E (sy_main s = Draining) (sy_workers s ! i) w sent \<Longrightarrow>
    sync_step E s (s\<lparr> sy_workers := (sy_workers s)[i := w], sy_results := sy_results s @ sent \<rparr>)"

abbreviation sync_reachable ::
  "('o, 'd, 'i, 'n, 'r, 'k, 'l, 't) sync_env \<Rightarrow> ('l, 't) sync_net \<Rightarrow> ('l, 't) sync_net \<Rightarrow> bool" where
  "sync_reachable E \<equiv> (sync_step E)\<^sup>*\<^sup>*"

end
