(* ===== verification/Compact_Scan_Laws.thy ===== *)
theory Compact_Scan_Laws
  imports Compact_Scan
begin

text \<open>
  Correctness of the scan of a range of blocks. Batched decryption is decryption output by output
  (\<open>decrypts_singly\<close> is the documented behaviour of the decryption of a batch); the leaves, the retention marks and the
  positions of the nullifiers agree for both pools, which is proved once in the locale
  \<open>scan_pool\<close>; a scan accepts only chains of blocks. \<open>demo_blocks\<close> are blocks on which these theorems are applied.
\<close>

lemma scan_transaction_blocks:
  "scan_transaction L keys block is_last tx s = Some s' \<Longrightarrow>
   sd_wallet_blocks (ss_data s') = sd_wallet_blocks (ss_data s)"
  by (auto simp: scan_transaction_def split: Option.bind_splits prod.splits)

lemma scan_transactions_blocks:
  "scan_transactions L keys block txs s = Some s' \<Longrightarrow>
   sd_wallet_blocks (ss_data s') = sd_wallet_blocks (ss_data s)"
  by (induction txs arbitrary: s) (auto simp: scan_transaction_blocks split: Option.bind_splits)

lemma scan_blocks_dom:
  "scan_blocks L keys blocks s = Some s' \<Longrightarrow>
   dom (sd_wallet_blocks (ss_data s')) = dom (sd_wallet_blocks (ss_data s)) \<union> cl_height L ` set blocks"
proof (induction blocks arbitrary: s)
  case (Cons block blocks)
  then show ?case
    by (auto simp: scanned_wallet_block_def Let_def scan_transactions_blocks split: Option.bind_splits)
qed simp

lemma scan_compact_blocksD:
  assumes "scan_compact_blocks L keys blocks initial = Some data"
  obtains runners s where "check_continuity L blocks (is_previous_block initial) = Some ()"
    "trial_decrypt L keys blocks = Some runners"
    "scan_blocks L keys blocks (initial_scan_state runners initial) = Some s" "data = ss_data s"
  using assms by (auto simp: scan_compact_blocks_def split: Option.bind_splits)

lemma scanD:
  assumes "scan L frontiers act keys blocks prev = Some res"
  obtains initial data where "blocks \<noteq> []"
    "initial_scan_data_new L frontiers act (hd blocks) prev = Some initial"
    "scan_compact_blocks L keys blocks initial = Some data"
    "sr_wallet_blocks res = sd_wallet_blocks data" "sr_shard_tree_data res = sd_shard_tree_data data"
    "sr_nullifiers res = sd_nullifiers data"
  using assms by (auto simp: scan_def split: list.splits Option.bind_splits)

lemma scan_dom:
  assumes "scan L frontiers act keys blocks prev = Some res"
  shows "dom (sr_wallet_blocks res) = cl_height L ` set blocks"
proof -
  obtain initial data where "scan_compact_blocks L keys blocks initial = Some data"
      and d: "sr_wallet_blocks res = sd_wallet_blocks data"
    using assms by (rule scanD)
  then obtain runners s where "scan_blocks L keys blocks (initial_scan_state runners initial) = Some s" "data = ss_data s"
    by (elim scan_compact_blocksD)
  from scan_blocks_dom [OF this(1)] this(2) d show ?thesis by (simp add: initial_scan_state_def)
qed

section \<open>Trial decryption of the blocks\<close>

definition txs_of :: "scan_block list \<Rightarrow> (scan_block \<times> compact_tx) list" where
  "txs_of blocks = concat (map (\<lambda>b. map (Pair b) (cb_vtx b)) blocks)"

definition result_key_of :: "('o, 'd, 'i, 'n, 'r, 'k, 'l) compact_lib \<Rightarrow> scan_block \<times> compact_tx \<Rightarrow> result_key" where
  "result_key_of L = (\<lambda>(b, tx). (cl_hash L b, cl_txid L tx))"

definition parses :: "('raw, 'o, 'd, 'i, 'n, 'r, 'k, 'l) pool_lib \<Rightarrow> 'raw list \<Rightarrow> bool" where
  "parses P raws \<longleftrightarrow> list_all (\<lambda>raw. pl_parse P raw \<noteq> None) raws"

definition tx_outputs ::
  "('o, 'd, 'i, 'n, 'r, 'k, 'l) compact_lib \<Rightarrow> ('raw, 'o, 'd, 'i, 'n, 'r, 'k, 'l) pool_lib \<Rightarrow> scan_block \<Rightarrow>
   'raw list \<Rightarrow> ('d \<times> 'o) list" where
  "tx_outputs L P b raws = map (\<lambda>out. (pl_domain P (cl_height L b) out, out)) (map (the \<circ> pl_parse P) raws)"

definition entries ::
  "('o, 'd, 'i, 'n, 'r, 'k, 'l) compact_lib \<Rightarrow> ('raw, 'o, 'd, 'i, 'n, 'r, 'k, 'l) pool_lib \<Rightarrow>
   (compact_tx \<Rightarrow> 'raw list) \<Rightarrow> (scan_block \<times> compact_tx) list \<Rightarrow> (result_key \<times> ('d \<times> 'o) list) list" where
  "entries L P raws txs = map (\<lambda>(b, tx). (result_key_of L (b, tx), tx_outputs L P b (raws tx))) txs"

fun add_flat ::
  "('o, 'd, 'i, 'n, 'r, 'k, 'l) compact_lib \<Rightarrow> (scan_block \<times> compact_tx) list \<Rightarrow>
   ('o, 'd, 'i, 'n, 'r) batch_runners \<Rightarrow> ('o, 'd, 'i, 'n, 'r) batch_runners option" where
  "add_flat L [] rs = Some rs"
| "add_flat L ((b, tx) # txs) rs =
     (case add_transaction L b tx rs of Some (Inr rs) \<Rightarrow> add_flat L txs rs | _ \<Rightarrow> None)"

lemma add_flat_append: "add_flat L (xs @ ys) rs = Option.bind (add_flat L xs rs) (add_flat L ys)"
  by (induction L xs rs rule: add_flat.induct) (auto split: option.splits sum.splits)

lemma add_transactions_flat:
  "add_flat L (map (Pair b) txs) rs = (case add_transactions L b txs rs of Some (Inr rs) \<Rightarrow> Some rs | _ \<Rightarrow> None)"
  by (induction txs arbitrary: rs) (auto split: option.splits sum.splits)

lemma add_blocks_flat: "add_blocks L blocks rs = add_flat L (txs_of blocks) rs"
proof (induction blocks arbitrary: rs)
  case (Cons b blocks)
  then show ?case
    by (simp add: txs_of_def add_flat_append add_transactions_flat add_block_def split: option.splits sum.splits)
qed (simp add: txs_of_def)

lemma parse_outputs_all:
  "list_all (\<lambda>raw. parse raw \<noteq> None) raws \<Longrightarrow> parse_outputs parse err i raws = Inr (map (the \<circ> parse) raws)"
  by (induction raws arbitrary: i) auto

lemma parse_outputs_Inr:
  "parse_outputs parse err i raws = Inr outs \<Longrightarrow> list_all (\<lambda>raw. parse raw \<noteq> None) raws"
proof (induction raws arbitrary: i outs)
  case (Cons raw raws)
  then show ?case by (cases "parse_outputs parse err (Suc i) raws") (auto split: option.splits)
qed simp

lemma parse_outputs_iff:
  "parse_outputs parse err i raws = Inr outs \<longleftrightarrow>
   list_all (\<lambda>raw. parse raw \<noteq> None) raws \<and> outs = map (the \<circ> parse) raws"
  using parse_outputs_all [of parse raws err i] parse_outputs_Inr [of parse err i raws outs] by auto

lemma parse_outputs_parses:
  "parses P raws \<Longrightarrow> parse_outputs (pl_parse P) err i raws = Inr (map (the \<circ> pl_parse P) raws)"
  by (simp add: parse_outputs_iff parses_def)

definition added_by ::
  "('ivk list \<Rightarrow> 'd \<times> 'o \<Rightarrow> (('n \<times> 'r) \<times> nat) option) \<Rightarrow> (key_id \<times> 'ivk) list \<Rightarrow>
   (result_key \<times> ('d \<times> 'o) list) list \<Rightarrow> ('ivk, 'd, 'o, 'n, 'r) batch_runner \<Rightarrow> bool" where
  "added_by single keys es rn \<longleftrightarrow>
     (\<exists>added. runner_inv single keys added rn \<and> map (\<lambda>(key, _, outs). (key, outs)) added = es)"

lemma added_by_add:
  assumes "decrypts_singly try_decrypt single" "added_by single keys es rn" "(tag, txid) \<notin> fst ` set es"
  shows "\<exists>rn'. runner_add_outputs try_decrypt tag txid domain outs rn = Some rn' \<and>
    added_by single keys (es @ [((tag, txid), map (\<lambda>x. (domain x, x)) outs)]) rn'"
proof -
  obtain added where a: "runner_inv single keys added rn" "map (\<lambda>(key, _, outs). (key, outs)) added = es"
    using assms(2) by (auto simp: added_by_def)
  have "fst ` set added = fst ` set es" unfolding a(2) [symmetric] by force
  with assms(3) have "(tag, txid) \<notin> fst ` set added" by simp
  from runner_add_outputs_inv [OF assms(1) a(1) this, of domain outs] a(2) show ?thesis
    by (force simp: added_by_def)
qed

lemma add_transaction_parses:
  "add_transaction L b tx rs = Some (Inr rs') \<Longrightarrow>
   parses (cl_sapling L) (ct_outputs tx) \<and> parses (cl_orchard L) (ct_actions tx)"
  by (auto simp: add_transaction_def parses_def parse_outputs_iff split: sum.splits Option.bind_splits)

lemma add_flat_parses:
  "add_flat L txs rs = Some rs' \<Longrightarrow>
   list_all (\<lambda>(b, tx). parses (cl_sapling L) (ct_outputs tx) \<and> parses (cl_orchard L) (ct_actions tx)) txs"
  by (induction L txs rs rule: add_flat.induct)
     (auto split: option.splits sum.splits dest: add_transaction_parses)

lemma add_transaction_added:
  assumes "decrypts_singly (pl_try_decrypt (cl_sapling L)) ss" "decrypts_singly (pl_try_decrypt (cl_orchard L)) os"
    and "added_by ss ks es (brs_sapling rs)" "added_by os ko eo (brs_orchard rs)"
    and "result_key_of L (b, tx) \<notin> fst ` set es" "result_key_of L (b, tx) \<notin> fst ` set eo"
    and "parses (cl_sapling L) (ct_outputs tx)" "parses (cl_orchard L) (ct_actions tx)"
  shows "\<exists>rs'. add_transaction L b tx rs = Some (Inr rs') \<and>
    added_by ss ks (es @ entries L (cl_sapling L) ct_outputs [(b, tx)]) (brs_sapling rs') \<and>
    added_by os ko (eo @ entries L (cl_orchard L) ct_actions [(b, tx)]) (brs_orchard rs')"
proof -
  from assms(5,6) have fresh: "(cl_hash L b, cl_txid L tx) \<notin> fst ` set es" "(cl_hash L b, cl_txid L tx) \<notin> fst ` set eo"
    by (simp_all add: result_key_of_def)
  from added_by_add [OF assms(1,3) fresh(1), of "pl_domain (cl_sapling L) (cl_height L b)"
      "map (the \<circ> pl_parse (cl_sapling L)) (ct_outputs tx)"]
    added_by_add [OF assms(2,4) fresh(2), of "pl_domain (cl_orchard L) (cl_height L b)"
      "map (the \<circ> pl_parse (cl_orchard L)) (ct_actions tx)"]
  show ?thesis using assms(7,8)
    by (auto simp: add_transaction_def parse_outputs_parses entries_def tx_outputs_def result_key_of_def)
qed

lemma entries_keys: "fst ` set (entries L P raws ys) = result_key_of L ` set ys"
  by (force simp: entries_def image_iff)

lemma add_flat_added:
  assumes "decrypts_singly (pl_try_decrypt (cl_sapling L)) ss" "decrypts_singly (pl_try_decrypt (cl_orchard L)) os"
    and "added_by ss ks (entries L (cl_sapling L) ct_outputs pre) (brs_sapling rs)"
    and "added_by os ko (entries L (cl_orchard L) ct_actions pre) (brs_orchard rs)"
    and "distinct (map (result_key_of L) (pre @ txs))"
    and "list_all (\<lambda>(b, tx). parses (cl_sapling L) (ct_outputs tx) \<and> parses (cl_orchard L) (ct_actions tx)) txs"
  shows "\<exists>rs'. add_flat L txs rs = Some rs' \<and>
    added_by ss ks (entries L (cl_sapling L) ct_outputs (pre @ txs)) (brs_sapling rs') \<and>
    added_by os ko (entries L (cl_orchard L) ct_actions (pre @ txs)) (brs_orchard rs')"
  using assms(3-6)
proof (induction txs arbitrary: pre rs)
  case (Cons x txs)
  obtain b tx where x: "x = (b, tx)" by (cases x)
  have "result_key_of L x \<notin> result_key_of L ` set pre" using Cons.prems(3) by auto
  with Cons.prems obtain rs1 where step: "add_transaction L b tx rs = Some (Inr rs1)"
    "added_by ss ks (entries L (cl_sapling L) ct_outputs (pre @ [x])) (brs_sapling rs1)"
    "added_by os ko (entries L (cl_orchard L) ct_actions (pre @ [x])) (brs_orchard rs1)"
    using add_transaction_added [OF assms(1,2) Cons.prems(1,2), of b tx]
    by (auto simp: x entries_keys) (auto simp: entries_def)
  from Cons.IH [OF step(2,3)] Cons.prems step(1) show ?case by (simp add: x)
qed simp

definition pool_ivks :: "(key_id, ('i, 'k) scanning_key) hash_map \<Rightarrow> (key_id \<times> 'i) list" where
  "pool_ivks m = map (\<lambda>(id, key). (id, sk_ivk key)) m"

definition ready_for ::
  "('ivk list \<Rightarrow> 'd \<times> 'o \<Rightarrow> (('n \<times> 'r) \<times> nat) option) \<Rightarrow> (key_id \<times> 'ivk) list \<Rightarrow>
   (result_key \<times> ('d \<times> 'o) list) list \<Rightarrow> result_key set \<Rightarrow> ('ivk, 'd, 'o, 'n, 'r) batch_runner \<Rightarrow> bool" where
  "ready_for single keys es left rn \<longleftrightarrow>
     (\<exists>added. runner_ready single keys added left rn \<and> map (\<lambda>(key, _, outs). (key, outs)) added = es)"

lemma added_by_flush:
  assumes "decrypts_singly try_decrypt single" "added_by single keys es rn"
  shows "\<exists>rn'. runner_flush try_decrypt rn = Some rn' \<and> ready_for single keys es UNIV rn'"
  using runner_flush_inv [OF assms(1)] runner_inv_ready assms(2) unfolding added_by_def ready_for_def by blast

lemma collect_ready_for:
  assumes "ready_for single keys es left rn" "((tag, txid), outs) \<in> set es" "(tag, txid) \<in> left"
  shows "\<exists>rn'. collect_results tag txid rn = Some (rn', incoming_of (decrypt_one single keys) txid 0 outs) \<and>
    ready_for single keys es (left - {(tag, txid)}) rn'"
proof -
  obtain added where a: "runner_ready single keys added left rn" "map (\<lambda>(key, _, outs). (key, outs)) added = es"
    using assms(1) by (auto simp: ready_for_def)
  with assms(2) obtain channel where "((tag, txid), channel, outs) \<in> set added" by auto
  from collect_ready [OF a(1) this assms(3)] a(2) show ?thesis by (auto simp: ready_for_def)
qed

lemma trial_decrypt_ready:
  assumes "decrypts_singly (pl_try_decrypt (cl_sapling L)) ss" "decrypts_singly (pl_try_decrypt (cl_orchard L)) os"
    and "distinct (map (result_key_of L) (txs_of blocks))"
    and "list_all (\<lambda>(b, tx). parses (cl_sapling L) (ct_outputs tx) \<and> parses (cl_orchard L) (ct_actions tx))
           (txs_of blocks)"
  shows "\<exists>rs. trial_decrypt L keys blocks = Some rs \<and>
    ready_for ss (pool_ivks (sks_sapling keys)) (entries L (cl_sapling L) ct_outputs (txs_of blocks)) UNIV (brs_sapling rs) \<and>
    ready_for os (pool_ivks (sks_orchard keys)) (entries L (cl_orchard L) ct_actions (txs_of blocks)) UNIV (brs_orchard rs)"
proof -
  let ?ks = "pool_ivks (sks_sapling keys)" and ?ko = "pool_ivks (sks_orchard keys)"
  obtain rns rno where new: "runner_new 100 ?ks = Some rns" "runner_inv ss ?ks [] rns"
      "runner_new 100 ?ko = Some rno" "runner_inv os ?ko [] rno"
    using runner_new_inv by blast
  then have "added_by ss ?ks (entries L (cl_sapling L) ct_outputs []) rns"
    "added_by os ?ko (entries L (cl_orchard L) ct_actions []) rno"
    by (auto simp: added_by_def entries_def)
  then obtain rs where rs: "add_flat L (txs_of blocks) \<lparr> brs_sapling = rns, brs_orchard = rno \<rparr> = Some rs"
      "added_by ss ?ks (entries L (cl_sapling L) ct_outputs (txs_of blocks)) (brs_sapling rs)"
      "added_by os ?ko (entries L (cl_orchard L) ct_actions (txs_of blocks)) (brs_orchard rs)"
    using add_flat_added [OF assms(1,2), of ?ks "[]" "\<lparr> brs_sapling = rns, brs_orchard = rno \<rparr>" ?ko "txs_of blocks"] assms(3,4)
    by auto
  from added_by_flush [OF assms(1) rs(2)] added_by_flush [OF assms(2) rs(3)] new(1,3) rs(1) show ?thesis
    by (auto simp: trial_decrypt_def runners_for_keys_def runners_flush_def add_blocks_flat pool_ivks_def)
qed

lemma trial_decrypt_parses:
  assumes "trial_decrypt L keys blocks = Some rs"
  shows "list_all (\<lambda>(b, tx). parses (cl_sapling L) (ct_outputs tx) \<and> parses (cl_orchard L) (ct_actions tx)) (txs_of blocks)"
  using assms by (auto simp: trial_decrypt_def add_blocks_flat split: Option.bind_splits dest: add_flat_parses)

section \<open>Leaves and positions\<close>

definition is_marked :: "retention \<Rightarrow> bool" where
  "is_marked r \<longleftrightarrow> r = Marked \<or> (\<exists>h. r = RetainCheckpoint h MarkingMarked)"

lemma is_marked_retention [simp]: "is_marked (output_retention d l h) = d"
  by (auto simp: is_marked_def output_retention_def)

definition tx_leaves ::
  "('raw, 'o, 'd, 'i, 'n, 'r, 'k, 'l) pool_lib \<Rightarrow> ('d \<times> 'o \<Rightarrow> bool) \<Rightarrow> ('d \<times> 'o) list \<Rightarrow> block_height \<Rightarrow> bool \<Rightarrow>
   ('l \<times> retention) list" where
  "tx_leaves P hit outs h is_last =
     map (\<lambda>i. (pl_leaf P (snd (outs ! i)), output_retention (hit (outs ! i)) (is_last \<and> i = length outs - 1) h))
       [0..<length outs]"

lemma leaves_and_retentions_incoming:
  assumes "parses P raws"
  shows "leaves_and_retentions P raws (cl_height L b) is_last (incoming_of one txid 0 (tx_outputs L P b raws)) =
    Some (tx_leaves P (\<lambda>x. one x \<noteq> None) (tx_outputs L P b raws) (cl_height L b) is_last)"
proof (cases "raws = []")
  case True
  then show ?thesis by (simp add: leaves_and_retentions_def tx_leaves_def tx_outputs_def)
next
  case False
  let ?outs = "tx_outputs L P b raws"
  let ?f = "\<lambda>i. (pl_leaf P (snd (?outs ! i)),
     output_retention (one (?outs ! i) \<noteq> None) (is_last \<and> i = length raws - 1) (cl_height L b))"
  have len: "length ?outs = length raws" by (simp add: tx_outputs_def)
  have parse: "pl_parse P (raws ! i) = Some (snd (?outs ! i))" if "i < length raws" for i
    using assms that by (auto simp: parses_def list_all_length tx_outputs_def)
  have "enumerate 0 raws = map (\<lambda>i. (i, raws ! i)) [0..<length raws]"
    by (rule nth_equalityI) (simp_all add: nth_enumerate_eq)
  then have "leaves_and_retentions P raws (cl_height L b) is_last (incoming_of one txid 0 ?outs) =
      those (map (\<lambda>i. Some (?f i)) [0..<length raws])"
    using False
    by (auto simp: leaves_and_retentions_def Let_def comp_def parse incoming_indices len intro!: arg_cong [where f = those])
  then show ?thesis by (simp add: those_map_Some tx_leaves_def len)
qed

definition nf_of ::
  "('raw, 'o, 'd, 'i, 'n, 'r, 'k, 'l) pool_lib \<Rightarrow> (key_id, ('i, 'k) scanning_key) hash_map \<Rightarrow>
   ('n, 'r) decrypted_output \<Rightarrow> u64 \<Rightarrow> nullifier option" where
  "nf_of P keys d position =
     Option.bind (hm_get keys (dec_ivk_tag d)) (\<lambda>key. scanning_key_nf P key (dec_note d) position)"

lemma calculate_positions:
  assumes "calculate_nullifiers_and_positions P sz keys inc m = Some m'" "hm_wf inc"
  shows "m' oid =
    (case hm_get inc oid of
       None \<Rightarrow> m oid
     | Some d \<Rightarrow>
         let position = ucast (sz + word_of_nat (oi_output_index oid)) in
         map_option (\<lambda>nf. (nf, position)) (nf_of P keys d position)) \<and>
    (\<forall>d. hm_get inc oid = Some d \<longrightarrow>
       nf_of P keys d (ucast (sz + word_of_nat (oi_output_index oid))) \<noteq> None)"
  using assms
proof (induction P sz keys inc m rule: calculate_nullifiers_and_positions.induct)
  case (2 P sz keys oid' d rest m)
  have rest: "hm_wf rest" "oid' \<notin> fst ` set rest" using 2(3) by (auto simp: hm_wf_Cons)
  then have none: "hm_get rest oid' = None" by (simp add: map_of_eq_None_iff)
  obtain i key nf where s: "u32_try_from (oi_output_index oid') = Some i" "hm_get keys (dec_ivk_tag d) = Some key"
      "scanning_key_nf P key (dec_note d) (ucast (sz + i)) = Some nf"
      "calculate_nullifiers_and_positions P sz keys rest (m(oid' \<mapsto> (nf, ucast (sz + i)))) = Some m'"
    using 2(2) by (auto simp: Let_def split: Option.bind_splits)
  have i: "i = word_of_nat (oi_output_index oid')" using s(1) by (auto simp: u32_try_from_def split: if_splits)
  have IH: "m' oid =
    (case hm_get rest oid of
       None \<Rightarrow> (m(oid' \<mapsto> (nf, ucast (sz + i)))) oid
     | Some d \<Rightarrow>
         let position = ucast (sz + word_of_nat (oi_output_index oid)) in
         map_option (\<lambda>nf. (nf, position)) (nf_of P keys d position)) \<and>
    (\<forall>d. hm_get rest oid = Some d \<longrightarrow>
       nf_of P keys d (ucast (sz + word_of_nat (oi_output_index oid))) \<noteq> None)"
    using 2(1) [OF s(1) refl s(2,3) s(4) rest(1)] .
  show ?case
  proof (cases "oid = oid'")
    case True
    with IH none s(2,3) show ?thesis by (simp add: nf_of_def i)
  next
    case False
    with IH show ?thesis by (auto simp: Let_def split: option.splits)
  qed
qed simp

text \<open>The outputs of a list of transactions in the order of the note commitment tree.\<close>

definition items :: "(compact_tx \<Rightarrow> 'raw list) \<Rightarrow> (scan_block \<times> compact_tx) list \<Rightarrow> (scan_block \<times> compact_tx \<times> nat) list" where
  "items raws txs = concat (map (\<lambda>(b, tx). map (\<lambda>i. (b, tx, i)) [0..<length (raws tx)]) txs)"

lemma items_snoc [simp]:
  "items raws (txs @ [(b, tx)]) = items raws txs @ map (\<lambda>i. (b, tx, i)) [0..<length (raws tx)]"
  by (simp add: items_def)

lemma items_set: "(b, tx, i) \<in> set (items raws txs) \<Longrightarrow> (b, tx) \<in> set txs"
  by (auto simp: items_def)

locale scan_pool =
  fixes L :: "('o, 'd, 'i, 'n, 'r, 'k, 'l) compact_lib"
    and P :: "('raw, 'o, 'd, 'i, 'n, 'r, 'k, 'l) pool_lib"
    and raws :: "compact_tx \<Rightarrow> 'raw list"
    and pool_keys :: "('i, 'k, 'i, 'k) scanning_keys \<Rightarrow> (key_id, ('i, 'k) scanning_key) hash_map"
    and runner :: "('o, 'd, 'i, 'n, 'r, 'l) scan_state \<Rightarrow> ('i, 'd, 'o, 'n, 'r) batch_runner"
    and leaves :: "('o, 'd, 'i, 'n, 'r, 'l) scan_state \<Rightarrow> ('l \<times> retention) list"
    and positions :: "('o, 'd, 'i, 'n, 'r, 'l) scan_state \<Rightarrow> output_id \<rightharpoonup> nullifier \<times> u64"
    and tree_size :: "('o, 'd, 'i, 'n, 'r, 'l) scan_state \<Rightarrow> u32"
  assumes step: "scan_transaction L keys b is_last tx s = Some s' \<Longrightarrow>
      \<exists>inc ls n. collect_results (cl_hash L b) (cl_txid L tx) (runner s) = Some (runner s', inc) \<and>
        leaves_and_retentions P (raws tx) (cl_height L b) is_last inc = Some ls \<and> leaves s' = leaves s @ ls \<and>
        calculate_nullifiers_and_positions P (tree_size s) (pool_keys keys) inc (positions s) = Some (positions s') \<and>
        u32_try_from (length (raws tx)) = Some n \<and> tree_size s' = tree_size s + n"
    and block_stored:
      "runner (s\<lparr> ss_data := (ss_data s)\<lparr> sd_wallet_blocks := m \<rparr> \<rparr>) = runner s"
      "leaves (s\<lparr> ss_data := (ss_data s)\<lparr> sd_wallet_blocks := m \<rparr> \<rparr>) = leaves s"
      "positions (s\<lparr> ss_data := (ss_data s)\<lparr> sd_wallet_blocks := m \<rparr> \<rparr>) = positions s"
      "tree_size (s\<lparr> ss_data := (ss_data s)\<lparr> sd_wallet_blocks := m \<rparr> \<rparr>) = tree_size s"
begin

definition decrypted where
  "decrypted single keys b tx i =
     decrypt_one single (pool_ivks (pool_keys keys)) (tx_outputs L P b (raws tx) ! i)"

definition item_ok where
  "item_ok single keys sz0 s k = (\<lambda>(b, tx, i).
     let d = decrypted single keys b tx i; p = ucast (sz0 + word_of_nat k :: u32) in
     fst (leaves s ! k) = pl_leaf P (snd (tx_outputs L P b (raws tx) ! i)) \<and>
     is_marked (snd (leaves s ! k)) = (d \<noteq> None) \<and>
     positions s \<lparr> oi_txid = cl_txid L tx, oi_output_index = i \<rparr> =
       map_option (\<lambda>d. (the (nf_of P (pool_keys keys) d p), p)) d)"

definition scan_inv where
  "scan_inv single keys txs sz0 pre s \<longleftrightarrow>
     ready_for single (pool_ivks (pool_keys keys)) (entries L P raws txs) (- result_key_of L ` set pre) (runner s) \<and>
     length (leaves s) = length (items raws pre) \<and>
     tree_size s = sz0 + word_of_nat (length (items raws pre)) \<and>
     (\<forall>k < length (items raws pre). item_ok single keys sz0 s k (items raws pre ! k)) \<and>
     (\<forall>oid. positions s oid \<noteq> None \<longrightarrow> oi_txid oid \<in> cl_txid L ` snd ` set pre)"

lemma scan_transaction_inv:
  assumes inv: "scan_inv single keys txs sz0 pre s"
    and scan: "scan_transaction L keys b is_last tx s = Some s'"
    and tx: "(b, tx) \<in> set txs" "result_key_of L (b, tx) \<notin> result_key_of L ` set pre"
      "cl_txid L tx \<notin> cl_txid L ` snd ` set pre" "parses P (raws tx)"
  shows "scan_inv single keys txs sz0 (pre @ [(b, tx)]) s'"
proof -
  let ?one = "decrypt_one single (pool_ivks (pool_keys keys))" and ?outs = "tx_outputs L P b (raws tx)"
  let ?inc = "incoming_of ?one (cl_txid L tx) 0 ?outs"
  have len: "length ?outs = length (raws tx)" by (simp add: tx_outputs_def)
  obtain inc ls n where s': "collect_results (cl_hash L b) (cl_txid L tx) (runner s) = Some (runner s', inc)"
      "leaves_and_retentions P (raws tx) (cl_height L b) is_last inc = Some ls" "leaves s' = leaves s @ ls"
      "calculate_nullifiers_and_positions P (tree_size s) (pool_keys keys) inc (positions s) = Some (positions s')"
      "u32_try_from (length (raws tx)) = Some n" "tree_size s' = tree_size s + n"
    using step [OF scan] by blast
  have mem: "((cl_hash L b, cl_txid L tx), ?outs) \<in> set (entries L P raws txs)"
    using tx(1) by (force simp: entries_def result_key_of_def)
  have left: "(cl_hash L b, cl_txid L tx) \<in> - result_key_of L ` set pre"
    using tx(2) by (simp add: result_key_of_def)
  have "ready_for single (pool_ivks (pool_keys keys)) (entries L P raws txs) (- result_key_of L ` set pre) (runner s)"
    using inv by (simp add: scan_inv_def)
  from collect_ready_for [OF this mem left] s'(1) have inc: "inc = ?inc" and
    "ready_for single (pool_ivks (pool_keys keys)) (entries L P raws txs)
       (- result_key_of L ` set pre - {(cl_hash L b, cl_txid L tx)}) (runner s')"
    by auto
  then have ready: "ready_for single (pool_ivks (pool_keys keys)) (entries L P raws txs)
       (- result_key_of L ` set (pre @ [(b, tx)])) (runner s')"
    by (simp add: result_key_of_def Compl_insert)
  have ls: "ls = tx_leaves P (\<lambda>x. ?one x \<noteq> None) ?outs (cl_height L b) is_last"
    using s'(2) leaves_and_retentions_incoming [OF tx(4)] by (simp add: inc)
  then have lls: "length ls = length (raws tx)" by (simp add: tx_leaves_def len)
  note pos = calculate_positions [OF s'(4) [unfolded inc] incoming_distinct]
  have old: "positions s' oid = positions s oid" if "oi_txid oid \<noteq> cl_txid L tx" for oid
    using pos [of oid] that by (simp add: incoming_get)
  have new: "positions s' \<lparr> oi_txid = cl_txid L tx, oi_output_index = i \<rparr> =
      map_option (\<lambda>d. (the (nf_of P (pool_keys keys) d p), p)) (?one (?outs ! i))"
    if "i < length (raws tx)" "p = ucast (tree_size s + word_of_nat i)" for i p
  proof (cases "?one (?outs ! i)")
    case None
    moreover have "positions s \<lparr> oi_txid = cl_txid L tx, oi_output_index = i \<rparr> = None"
      using inv tx(3) unfolding scan_inv_def by force
    ultimately show ?thesis
      using pos [of "\<lparr> oi_txid = cl_txid L tx, oi_output_index = i \<rparr>"] that by (simp add: incoming_get len)
  next
    case (Some d)
    with pos [of "\<lparr> oi_txid = cl_txid L tx, oi_output_index = i \<rparr>"] that show ?thesis
      by (auto simp: incoming_get len Let_def)
  qed
  have "item_ok single keys sz0 s' k (items raws (pre @ [(b, tx)]) ! k)"
    if k: "k < length (items raws (pre @ [(b, tx)]))" for k
  proof (cases "k < length (items raws pre)")
    case True
    obtain b' tx' i where it: "items raws pre ! k = (b', tx', i)" by (metis prod_cases3)
    have "(b', tx') \<in> set pre" using items_set nth_mem [OF True] it by metis
    then have "cl_txid L tx' \<noteq> cl_txid L tx" using tx(3) by (metis image_eqI snd_conv)
    with True inv old show ?thesis
      by (auto simp: scan_inv_def item_ok_def Let_def nth_append it s'(3))
  next
    case False
    define i where "i = k - length (items raws pre)"
    have i: "k = length (items raws pre) + i" "i < length (raws tx)"
      using k False unfolding i_def by simp_all
    have "items raws (pre @ [(b, tx)]) ! k = (b, tx, i)" using i by (simp add: nth_append)
    moreover have "leaves s' ! k = ls ! i" using i inv by (simp add: s'(3) nth_append scan_inv_def)
    moreover have "tree_size s + word_of_nat i = sz0 + word_of_nat k" using inv i by (simp add: scan_inv_def)
    ultimately show ?thesis using new [OF i(2) refl] i(2)
      by (simp add: item_ok_def decrypted_def Let_def ls tx_leaves_def len)
  qed
  moreover have "n = word_of_nat (length (raws tx))" using s'(5) by (auto simp: u32_try_from_def split: if_splits)
  moreover have "oi_txid oid \<in> cl_txid L ` snd ` set (pre @ [(b, tx)])" if "positions s' oid \<noteq> None" for oid
    using that old [of oid] inv by (cases "oi_txid oid = cl_txid L tx") (auto simp: scan_inv_def)
  ultimately show ?thesis using inv ready lls by (simp add: scan_inv_def s'(3,6))
qed

lemma scan_transactions_inv:
  assumes "scan_inv single keys txs sz0 pre s" "scan_transactions L keys b txl s = Some s'"
    and "distinct (map (cl_txid L \<circ> snd) (pre @ map (Pair b) txl))" "set (map (Pair b) txl) \<subseteq> set txs"
    and "list_all (\<lambda>tx. parses P (raws tx)) txl"
  shows "scan_inv single keys txs sz0 (pre @ map (Pair b) txl) s'"
  using assms
proof (induction txl arbitrary: pre s)
  case (Cons tx txl)
  obtain s1 where s1: "scan_transaction L keys b (txl = []) tx s = Some s1"
      "scan_transactions L keys b txl s1 = Some s'"
    using Cons.prems(2) by (auto split: Option.bind_splits)
  have fresh: "cl_txid L tx \<notin> cl_txid L ` snd ` set pre"
    using Cons.prems(3) by (auto simp: image_image comp_def)
  then have "result_key_of L (b, tx) \<notin> result_key_of L ` set pre"
    by (auto simp: result_key_of_def image_iff)
  from scan_transaction_inv [OF Cons.prems(1) s1(1) _ this fresh] Cons.prems
  have "scan_inv single keys txs sz0 (pre @ [(b, tx)]) s1" by simp
  from Cons.IH [OF this s1(2)] Cons.prems show ?case by simp
qed simp

lemma scan_inv_block_stored:
  "scan_inv single keys txs sz0 pre (s\<lparr> ss_data := (ss_data s)\<lparr> sd_wallet_blocks := m \<rparr> \<rparr>) =
   scan_inv single keys txs sz0 pre s"
  by (simp add: scan_inv_def item_ok_def block_stored)

lemma scan_blocks_inv:
  assumes "scan_inv single keys txs sz0 pre s" "scan_blocks L keys blocks s = Some s'"
    and "distinct (map (cl_txid L \<circ> snd) (pre @ txs_of blocks))" "set (txs_of blocks) \<subseteq> set txs"
    and "list_all (\<lambda>(_, tx). parses P (raws tx)) (txs_of blocks)"
  shows "scan_inv single keys txs sz0 (pre @ txs_of blocks) s'"
  using assms
proof (induction blocks arbitrary: pre s)
  case (Cons b blocks)
  have split: "txs_of (b # blocks) = map (Pair b) (cb_vtx b) @ txs_of blocks" by (simp add: txs_of_def)
  obtain s1 m where s1: "scan_transactions L keys b (cb_vtx b) s = Some s1"
      "scan_blocks L keys blocks (s1\<lparr> ss_data := (ss_data s1)\<lparr> sd_wallet_blocks := m \<rparr> \<rparr>) = Some s'"
    using Cons.prems(2) by (auto simp: Let_def split: Option.bind_splits)
  have "scan_inv single keys txs sz0 (pre @ map (Pair b) (cb_vtx b)) s1"
    by (rule scan_transactions_inv [OF Cons.prems(1) s1(1)])
       (use Cons.prems(3-5) in \<open>auto simp: split list_all_iff comp_def\<close>)
  then have "scan_inv single keys txs sz0 (pre @ map (Pair b) (cb_vtx b))
      (s1\<lparr> ss_data := (ss_data s1)\<lparr> sd_wallet_blocks := m \<rparr> \<rparr>)"
    by (simp add: scan_inv_block_stored)
  from Cons.IH [OF this s1(2)] Cons.prems show ?case by (simp add: split)
qed (simp add: txs_of_def)

lemma scan_blocks_items:
  assumes "ready_for single (pool_ivks (pool_keys keys)) (entries L P raws (txs_of blocks)) UNIV (runner s)"
    and "leaves s = []" "positions s = Map.empty" "scan_blocks L keys blocks s = Some s'"
    and "distinct (map (cl_txid L \<circ> snd) (txs_of blocks))"
    and "list_all (\<lambda>(_, tx). parses P (raws tx)) (txs_of blocks)"
  shows "length (leaves s') = length (items raws (txs_of blocks)) \<and>
    (\<forall>k < length (leaves s'). item_ok single keys (tree_size s) s' k (items raws (txs_of blocks) ! k))"
proof -
  have "scan_inv single keys (txs_of blocks) (tree_size s) [] s"
    using assms(1-3) by (simp add: scan_inv_def items_def)
  from scan_blocks_inv [OF this assms(4)] assms(5,6) show ?thesis by (simp add: scan_inv_def)
qed

end

interpretation sapling_scan: scan_pool L "cl_sapling L" ct_outputs sks_sapling
  "\<lambda>s. brs_sapling (ss_runners s)" "\<lambda>s. st_sapling_leaves_and_retentions (sd_shard_tree_data (ss_data s))"
  "\<lambda>s. dn_sapling_nullifiers_and_positions (sd_decrypted_note_data (ss_data s))" ss_sapling_tree_size
  for L :: "('o, 'd, 'i, 'n, 'r, 'k, 'l) compact_lib"
  by unfold_locales
     (auto simp: scan_transaction_def calculate_sapling_leaves_and_retentions_def
        split: Option.bind_splits prod.splits)

interpretation orchard_scan: scan_pool L "cl_orchard L" ct_actions sks_orchard
  "\<lambda>s. brs_orchard (ss_runners s)" "\<lambda>s. st_orchard_leaves_and_retentions (sd_shard_tree_data (ss_data s))"
  "\<lambda>s. dn_orchard_nullifiers_and_positions (sd_decrypted_note_data (ss_data s))" ss_orchard_tree_size
  for L :: "('o, 'd, 'i, 'n, 'r, 'k, 'l) compact_lib"
  by unfold_locales
     (auto simp: scan_transaction_def calculate_orchard_leaves_and_retentions_def
        split: Option.bind_splits prod.splits)

lemma entries_mem:
  "(b, tx) \<in> set txs \<Longrightarrow> ((cl_hash L b, cl_txid L tx), tx_outputs L P b (raws tx)) \<in> set (entries L P raws txs)"
  by (force simp: entries_def result_key_of_def)

section \<open>Properties\<close>

text \<open>C16. Decrypting in batches finds what decrypting every output alone finds: once the blocks of a
  range are added and the last batch is run, the results collected for a transaction are the outputs of it that
  decrypt, each under its index, whatever the size of the batches and the other transactions in them.\<close>

theorem batched_decryption_exact:
  assumes "decrypts_singly (pl_try_decrypt (cl_sapling L)) ss" "decrypts_singly (pl_try_decrypt (cl_orchard L)) os"
    and "distinct (map (\<lambda>(b, tx). (cl_hash L b, cl_txid L tx)) (txs_of blocks))" "(b, tx) \<in> set (txs_of blocks)"
    and "trial_decrypt L keys blocks = Some rs"
  shows "(\<exists>rn m. collect_results (cl_hash L b) (cl_txid L tx) (brs_sapling rs) = Some (rn, m) \<and>
      (\<forall>oid. hm_get m oid =
        (if oi_txid oid = cl_txid L tx \<and> oi_output_index oid < length (ct_outputs tx)
         then decrypt_one ss (pool_ivks (sks_sapling keys))
                (tx_outputs L (cl_sapling L) b (ct_outputs tx) ! oi_output_index oid) else None))) \<and>
    (\<exists>rn m. collect_results (cl_hash L b) (cl_txid L tx) (brs_orchard rs) = Some (rn, m) \<and>
      (\<forall>oid. hm_get m oid =
        (if oi_txid oid = cl_txid L tx \<and> oi_output_index oid < length (ct_actions tx)
         then decrypt_one os (pool_ivks (sks_orchard keys))
                (tx_outputs L (cl_orchard L) b (ct_actions tx) ! oi_output_index oid) else None)))"
proof -
  have distinct: "distinct (map (result_key_of L) (txs_of blocks))"
    using assms(3) by (simp add: result_key_of_def)
  from trial_decrypt_ready [OF assms(1,2) distinct trial_decrypt_parses [OF assms(5)], of keys] assms(5)
  have ready:
    "ready_for ss (pool_ivks (sks_sapling keys)) (entries L (cl_sapling L) ct_outputs (txs_of blocks)) UNIV (brs_sapling rs)"
    "ready_for os (pool_ivks (sks_orchard keys)) (entries L (cl_orchard L) ct_actions (txs_of blocks)) UNIV (brs_orchard rs)"
    by auto
  have len: "length (tx_outputs L P b raws) = length raws" for P :: "('raw, _, _, _, _, _, _, _) pool_lib" and raws
    by (simp add: tx_outputs_def)
  show ?thesis
    using collect_ready_for [OF ready(1) entries_mem [OF assms(4)] UNIV_I]
      collect_ready_for [OF ready(2) entries_mem [OF assms(4)] UNIV_I]
    by (auto simp: incoming_get len)
qed

definition outputs_recorded ::
  "('o, 'd, 'i, 'n, 'r, 'k, 'l) compact_lib \<Rightarrow> ('raw, 'o, 'd, 'i, 'n, 'r, 'k, 'l) pool_lib \<Rightarrow>
   (compact_tx \<Rightarrow> 'raw list) \<Rightarrow> ('i list \<Rightarrow> 'd \<times> 'o \<Rightarrow> (('n \<times> 'r) \<times> nat) option) \<Rightarrow>
   (key_id, ('i, 'k) scanning_key) hash_map \<Rightarrow> (scan_block \<times> compact_tx) list \<Rightarrow>
   ('l \<times> retention) list \<Rightarrow> u64 \<Rightarrow> (output_id \<rightharpoonup> nullifier \<times> u64) \<Rightarrow> bool" where
  "outputs_recorded L P raws single keys txs leaves start positions \<longleftrightarrow>
     length leaves = length (items raws txs) \<and>
     (\<forall>k < length leaves. case items raws txs ! k of (b, tx, i) \<Rightarrow>
        let out = tx_outputs L P b (raws tx) ! i;
            d = decrypt_one single (pool_ivks keys) out;
            p = start + word_of_nat k
        in fst (leaves ! k) = pl_leaf P (snd out) \<and> is_marked (snd (leaves ! k)) = (d \<noteq> None) \<and>
           positions \<lparr> oi_txid = cl_txid L tx, oi_output_index = i \<rparr> =
             map_option (\<lambda>d. (the (nf_of P keys d p), p)) d)"

lemma ucast_add_small:
  assumes "unat (a :: u32) + k < 2 ^ 32"
  shows "(ucast (a + word_of_nat k) :: u64) = ucast a + word_of_nat k"
proof -
  have k: "unat (word_of_nat k :: u32) = k" "unat (word_of_nat k :: u64) = k" using assms by (simp_all add: unat_of_nat)
  have "unat (a + word_of_nat k) = unat a + k" using assms k by (subst unat_add_lem [THEN iffD1]) auto
  moreover have u: "unat (ucast x :: u64) = unat x" for x :: u32
    by (simp add: unsigned_ucast_eq take_bit_nat_eq_self order_less_le_trans [OF unsigned_less])
  moreover have "unat (ucast a + word_of_nat k :: u64) = unat a + k"
    using assms k u [of a] by (subst unat_add_lem [THEN iffD1]) auto
  ultimately show ?thesis by (simp add: word_unat_eq_iff)
qed

text \<open>C4. A scan records every output where it belongs: the leaves are the note commitments of all
  outputs in the order of the blocks, a leaf is marked exactly when its output decrypts, and the position under
  which the nullifier of a decrypted note is computed is the place of its leaf in the tree.\<close>

theorem scan_records_outputs:
  assumes "decrypts_singly (pl_try_decrypt (cl_sapling L)) ss" "decrypts_singly (pl_try_decrypt (cl_orchard L)) os"
    and "distinct (map (cl_txid L \<circ> snd) (txs_of blocks))"
    and "unat (is_sapling_initial_tree_size initial) + length (items ct_outputs (txs_of blocks)) < 2 ^ 32"
    and "unat (is_orchard_initial_tree_size initial) + length (items ct_actions (txs_of blocks)) < 2 ^ 32"
    and "scan_compact_blocks L keys blocks initial = Some data"
  shows "outputs_recorded L (cl_sapling L) ct_outputs ss (sks_sapling keys) (txs_of blocks)
      (st_sapling_leaves_and_retentions (sd_shard_tree_data data)) (ucast (is_sapling_initial_tree_size initial))
      (dn_sapling_nullifiers_and_positions (sd_decrypted_note_data data)) \<and>
    outputs_recorded L (cl_orchard L) ct_actions os (sks_orchard keys) (txs_of blocks)
      (st_orchard_leaves_and_retentions (sd_shard_tree_data data)) (ucast (is_orchard_initial_tree_size initial))
      (dn_orchard_nullifiers_and_positions (sd_decrypted_note_data data))"
proof -
  obtain rs s where t: "trial_decrypt L keys blocks = Some rs"
      and s: "scan_blocks L keys blocks (initial_scan_state rs initial) = Some s" and d: "data = ss_data s"
    using assms(6) by (elim scan_compact_blocksD)
  note txids = assms(3)
  then have "distinct (map (result_key_of L) (txs_of blocks))"
    by (auto simp: distinct_map result_key_of_def inj_on_def split_beta)
  then have ready:
    "ready_for ss (pool_ivks (sks_sapling keys)) (entries L (cl_sapling L) ct_outputs (txs_of blocks)) UNIV (brs_sapling rs)"
    "ready_for os (pool_ivks (sks_orchard keys)) (entries L (cl_orchard L) ct_actions (txs_of blocks)) UNIV (brs_orchard rs)"
    using trial_decrypt_ready [OF assms(1,2) _ trial_decrypt_parses [OF t], of keys] t by auto
  let ?s0 = "initial_scan_state rs initial"
  note ucast = ucast_add_small [OF order_le_less_trans [OF _ assms(4)]] ucast_add_small [OF order_le_less_trans [OF _ assms(5)]]
  have sapling: "length (st_sapling_leaves_and_retentions (sd_shard_tree_data data)) = length (items ct_outputs (txs_of blocks)) \<and>
      (\<forall>k < length (st_sapling_leaves_and_retentions (sd_shard_tree_data data)).
         sapling_scan.item_ok L ss keys (is_sapling_initial_tree_size initial) s k (items ct_outputs (txs_of blocks) ! k))"
    using sapling_scan.scan_blocks_items [OF _ _ _ s txids, of ss] ready(1) trial_decrypt_parses [OF t]
    by (simp add: d initial_scan_state_def new_shard_tree_data_def new_decrypted_note_data_def list_all_iff split_beta)
  have orchard: "length (st_orchard_leaves_and_retentions (sd_shard_tree_data data)) = length (items ct_actions (txs_of blocks)) \<and>
      (\<forall>k < length (st_orchard_leaves_and_retentions (sd_shard_tree_data data)).
         orchard_scan.item_ok L os keys (is_orchard_initial_tree_size initial) s k (items ct_actions (txs_of blocks) ! k))"
    using orchard_scan.scan_blocks_items [OF _ _ _ s txids, of os] ready(2) trial_decrypt_parses [OF t]
    by (simp add: d initial_scan_state_def new_shard_tree_data_def new_decrypted_note_data_def list_all_iff split_beta)
  show ?thesis
    using sapling orchard ucast
    unfolding outputs_recorded_def sapling_scan.item_ok_def orchard_scan.item_ok_def sapling_scan.decrypted_def
      orchard_scan.decrypted_def
    by (simp add: d Let_def split_beta)
qed

section \<open>Continuity\<close>

lemma continuity_loop_chain:
  assumes "continuity_loop L hs ps blocks = Some ()"
  shows "(blocks \<noteq> [] \<longrightarrow> (\<forall>h. hs = Some h \<longrightarrow> cl_height L (hd blocks) = h + 1) \<and>
           (\<forall>p. ps = Some p \<longrightarrow> cl_prev_hash L (hd blocks) = p)) \<and>
    (\<forall>i. Suc i < length blocks \<longrightarrow> cl_height L (blocks ! Suc i) = cl_height L (blocks ! i) + 1 \<and>
           cl_prev_hash L (blocks ! Suc i) = cl_hash L (blocks ! i))"
  using assms
proof (induction blocks arbitrary: hs ps)
  case (Cons b blocks)
  from Cons.prems have rest: "continuity_loop L (Some (cl_height L b)) (Some (cl_hash L b)) blocks = Some ()"
    by (simp split: if_splits)
  have "cl_height L ((b # blocks) ! Suc i) = cl_height L ((b # blocks) ! i) + 1 \<and>
      cl_prev_hash L ((b # blocks) ! Suc i) = cl_hash L ((b # blocks) ! i)" if "Suc i < length (b # blocks)" for i
  proof (cases i)
    case 0
    with that Cons.IH [OF rest] show ?thesis by (cases blocks) auto
  next
    case (Suc j)
    with that Cons.IH [OF rest] show ?thesis by auto
  qed
  moreover have "(\<forall>h. hs = Some h \<longrightarrow> cl_height L b = h + 1) \<and> (\<forall>p. ps = Some p \<longrightarrow> cl_prev_hash L b = p)"
    using Cons.prems by (auto split: if_splits option.splits)
  ultimately show ?case by simp
qed simp

lemma chain_heights:
  assumes "\<forall>i. Suc i < length blocks \<longrightarrow> cl_height L (blocks ! Suc i) = cl_height L (blocks ! i) + 1"
  shows "i < length blocks \<Longrightarrow> cl_height L (blocks ! i) = cl_height L (blocks ! 0) + word_of_nat i"
  using assms by (induction i) (auto simp: algebra_simps)

lemma scan_blocks_stored:
  assumes "scan_blocks L keys blocks s = Some s'" "distinct (map (cl_height L) blocks)" "b \<in> set blocks"
  shows "\<exists>wb. sd_wallet_blocks (ss_data s') (cl_height L b) = Some wb \<and> wb_block_hash wb = cl_hash L b \<and>
    wb_txids wb = map (cl_txid L) (cb_vtx b) \<and> check_tree_size b wb = Some ()"
  using assms
proof (induction blocks arbitrary: s)
  case (Cons x blocks)
  obtain s1 wb where s1: "wb = scanned_wallet_block L x (ss_sapling_tree_size s1) (ss_orchard_tree_size s1)"
      "check_tree_size x wb = Some ()"
      "scan_blocks L keys blocks (s1\<lparr> ss_data := (ss_data s1)\<lparr> sd_wallet_blocks :=
         (sd_wallet_blocks (ss_data s1))(wb_block_height wb \<mapsto> wb) \<rparr> \<rparr>) = Some s'"
    using Cons.prems(1) by (auto simp: Let_def split: Option.bind_splits)
  have keep: "sd_wallet_blocks (ss_data u') h = sd_wallet_blocks (ss_data u) h"
    if "scan_blocks L keys bs u = Some u'" "h \<notin> cl_height L ` set bs" for bs u u' h
    using that
  proof (induction bs arbitrary: u)
    case (Cons y bs)
    then show ?case
      by (auto simp: Let_def scanned_wallet_block_def dest: scan_transactions_blocks split: Option.bind_splits)
  qed simp
  show ?case
  proof (cases "b = x")
    case True
    with keep [OF s1(3), of "cl_height L x"] Cons.prems(2) s1(1,2) show ?thesis
      by (auto simp: scanned_wallet_block_def)
  next
    case False
    with Cons.IH [OF s1(3)] Cons.prems show ?thesis by simp
  qed
qed simp

text \<open>C26. A scan accepts only a chain: the heights of the blocks are consecutive and each block names the one
  before it, beginning with the previous block of the wallet when there is one; for every block the wallet
  gets a record with its hash and its transactions, whose tree sizes are those the server states.\<close>

theorem scan_accepts_chain:
  assumes "scan L frontiers activation keys blocks prev = Some res" "length blocks \<le> 2 ^ 32"
  shows "(\<forall>wb. prev = Some wb \<longrightarrow> cl_height L (hd blocks) = wb_block_height wb + 1 \<and>
        cl_prev_hash L (hd blocks) = wb_block_hash wb) \<and>
    (\<forall>i. Suc i < length blocks \<longrightarrow> cl_height L (blocks ! Suc i) = cl_height L (blocks ! i) + 1 \<and>
        cl_prev_hash L (blocks ! Suc i) = cl_hash L (blocks ! i)) \<and>
    (\<forall>b \<in> set blocks. \<exists>wb. sr_wallet_blocks res (cl_height L b) = Some wb \<and> wb_block_hash wb = cl_hash L b \<and>
        wb_txids wb = map (cl_txid L) (cb_vtx b) \<and>
        (\<forall>cm. cb_chain_metadata b = Some cm \<longrightarrow>
           cm_sapling_commitment_tree_size cm = wb_sapling_commitment_tree_size wb \<and>
           cm_orchard_commitment_tree_size cm = wb_orchard_commitment_tree_size wb))"
proof -
  obtain initial data where ne: "blocks \<noteq> []" and i: "initial_scan_data_new L frontiers activation (hd blocks) prev = Some initial"
      and c: "scan_compact_blocks L keys blocks initial = Some data"
      and r: "sr_wallet_blocks res = sd_wallet_blocks data"
    using assms(1) by (rule scanD)
  have prev: "is_previous_block initial = prev"
    using i by (auto simp: initial_scan_data_new_def)
  obtain rs s where k: "check_continuity L blocks prev = Some ()"
      and s: "scan_blocks L keys blocks (initial_scan_state rs initial) = Some s" "data = ss_data s"
    using c prev by (auto elim: scan_compact_blocksD)
  note chain = continuity_loop_chain [OF k [unfolded check_continuity_def]]
  have "distinct (map (cl_height L) blocks)"
  proof (subst distinct_conv_nth, intro allI impI)
    fix i j assume ij: "i < length (map (cl_height L) blocks)" "j < length (map (cl_height L) blocks)" "i \<noteq> j"
    have lt: "i < 2 ^ 32" "j < 2 ^ 32" using ij assms(2) by simp_all
    have "cl_height L (blocks ! x) = cl_height L (blocks ! 0) + word_of_nat x" if "x < length blocks" for x
      using chain_heights [of blocks L x] chain that by blast
    moreover have "unat (word_of_nat i :: u32) = i" "unat (word_of_nat j :: u32) = j"
      using lt by (simp_all add: unat_of_nat)
    then have "(word_of_nat i :: u32) \<noteq> word_of_nat j" using ij(3) by metis
    ultimately show "map (cl_height L) blocks ! i \<noteq> map (cl_height L) blocks ! j" using ij by simp
  qed
  then have "\<exists>wb. sd_wallet_blocks (ss_data s) (cl_height L b) = Some wb \<and> wb_block_hash wb = cl_hash L b \<and>
    wb_txids wb = map (cl_txid L) (cb_vtx b) \<and> check_tree_size b wb = Some ()" if "b \<in> set blocks" for b
    using scan_blocks_stored [OF s(1)] that by blast
  then show ?thesis using chain ne r s(2)
    by (fastforce simp: check_tree_size_def split: if_splits)
qed

section \<open>A concrete scan\<close>

definition demo_single :: "unit list \<Rightarrow> unit \<times> byte list \<Rightarrow> ((unit \<times> unit) \<times> nat) option" where
  "demo_single ivks out = (if ivks \<noteq> [] \<and> snd out = [1] then Some (((), ()), 0) else None)"

definition demo_pool :: "('raw \<Rightarrow> byte list) \<Rightarrow> ('raw, byte list, unit, unit, unit, unit, unit, byte list) pool_lib" where
  "demo_pool cm = \<lparr> pl_parse = (\<lambda>raw. Some (cm raw)), pl_domain = (\<lambda>_ _. ()),
     pl_try_decrypt = (\<lambda>ivks. map (demo_single ivks)), pl_leaf = (\<lambda>x. x),
     pl_note_nf = (\<lambda>_ _ p. [ucast p]), pl_nullifier = Some \<rparr>"

definition demo_lib :: "(byte list, unit, unit, unit, unit, unit, byte list) compact_lib" where
  "demo_lib = \<lparr> cl_height = (\<lambda>b. ucast (cb_height b)), cl_hash = cb_hash, cl_prev_hash = cb_prev_hash,
     cl_txid = ct_hash, cl_sapling = demo_pool co_cmu, cl_orchard = demo_pool ca_cmx \<rparr>"

definition demo_keys :: "(unit, unit, unit, unit) scanning_keys" where
  "demo_keys = from_account_ufvks [(0, Some (\<lambda>_. (), \<lambda>_. ()), Some (\<lambda>_. (), \<lambda>_. ()))]"

definition demo_tx :: "byte \<Rightarrow> byte list \<Rightarrow> compact_tx" where
  "demo_tx h cms = \<lparr> ct_index = 0, ct_hash = [h], ct_spends = [],
     ct_outputs = map (\<lambda>c. \<lparr> co_cmu = [c], co_ephemeral_key = [], co_ciphertext = [] \<rparr>) cms,
     ct_actions = [\<lparr> ca_nullifier = [h], ca_cmx = [h], ca_ephemeral_key = [], ca_ciphertext = [] \<rparr>] \<rparr>"

definition demo_block :: "u64 \<Rightarrow> byte \<Rightarrow> byte \<Rightarrow> compact_tx list \<Rightarrow> scan_block" where
  "demo_block h p q txs = \<lparr> cb_height = h, cb_hash = [q], cb_prev_hash = [p], cb_time = 0, cb_header = [],
     cb_vtx = txs, cb_chain_metadata = None \<rparr>"

definition demo_blocks :: "scan_block list" where
  "demo_blocks = [demo_block 7 1 2 [demo_tx 1 [0, 1], demo_tx 2 []], demo_block 8 2 3 [demo_tx 3 [1]]]"

definition demo_initial :: initial_scan_data where
  "demo_initial = \<lparr> is_previous_block = None, is_sapling_initial_tree_size = 5, is_orchard_initial_tree_size = 0 \<rparr>"

lemma demo_singly: "decrypts_singly (pl_try_decrypt (demo_pool cm)) demo_single"
  by (auto simp: decrypts_singly_def demo_pool_def demo_single_def)

lemma demo_lib_singly: "decrypts_singly (pl_try_decrypt (cl_sapling demo_lib)) demo_single"
    "decrypts_singly (pl_try_decrypt (cl_orchard demo_lib)) demo_single"
  by (simp_all add: demo_lib_def demo_singly)

lemmas demo_data = demo_blocks_def demo_block_def demo_tx_def demo_lib_def demo_pool_def demo_keys_def
  demo_initial_def demo_single_def from_account_ufvks_def insert_scopes_def

lemmas demo_runners = trial_decrypt_def runners_for_keys_def runner_new_def batch_new_def add_block_def
  add_transaction_def runner_add_outputs_def batch_add_outputs_def runners_flush_def runner_flush_def
  batch_is_empty_def batch_run_def batch_decrypt_def tag_result_def hm_insert_def

lemmas demo_scans = initial_scan_state_def scan_transaction_def collect_results_def collect_nullifiers_def
  calculate_sapling_leaves_and_retentions_def calculate_orchard_leaves_and_retentions_def leaves_and_retentions_def
  u32_try_from_def check_tree_size_def scanned_wallet_block_def new_shard_tree_data_def new_nullifier_map_def
  new_decrypted_note_data_def hm_remove_def scanning_key_nf_def

lemma demo_trial: "trial_decrypt demo_lib demo_keys demo_blocks \<noteq> None"
  by (simp add: demo_data demo_runners Let_def)

lemma demo_continuity: "check_continuity demo_lib demo_blocks None = Some ()"
  by code_simp

lemma demo_scan: "scan_compact_blocks demo_lib demo_keys demo_blocks demo_initial \<noteq> None"
proof -
  have "is_previous_block demo_initial = None" by (simp add: demo_initial_def)
  then show ?thesis
    unfolding scan_compact_blocks_def
    by (simp only: demo_continuity) (simp add: demo_data demo_runners demo_scans Let_def)
qed

lemma demo_scan_range: "scan demo_lib (\<lambda>_. (5, 0)) 1 demo_keys demo_blocks None \<noteq> None"
proof -
  obtain b bs where eq: "demo_blocks = b # bs" by (simp add: demo_blocks_def)
  obtain data where data: "scan_compact_blocks demo_lib demo_keys demo_blocks demo_initial = Some data"
    using demo_scan by blast
  have "initial_scan_data_new demo_lib (\<lambda>_. (5, 0)) 1 (hd demo_blocks) None = Some demo_initial"
    by (simp add: initial_scan_data_new_def demo_blocks_def demo_block_def demo_lib_def demo_initial_def)
  with data show ?thesis unfolding eq by (simp add: scan_def)
qed

theorem batched_decryption_exact_witness:
  "\<exists>rs rn m. trial_decrypt demo_lib demo_keys demo_blocks = Some rs \<and>
     collect_results [2] [1] (brs_sapling rs) = Some (rn, m) \<and>
     hm_get m \<lparr> oi_txid = [1], oi_output_index = 0 \<rparr> = None \<and>
     map_option dec_ivk_tag (hm_get m \<lparr> oi_txid = [1], oi_output_index = 1 \<rparr>) = Some (0, ExternalScope)"
proof -
  obtain rs where rs: "trial_decrypt demo_lib demo_keys demo_blocks = Some rs"
    using demo_trial by blast
  let ?b = "demo_block 7 1 2 [demo_tx 1 [0, 1], demo_tx 2 []]" and ?tx = "demo_tx 1 [0, 1]"
  have "(?b, ?tx) \<in> set (txs_of demo_blocks)"
    by (simp add: txs_of_def demo_blocks_def demo_block_def)
  moreover have "distinct (map (\<lambda>(b, tx). (cl_hash demo_lib b, cl_txid demo_lib tx)) (txs_of demo_blocks))"
    by code_simp
  moreover have lib: "cl_sapling demo_lib = demo_pool co_cmu" "cl_orchard demo_lib = demo_pool ca_cmx"
    "cl_hash demo_lib ?b = [2]" "cl_txid demo_lib ?tx = [1]" "length (ct_outputs ?tx) = 2"
    by (simp_all add: demo_lib_def demo_block_def demo_tx_def)
  ultimately obtain rn m where m: "collect_results [2] [1] (brs_sapling rs) = Some (rn, m)"
    "\<forall>oid. hm_get m oid = (if oi_txid oid = [1] \<and> oi_output_index oid < 2
         then decrypt_one demo_single (pool_ivks (sks_sapling demo_keys))
                (tx_outputs demo_lib (demo_pool co_cmu) ?b (ct_outputs ?tx) ! oi_output_index oid) else None)"
    using batched_decryption_exact [of demo_lib demo_single demo_single demo_blocks ?b ?tx demo_keys rs] rs demo_lib_singly
    unfolding lib by blast
  have "decrypt_one demo_single (pool_ivks (sks_sapling demo_keys))
      (tx_outputs demo_lib (demo_pool co_cmu) ?b (ct_outputs ?tx) ! 0) = None" by code_simp
  moreover have "map_option dec_ivk_tag (decrypt_one demo_single (pool_ivks (sks_sapling demo_keys))
      (tx_outputs demo_lib (demo_pool co_cmu) ?b (ct_outputs ?tx) ! 1)) = Some (0, ExternalScope)" by code_simp
  ultimately show ?thesis using rs m by (intro exI conjI) auto
qed

theorem scan_records_outputs_witness:
  "\<exists>data. scan_compact_blocks demo_lib demo_keys demo_blocks demo_initial = Some data \<and>
     dn_sapling_nullifiers_and_positions (sd_decrypted_note_data data) \<lparr> oi_txid = [3], oi_output_index = 0 \<rparr> =
       Some ([7], 7) \<and>
     is_marked (snd (st_sapling_leaves_and_retentions (sd_shard_tree_data data) ! 2))"
proof -
  obtain data where data: "scan_compact_blocks demo_lib demo_keys demo_blocks demo_initial = Some data"
    using demo_scan by blast
  have "distinct (map (cl_txid demo_lib \<circ> snd) (txs_of demo_blocks))" by code_simp
  moreover have "unat (is_sapling_initial_tree_size demo_initial) + length (items ct_outputs (txs_of demo_blocks)) < 2 ^ 32"
    "unat (is_orchard_initial_tree_size demo_initial) + length (items ct_actions (txs_of demo_blocks)) < 2 ^ 32"
    by (simp_all add: items_def txs_of_def demo_blocks_def demo_block_def demo_tx_def demo_initial_def)
  ultimately have rec: "outputs_recorded demo_lib (cl_sapling demo_lib) ct_outputs demo_single (sks_sapling demo_keys)
      (txs_of demo_blocks) (st_sapling_leaves_and_retentions (sd_shard_tree_data data))
      (ucast (is_sapling_initial_tree_size demo_initial))
      (dn_sapling_nullifiers_and_positions (sd_decrypted_note_data data))"
    using scan_records_outputs [OF demo_lib_singly _ _ _ data] by simp
  let ?b = "demo_block 8 2 3 [demo_tx 3 [1]]" and ?tx = "demo_tx 3 [1]"
  let ?d = "decrypt_one demo_single (pool_ivks (sks_sapling demo_keys))
      (tx_outputs demo_lib (cl_sapling demo_lib) ?b (ct_outputs ?tx) ! 0)"
  have "items ct_outputs (txs_of demo_blocks) ! 2 = (?b, ?tx, 0)" "length (items ct_outputs (txs_of demo_blocks)) = 3"
    by (simp_all add: items_def txs_of_def demo_blocks_def demo_block_def demo_tx_def)
  with rec have at: "is_marked (snd (st_sapling_leaves_and_retentions (sd_shard_tree_data data) ! 2)) = (?d \<noteq> None)"
    "dn_sapling_nullifiers_and_positions (sd_decrypted_note_data data) \<lparr> oi_txid = cl_txid demo_lib ?tx, oi_output_index = 0 \<rparr> =
       (let p = ucast (is_sapling_initial_tree_size demo_initial) + word_of_nat 2
        in map_option (\<lambda>d. (the (nf_of (cl_sapling demo_lib) (sks_sapling demo_keys) d p), p)) ?d)"
    by (auto simp: outputs_recorded_def Let_def dest: spec [of _ 2])
  have "?d = Some \<lparr> dec_ivk_tag = (0, ExternalScope), dec_recipient = (), dec_note = (), dec_memo = () \<rparr>"
    by (simp add: demo_data hm_insert_def tx_outputs_def decrypt_one_def pool_ivks_def)
  moreover have "nf_of (cl_sapling demo_lib) (sks_sapling demo_keys)
      \<lparr> dec_ivk_tag = (0, ExternalScope), dec_recipient = (), dec_note = (), dec_memo = () \<rparr> 7 = Some [7]"
    by (simp add: demo_data hm_insert_def nf_of_def scanning_key_nf_def)
  moreover have "cl_txid demo_lib ?tx = [3]" "ucast (is_sapling_initial_tree_size demo_initial) + word_of_nat 2 = (7 :: u64)"
    by (simp_all add: demo_data)
  ultimately show ?thesis using at data by simp
qed

theorem scan_accepts_chain_witness:
  "\<exists>res wb. scan demo_lib (\<lambda>_. (5, 0)) 1 demo_keys demo_blocks None = Some res \<and>
     sr_wallet_blocks res 8 = Some wb \<and> wb_block_hash wb = [3]"
proof -
  obtain res where res: "scan demo_lib (\<lambda>_. (5, 0)) 1 demo_keys demo_blocks None = Some res"
    using demo_scan_range by blast
  have "length demo_blocks \<le> 2 ^ 32" by (simp add: demo_blocks_def)
  moreover have "demo_block 8 2 3 [demo_tx 3 [1]] \<in> set demo_blocks" by (simp add: demo_blocks_def)
  ultimately show ?thesis using scan_accepts_chain [OF res] res
    by (fastforce simp: demo_lib_def demo_block_def)
qed

end
