(* ===== verification/Sync_Engine_Laws.thy ===== *)
theory Sync_Engine_Laws
  imports Sync_Engine Compact_Scan_Laws "HOL-Library.Multiset"
begin

text \<open>
  The invariant of the sync engine. The ranges of the wallet are contiguous, the tasks under way are
  exactly the ranges marked as ignored (\<open>tasks_inv\<close>), workers end only after the scanner is dropped, and the main loop
  leaves its loop only when no range is left. \<open>sync_weight\<close> decreases with every step that is not an idle poll.
  \<open>historic_inv\<close> says that the wallet never holds a block between two steps.
\<close>

section \<open>Lists of ranges\<close>

fun contiguous :: "nat \<Rightarrow> scan_range list \<Rightarrow> nat \<Rightarrow> bool" where
  "contiguous a [] b \<longleftrightarrow> a = b"
| "contiguous a (r # rs) b \<longleftrightarrow>
     unat (rg_start r) = a \<and> a < unat (rg_end r) \<and> contiguous (unat (rg_end r)) rs b"

lemma contiguous_append [simp]:
  "contiguous a (xs @ ys) b \<longleftrightarrow> (\<exists>m. contiguous a xs m \<and> contiguous m ys b)"
  by (induction xs arbitrary: a) auto

lemma contiguous_le: "contiguous a rs b \<Longrightarrow> a \<le> b"
  by (induction rs arbitrary: a) fastforce+

lemma contiguous_bounds:
  "contiguous a rs b \<Longrightarrow> r \<in> set rs \<Longrightarrow>
   a \<le> unat (rg_start r) \<and> unat (rg_start r) < unat (rg_end r) \<and> unat (rg_end r) \<le> b"
proof (induction rs arbitrary: a)
  case (Cons x rs)
  then show ?case using contiguous_le [of "unat (rg_end x)" rs b] by fastforce
qed simp

lemma contiguous_distinct: "contiguous a rs b \<Longrightarrow> distinct (map block_range rs)"
proof (induction rs arbitrary: a)
  case (Cons x rs)
  then have "\<forall>r \<in> set rs. unat (rg_start x) < unat (rg_start r)"
    using contiguous_bounds [of "unat (rg_end x)" rs b] by fastforce
  with Cons show ?case by auto
qed simp

lemma contiguous_covers:
  "contiguous a rs b \<Longrightarrow> a \<le> h \<Longrightarrow> h < b \<Longrightarrow>
   \<exists>!i. i < length rs \<and> unat (rg_start (rs ! i)) \<le> h \<and> h < unat (rg_end (rs ! i))"
proof (induction rs arbitrary: a)
  case (Cons x rs)
  let ?in = "\<lambda>r. unat (rg_start r) \<le> h \<and> h < unat (rg_end r)"
  show ?case
  proof (cases "h < unat (rg_end x)")
    case True
    have "\<not> ?in (rs ! i)" if "i < length rs" for i
      using contiguous_bounds [of "unat (rg_end x)" rs b "rs ! i"] Cons.prems True that by auto
    with Cons.prems True show ?thesis
      by (intro ex1I [of _ 0]) (auto simp: nth_Cons split: nat.splits)
  next
    case False
    with Cons.prems have "contiguous (unat (rg_end x)) rs b" "unat (rg_end x) \<le> h" by auto
    from Cons.IH [OF this] Cons.prems(3)
    have "\<exists>!i. i < length rs \<and> ?in (rs ! i)" by simp
    then obtain i where i: "i < length rs" "?in (rs ! i)"
        and u: "\<And>j. j < length rs \<and> ?in (rs ! j) \<Longrightarrow> j = i"
      by (elim ex1E) blast
    show ?thesis
    proof (rule ex1I [of _ "Suc i"])
      fix j
      assume j: "j < length (x # rs) \<and> ?in ((x # rs) ! j)"
      with False obtain k where "j = Suc k" by (cases j) auto
      with j u [of k] show "j = Suc i" by simp
    qed (use i in simp)
  qed
qed simp

definition split_at_documented :: "split_at \<Rightarrow> bool" where
  "split_at_documented split \<longleftrightarrow> (\<forall>r p. split r p =
     (if rg_start r < p \<and> p < rg_end r then Some (r\<lparr> rg_end := p \<rparr>, r\<lparr> rg_start := p \<rparr>) else None))"

lemma prepare_cases:
  assumes "split_at_documented split" "prepare_next_scan_range split rs = (rs', res)"
  obtains
    (none) "res = None" "rs' = rs" "\<forall>r \<in> set rs. \<not> selectable r"
  | (whole) xs r ys where "rs = xs @ r # ys" "rs' = xs @ r\<lparr> rg_priority := PriorityIgnored \<rparr> # ys"
      "res = Some r" "selectable r"
      "\<not> (rg_start r < rg_start r + SYNC_BATCH_SIZE \<and> rg_start r + SYNC_BATCH_SIZE < rg_end r)"
  | (part) xs r ys p where "rs = xs @ r # ys" "p = rg_start r + SYNC_BATCH_SIZE"
      "rs' = xs @ r\<lparr> rg_end := p, rg_priority := PriorityIgnored \<rparr> # r\<lparr> rg_start := p \<rparr> # ys"
      "res = Some (r\<lparr> rg_end := p \<rparr>)" "selectable r" "rg_start r < p" "p < rg_end r"
  using assms(2)
proof (induction rs arbitrary: rs' thesis)
  case Nil
  then show ?case by auto
next
  case (Cons x rs)
  show ?case
  proof (cases "selectable x")
    case True
    let ?p = "rg_start x + SYNC_BATCH_SIZE"
    show ?thesis
    proof (cases "rg_start x < ?p \<and> ?p < rg_end x")
      case True
      with assms(1) have "split x ?p = Some (x\<lparr> rg_end := ?p \<rparr>, x\<lparr> rg_start := ?p \<rparr>)"
        by (simp add: split_at_documented_def)
      with Cons.prems(4) \<open>selectable x\<close> True show ?thesis
        by (intro Cons.prems(3) [of "[]" x rs ?p]) auto
    next
      case False
      with assms(1) have "split x ?p = None" by (auto simp: split_at_documented_def)
      with Cons.prems(4) \<open>selectable x\<close> False show ?thesis
        by (intro Cons.prems(2) [of "[]" x rs]) auto
    qed
  next
    case False
    with Cons.prems(4) obtain q where q: "prepare_next_scan_range split rs = (q, res)" "rs' = x # q"
      by (cases "prepare_next_scan_range split rs") auto
    show ?thesis
    proof (rule Cons.IH [OF _ _ _ q(1)])
      assume "res = None" "q = rs" "\<forall>r \<in> set rs. \<not> selectable r"
      with False q show ?thesis by (intro Cons.prems(1)) auto
    next
      fix xs r ys
      assume "rs = xs @ r # ys" "q = xs @ r\<lparr> rg_priority := PriorityIgnored \<rparr> # ys"
        "res = Some r" "selectable r"
        "\<not> (rg_start r < rg_start r + SYNC_BATCH_SIZE \<and> rg_start r + SYNC_BATCH_SIZE < rg_end r)"
      with q show ?thesis by (intro Cons.prems(2) [of "x # xs" r ys]) auto
    next
      fix xs r ys p
      assume "rs = xs @ r # ys" "p = rg_start r + SYNC_BATCH_SIZE"
      "q = xs @ r\<lparr> rg_end := p, rg_priority := PriorityIgnored \<rparr> # r\<lparr> rg_start := p \<rparr> # ys"
      "res = Some (r\<lparr> rg_end := p \<rparr>)" "selectable r" "rg_start r < p" "p < rg_end r"
      with q show ?thesis by (intro Cons.prems(3) [of "x # xs" r ys p]) auto
    qed
  qed
qed

lemma mark_scanned_found:
  assumes "block_range r \<in> block_range ` set rs"
  shows "\<exists>xs y ys. rs = xs @ y # ys \<and> block_range y = block_range r \<and>
           mark_scanned r rs = Some (xs @ y\<lparr> rg_priority := PriorityScanned \<rparr> # ys)"
  using assms
proof (induction rs)
  case (Cons x rs)
  show ?case
  proof (cases "block_range x = block_range r")
    case True
    then show ?thesis by (intro exI [of _ "[]"]) auto
  next
    case False
    with Cons obtain xs y ys where "rs = xs @ y # ys \<and> block_range y = block_range r \<and>
           mark_scanned r rs = Some (xs @ y\<lparr> rg_priority := PriorityScanned \<rparr> # ys)" by auto
    with False show ?thesis by (intro exI [of _ "x # xs"]) auto
  qed
qed simp

lemma mark_scanned_panics: "block_range r \<notin> block_range ` set rs \<longleftrightarrow> mark_scanned r rs = None"
  by (induction rs) auto

section \<open>Tasks under way\<close>

abbreviation ranges :: "('l, 't) sync_net \<Rightarrow> scan_range list" where
  "ranges s \<equiv> sw_scan_ranges (sy_wallet s)"

fun state_task :: "worker_state \<Rightarrow> scan_task list" where
  "state_task (TaskReceived t) = [t]"
| "state_task (Scanning t) = [t]"
| "state_task _ = []"

definition worker_held :: "scan_worker \<Rightarrow> scan_task list" where
  "worker_held w = state_task (wk_state w) @ wk_tasks w"

fun main_held :: "main_state \<Rightarrow> scan_task list" where
  "main_held (AtAssign t) = [t]"
| "main_held _ = []"

definition tasks_held :: "('l, 't) sync_net \<Rightarrow> scan_task list" where
  "tasks_held s = main_held (sy_main s) @ concat (map worker_held (sy_workers s))"

definition outstanding :: "('l, 't) sync_net \<Rightarrow> scan_range list" where
  "outstanding s = map tk_scan_range (tasks_held s) @ map fst (sy_results s)"

definition ignored :: "scan_range list \<Rightarrow> scan_range list" where
  "ignored rs = filter (\<lambda>r. rg_priority r = PriorityIgnored) rs"

definition none_died :: "('l, 't) sync_net \<Rightarrow> bool" where
  "none_died s \<longleftrightarrow> (\<forall>w \<in> set (sy_workers s). wk_state w \<noteq> WorkerDied)"

lemma ignored_simps [simp]:
  "ignored [] = []"
  "ignored (xs @ ys) = ignored xs @ ignored ys"
  "ignored (r # rs) = (if rg_priority r = PriorityIgnored then r # ignored rs else ignored rs)"
  by (auto simp: ignored_def)

lemma set_ignored: "set (ignored rs) = {r \<in> set rs. rg_priority r = PriorityIgnored}"
  by (auto simp: ignored_def)

lemma concat_update:
  assumes "i < length ws"
  shows "\<exists>xs ys. concat (map f ws) = xs @ f (ws ! i) @ ys \<and>
           concat (map f (ws[i := w])) = xs @ f w @ ys"
proof -
  have "ws = take i ws @ ws ! i # drop (Suc i) ws" using assms by (rule id_take_nth_drop)
  then have "concat (map f ws) = concat (map f (take i ws)) @ f (ws ! i) @ concat (map f (drop (Suc i) ws))"
    by (metis concat.simps(2) concat_append list.simps(9) map_append)
  moreover have "concat (map f (ws[i := w])) =
      concat (map f (take i ws)) @ f w @ concat (map f (drop (Suc i) ws))"
    using assms by (simp add: upd_conv_take_nth_drop)
  ultimately show ?thesis by blast
qed

inductive_cases worker_stepE: "worker_step E dropped w w' sent"

lemma worker_step_held:
  assumes "worker_step E dropped w w' sent"
  shows "(wk_state w' = WorkerDied \<and> sent = [] \<and> worker_held w' = []) \<or>
    (wk_state w' \<noteq> WorkerDied \<and> wk_state w \<noteq> WorkerDied \<and>
     worker_held w' = worker_held w \<and> sent = []) \<or>
    (\<exists>t res. worker_held w = t # worker_held w' \<and> sent = [(tk_scan_range t, res)] \<and> wk_state w \<noteq> WorkerDied \<and>
       wk_state w' = Reported)"
  using assms by (rule worker_stepE) (auto simp: worker_held_def)

lemma worker_step_exit:
  assumes "worker_step E dropped w w' sent" "wk_state w' = WorkerExited"
  shows "dropped \<and> wk_tasks w' = []"
  using assms by (cases rule: worker_step.cases) auto

lemma worker_step_not_ended:
  "worker_step E dropped w w' sent \<Longrightarrow> wk_state w \<noteq> WorkerDied \<and> wk_state w \<noteq> WorkerExited"
  by (erule worker_stepE) auto

lemma add_scan_task_split:
  assumes "add_scan_task t ws = Some ws'"
  obtains xs w ys where "ws = xs @ w # ys" "\<not> is_scanning w"
    "ws' = xs @ w\<lparr> wk_tasks := wk_tasks w @ [t] \<rparr> # ys"
proof -
  from assms have "find (\<lambda>w. \<not> is_scanning w) ws \<noteq> None"
    by (auto simp: add_scan_task_def find_None_iff list_ex_iff split: if_splits)
  then obtain w where "find (\<lambda>w. \<not> is_scanning w) ws = Some w" by auto
  from update_first_split [OF this, of "\<lambda>w. w\<lparr> wk_tasks := wk_tasks w @ [t] \<rparr>"] assms that
  show thesis by (auto simp: add_scan_task_def split: if_splits)
qed

lemma process_results_ranges:
  assumes "process_results is io (r, res) w = Some w'"
  shows "mark_scanned r (sw_scan_ranges w) = Some (sw_scan_ranges w')"
  using assms
  by (auto simp: process_results_def update_wallet_data_def update_shard_trees_def append_nullifiers_def
      append_wallet_blocks_def remove_irrelevant_data_def split: Option.bind_splits if_splits)

section \<open>The invariant\<close>

definition tasks_inv :: "('l, 't) sync_net \<Rightarrow> bool" where
  "tasks_inv s \<longleftrightarrow>
     mset (map block_range (outstanding s)) \<subseteq># mset (map block_range (ignored (ranges s))) \<and>
     (none_died s \<and> sy_main s \<noteq> Panicked \<longrightarrow>
       mset (map block_range (outstanding s)) = mset (map block_range (ignored (ranges s)))) \<and>
     (\<forall>r \<in> set (outstanding s). unat (rg_end r) - unat (rg_start r) \<le> 10)"

definition workers_inv :: "('l, 't) sync_net \<Rightarrow> bool" where
  "workers_inv s \<longleftrightarrow> length (sy_workers s) = SCAN_WORKER_POOLSIZE \<and>
     (\<forall>w \<in> set (sy_workers s). wk_state w = WorkerExited \<longrightarrow>
        wk_tasks w = [] \<and> sy_main s \<in> {Draining, Finished, Panicked}) \<and>
     (\<forall>w \<in> set (sy_workers s). wk_state w = WorkerDied \<longrightarrow> wk_tasks w = [])"

definition main_inv :: "('l, 't) sync_net \<Rightarrow> bool" where
  "main_inv s \<longleftrightarrow>
     (sy_main s \<in> {Draining, Finished} \<longrightarrow> (\<forall>r \<in> set (ranges s). \<not> selectable r)) \<and>
     (sy_main s = Finished \<longrightarrow> sy_results s = [] \<and>
        (\<forall>w \<in> set (sy_workers s). wk_state w \<in> {WorkerDied, WorkerExited}))"

definition sync_inv :: "nat \<Rightarrow> nat \<Rightarrow> ('l, 't) sync_net \<Rightarrow> bool" where
  "sync_inv a b s \<longleftrightarrow> contiguous a (ranges s) b \<and> tasks_inv s \<and> workers_inv s \<and> main_inv s"

lemma worker_step_inv:
  assumes inv: "sync_inv a b s" and i: "i < length (sy_workers s)"
    and step: "worker_step E (sy_main s = Draining) (sy_workers s ! i) w sent"
  shows "sync_inv a b (s\<lparr> sy_workers := (sy_workers s)[i := w], sy_results := sy_results s @ sent \<rparr>)"
proof -
  let ?s = "s\<lparr> sy_workers := (sy_workers s)[i := w], sy_results := sy_results s @ sent \<rparr>"
  obtain xs ys where c: "concat (map worker_held (sy_workers s)) = xs @ worker_held (sy_workers s ! i) @ ys"
      "concat (map worker_held ((sy_workers s)[i := w])) = xs @ worker_held w @ ys"
    using concat_update [OF i] by blast
  have died: "none_died ?s \<Longrightarrow> none_died s" if "wk_state w \<noteq> WorkerDied"
    using worker_step_not_ended [OF step] i
    by (simp add: none_died_def all_set_conv_all_nth nth_list_update) metis
  have d: "\<not> none_died ?s" if "wk_state w = WorkerDied"
    using that i by (auto simp: none_died_def set_update_memI intro!: bexI [of _ w])
  from worker_step_held [OF step] have out:
    "(wk_state w = WorkerDied \<and> mset (map block_range (outstanding ?s)) \<subseteq># mset (map block_range (outstanding s)))
     \<or> (wk_state w \<noteq> WorkerDied \<and> mset (outstanding ?s) = mset (outstanding s))"
    and sub: "set (outstanding ?s) \<subseteq> set (outstanding s)"
    by (auto simp: outstanding_def tasks_held_def c)
  have "tasks_inv ?s"
  proof (cases "wk_state w = WorkerDied")
    case True
    with out d inv sub show ?thesis
      by (auto simp: sync_inv_def tasks_inv_def intro: subset_mset.order_trans)
  next
    case False
    with out have "mset (outstanding ?s) = mset (outstanding s)" by blast
    then have "mset (map block_range (outstanding ?s)) = mset (map block_range (outstanding s))"
      by (simp only: mset_map)
    with False died inv sub show ?thesis by (auto simp: sync_inv_def tasks_inv_def)
  qed
  moreover have "workers_inv ?s"
  proof -
    have "w' = w \<or> w' \<in> set (sy_workers s)" if "w' \<in> set ((sy_workers s)[i := w])" for w'
      using that set_update_subset_insert [of "sy_workers s" i w] by blast
    moreover have "wk_state w = WorkerDied \<Longrightarrow> wk_tasks w = []"
      using step by (cases rule: worker_step.cases) auto
    ultimately show ?thesis using inv worker_step_exit [OF step] by (auto simp: sync_inv_def workers_inv_def)
  qed
  moreover have "main_inv ?s"
    using inv i worker_step_not_ended [OF step]
    by (auto simp: sync_inv_def main_inv_def)
  ultimately show ?thesis using inv by (simp add: sync_inv_def)
qed

lemma sync_main_cases:
  assumes "sync_main E s = Some s'"
  obtains
    (drain) "sy_main s = AtTick" "is_worker_idle (sy_workers s)"
      "snd (prepare_next_scan_range (se_split E) (ranges s)) = None" "s' = s\<lparr> sy_main := Draining \<rparr>"
  | (prepare) rs r t where "sy_main s = AtTick" "is_worker_idle (sy_workers s)"
      "prepare_next_scan_range (se_split E) (ranges s) = (rs, Some r)"
      "t = \<lparr> tk_scan_range = r, tk_previous_wallet_block = get_wallet_block (sy_wallet s) (rg_start r - 1) \<rparr>"
      "s' = s\<lparr> sy_wallet := (sy_wallet s)\<lparr> sw_scan_ranges := rs \<rparr>, sy_main := AtAssign t \<rparr>"
  | (poll) "sy_main s = AtTick" "\<not> is_worker_idle (sy_workers s)" "s' = s\<lparr> sy_main := AtReceive \<rparr>"
  | (assign) t ws where "sy_main s = AtAssign t" "add_scan_task t (sy_workers s) = Some ws"
      "s' = s\<lparr> sy_workers := ws, sy_main := AtReceive \<rparr>"
  | (race) t where "sy_main s = AtAssign t" "\<not> is_worker_idle (sy_workers s)" "s' = s\<lparr> sy_main := Panicked \<rparr>"
  | (received) place r res rest w where "(sy_main s, place) \<in> {(AtReceive, AtTick), (Draining, Draining)}"
      "sy_results s = (r, res) # rest"
      "process_results (se_insert_sapling E) (se_insert_orchard E) (r, res) (sy_wallet s) = Some w"
      "s' = s\<lparr> sy_wallet := w, sy_results := rest, sy_main := place \<rparr>"
  | (failed) r res rest where "sy_main s \<in> {AtReceive, Draining}" "sy_results s = (r, res) # rest"
      "process_results (se_insert_sapling E) (se_insert_orchard E) (r, res) (sy_wallet s) = None"
      "s' = s\<lparr> sy_main := Panicked \<rparr>"
  | (empty_poll) "sy_main s = AtReceive" "sy_results s = []" "s' = s\<lparr> sy_main := AtTick \<rparr>"
  | (finish) "sy_main s = Draining" "sy_results s = []"
      "\<forall>w \<in> set (sy_workers s). wk_state w \<in> {WorkerDied, WorkerExited}" "s' = s\<lparr> sy_main := Finished \<rparr>"
proof (cases "sy_main s")
  case AtTick
  with assms show thesis
    by (auto simp: sync_main_def split: if_splits prod.splits option.splits intro: drain prepare poll)
next
  case (AtAssign t)
  with assms show thesis
    by (auto simp: sync_main_def add_scan_task_def is_worker_idle_def split: if_splits option.splits intro: assign race)
next
  case AtReceive
  show thesis
  proof (cases "sy_results s")
    case Nil
    with AtReceive assms show thesis by (intro empty_poll) (auto simp: sync_main_def receive_result_def)
  next
    case (Cons x xs)
    with AtReceive assms show thesis
      by (cases x) (auto simp: sync_main_def receive_result_def split: option.splits intro: received failed)
  qed
next
  case Draining
  with assms show thesis
    by (cases "sy_results s")
       (auto simp: sync_main_def receive_result_def list_all_iff split: option.splits if_splits
         intro: received failed finish)
qed (use assms in \<open>simp_all add: sync_main_def\<close>)

lemma prepare_effect:
  assumes "split_at_documented split" "prepare_next_scan_range split rs = (rs', Some r)"
    and "contiguous a rs b" "b + 10 < 2 ^ 32"
  shows "contiguous a rs' b"
    and "mset (map block_range (ignored rs')) = mset (map block_range (ignored rs)) + {#block_range r#}"
    and "unat (rg_end r) - unat (rg_start r) \<le> 10"
proof -
  have size: "unat (x + SYNC_BATCH_SIZE) = unat x + 10" if "unat x \<le> b" for x
  proof -
    have "unat (SYNC_BATCH_SIZE) = 10" by (simp add: SYNC_BATCH_SIZE_def)
    with that assms(4) show ?thesis by (subst unat_add_lem [THEN iffD1]) auto
  qed
  have bound: "unat (rg_start x) \<le> b" if "x \<in> set rs" for x
    using contiguous_bounds [OF assms(3) that] by auto
  from assms(1,2) show "contiguous a rs' b"
    by (cases rule: prepare_cases) (use assms(3) in \<open>auto simp: word_less_nat_alt\<close>)
  from assms(1,2) show "mset (map block_range (ignored rs')) = mset (map block_range (ignored rs)) + {#block_range r#}"
    by (cases rule: prepare_cases) (auto simp: selectable_def)
  from assms(1,2) show "unat (rg_end r) - unat (rg_start r) \<le> 10"
    by (cases rule: prepare_cases) (auto simp: size bound word_less_nat_alt)
qed

lemma mark_effect:
  assumes "contiguous a rs b" "block_range r \<in># mset (map block_range (ignored rs))"
  shows "\<exists>rs'. mark_scanned r rs = Some rs' \<and> contiguous a rs' b \<and>
    mset (map block_range (ignored rs)) = mset (map block_range (ignored rs')) + {#block_range r#} \<and>
    ((\<forall>r \<in> set rs. \<not> selectable r) \<longrightarrow> (\<forall>r \<in> set rs'. \<not> selectable r))"
proof -
  obtain y where y: "y \<in> set rs" "rg_priority y = PriorityIgnored" "block_range y = block_range r"
    using assms(2) by (auto simp: set_ignored)
  have "block_range r \<in> block_range ` set rs" unfolding y(3) [symmetric] using y(1) by blast
  from mark_scanned_found [OF this]
  obtain xs z ys where z: "rs = xs @ z # ys" "block_range z = block_range r"
    "mark_scanned r rs = Some (xs @ z\<lparr> rg_priority := PriorityScanned \<rparr> # ys)" by blast
  have "z = y"
    using contiguous_distinct [OF assms(1)] y z by (auto simp: z(1) image_iff)
  then show ?thesis using z y assms(1) by (auto simp: selectable_def)
qed

lemma sync_inv_main:
  assumes "sync_inv a b s" "main_held m = main_held (sy_main s) \<or> m = Panicked"
    and "sy_main s \<noteq> Panicked" "m \<noteq> Panicked \<Longrightarrow> sy_main s \<noteq> Draining" "sy_main s \<noteq> Finished"
    and "m \<in> {Draining, Finished} \<Longrightarrow> \<forall>r \<in> set (ranges s). \<not> selectable r" "m \<noteq> Finished"
  shows "sync_inv a b (s\<lparr> sy_main := m \<rparr>)"
proof -
  have "tasks_inv (s\<lparr> sy_main := m \<rparr>)"
  proof (cases "m = Panicked")
    case True
    have "mset (map block_range (outstanding (s\<lparr> sy_main := m \<rparr>))) \<subseteq># mset (map block_range (outstanding s))"
      using True by (simp add: outstanding_def tasks_held_def)
    moreover have "set (outstanding (s\<lparr> sy_main := m \<rparr>)) \<subseteq> set (outstanding s)"
      using True by (auto simp: outstanding_def tasks_held_def)
    ultimately show ?thesis using assms(1) True unfolding sync_inv_def tasks_inv_def
      by (auto intro: subset_mset.order_trans)
  next
    case False
    with assms(2) have "outstanding (s\<lparr> sy_main := m \<rparr>) = outstanding s"
      by (simp add: outstanding_def tasks_held_def)
    then show ?thesis using assms(1,3) by (simp add: sync_inv_def tasks_inv_def none_died_def)
  qed
  moreover have "workers_inv (s\<lparr> sy_main := m \<rparr>)"
    using assms by (auto simp: sync_inv_def workers_inv_def)
  moreover have "main_inv (s\<lparr> sy_main := m \<rparr>)"
    using assms by (auto simp: main_inv_def)
  ultimately show ?thesis using assms(1) by (simp add: sync_inv_def)
qed

lemma main_step_inv:
  assumes lib: "split_at_documented (se_split E)" and b: "b + 10 < 2 ^ 32"
    and inv: "sync_inv a b s" and step: "sync_main E s = Some s'"
  shows "sync_inv a b s'"
  using step
proof (cases rule: sync_main_cases)
  case drain
  then have "\<forall>r \<in> set (ranges s). \<not> selectable r"
    by (cases "prepare_next_scan_range (se_split E) (ranges s)") (use lib in \<open>auto elim: prepare_cases\<close>)
  with drain inv show ?thesis by (auto intro!: sync_inv_main)
next
  case (prepare rs r t)
  from inv have "contiguous a (ranges s) b" by (simp add: sync_inv_def)
  note effect = prepare_effect [OF lib prepare(3) this b]
  from prepare have "outstanding s' = r # outstanding s" by (simp add: outstanding_def tasks_held_def)
  with effect prepare inv show ?thesis
    by (auto simp: sync_inv_def tasks_inv_def workers_inv_def main_inv_def none_died_def)
next
  case (assign t ws)
  obtain xs w ys where w: "sy_workers s = xs @ w # ys" "\<not> is_scanning w"
      "ws = xs @ w\<lparr> wk_tasks := wk_tasks w @ [t] \<rparr> # ys"
    using add_scan_task_split [OF assign(2)] by blast
  have "mset (outstanding s') = mset (outstanding s)" "none_died s' \<longleftrightarrow> none_died s"
    using assign w by (auto simp: outstanding_def tasks_held_def worker_held_def none_died_def)
  then have "tasks_inv s'"
    using inv assign mset_eq_setD [of "outstanding s'" "outstanding s"]
    by (simp add: sync_inv_def tasks_inv_def)
  moreover have "wk_state w \<noteq> WorkerExited"
    using inv assign w by (auto simp: sync_inv_def workers_inv_def)
  ultimately show ?thesis using inv assign w
    by (auto simp: sync_inv_def workers_inv_def main_inv_def is_scanning_def)
next
  case (received place r res rest w)
  have "block_range r \<in># mset (map block_range (outstanding s))"
    using received by (auto simp: outstanding_def)
  then have "block_range r \<in># mset (map block_range (ignored (ranges s)))"
    using inv unfolding sync_inv_def tasks_inv_def by (blast dest: mset_subset_eqD)
  then obtain rs' where rs': "mark_scanned r (ranges s) = Some rs'" "contiguous a rs' b"
    "mset (map block_range (ignored (ranges s))) = mset (map block_range (ignored rs')) + {#block_range r#}"
    "(\<forall>r \<in> set (ranges s). \<not> selectable r) \<longrightarrow> (\<forall>r \<in> set rs'. \<not> selectable r)"
    using mark_effect inv unfolding sync_inv_def by blast
  have r: "ranges s' = rs'" using process_results_ranges [OF received(3)] rs' received by simp
  have out: "mset (map block_range (outstanding s)) = mset (map block_range (outstanding s')) + {#block_range r#}"
    "set (outstanding s') \<subseteq> set (outstanding s)"
    using received by (auto simp: outstanding_def tasks_held_def)
  have "none_died s' = none_died s" "sy_main s \<noteq> Panicked" using received by (auto simp: none_died_def)
  with out r rs' inv have "tasks_inv s'"
    by (auto simp: sync_inv_def tasks_inv_def)
  with r rs' inv received show ?thesis
    by (auto simp: sync_inv_def workers_inv_def main_inv_def)
next
  case poll
  then show ?thesis using inv by (auto intro!: sync_inv_main)
next
  case (race t)
  then show ?thesis using inv by (auto intro!: sync_inv_main)
next
  case (failed r res rest)
  then show ?thesis using inv by (auto intro!: sync_inv_main)
next
  case empty_poll
  then show ?thesis using inv by (auto intro!: sync_inv_main)
next
  case finish
  then show ?thesis using inv
    by (simp add: sync_inv_def tasks_inv_def workers_inv_def main_inv_def outstanding_def tasks_held_def none_died_def)
qed

inductive_cases sync_stepE: "sync_step E s s'"

lemma sync_reachable_inv:
  assumes "split_at_documented (se_split E)" "b + 10 < 2 ^ 32" "sync_inv a b s" "sync_reachable E s s'"
  shows "sync_inv a b s'"
  using assms(4)
proof induction
  case (step y z)
  from step(2) show ?case
    by (rule sync_stepE) (use step(3) assms(1,2) in \<open>auto intro: main_step_inv worker_step_inv\<close>)
qed (rule assms)

section \<open>Start of a sync\<close>

definition wallet_ready :: "'t sync_wallet \<Rightarrow> bool" where
  "wallet_ready w \<longleftrightarrow> (\<exists>a b. contiguous a (sw_scan_ranges w) b) \<and>
     list_all (\<lambda>r. rg_priority r = PriorityScanned) (sw_scan_ranges w) \<and> sw_wallet_blocks w = Map.empty"

definition first_height :: "block_height \<Rightarrow> 't sync_wallet \<Rightarrow> nat" where
  "first_height sapling_activation w =
     (case sw_scan_ranges w of
        [] \<Rightarrow> max (unat (sync_get_birthday w)) (unat sapling_activation)
      | r # _ \<Rightarrow> unat (rg_start r))"

lemma unat_tip: "unat (tip :: u32) + 11 < 2 ^ 32 \<Longrightarrow> unat (tip + 1) = unat tip + 1"
  by (subst unat_add_lem [THEN iffD1]) auto

lemma contiguous_ends:
  "contiguous a rs b \<Longrightarrow> rs \<noteq> [] \<Longrightarrow> a = unat (rg_start (hd rs)) \<and> b = unat (rg_end (last rs))"
  by (induction rs arbitrary: a) (auto split: if_splits)

lemma sync_start_inv:
  assumes "sync_start E tip w = Some s0" "wallet_ready w" "unat tip + 11 < 2 ^ 32"
  shows "sync_inv (first_height (se_sapling_activation E) w) (unat tip + 1) s0"
proof -
  let ?rs = "sw_scan_ranges w" and ?act = "se_sapling_activation E"
  obtain rs where rs: "update_scan_ranges tip ?act (sync_get_birthday w) ?rs = Some rs"
      and s0: "s0 = \<lparr> sy_wallet = w\<lparr> sw_scan_ranges := rs \<rparr>, sy_workers = spawn_workers,
                        sy_results = [], sy_main = AtTick \<rparr>"
    using assms(1) by (auto simp: sync_start_def)
  note tip = unat_tip [OF assms(3)]
  have i: "ignored ?rs = []"
    using assms(2) by (auto simp: wallet_ready_def ignored_def list_all_iff filter_empty_conv)
  have "contiguous (first_height ?act w) rs (unat tip + 1)"
  proof (cases "?rs = []")
    case True
    with rs show ?thesis
      by (auto simp: update_scan_ranges_def first_height_def Let_def tip word_le_nat_alt
          not_less split: if_splits)
  next
    case False
    obtain a b where ab: "contiguous a ?rs b" using assms(2) by (auto simp: wallet_ready_def)
    from contiguous_ends [OF ab False] have "a = first_height ?act w" "b = unat (rg_end (last ?rs))"
      using False by (auto simp: first_height_def split: list.splits)
    with ab rs False show ?thesis
      by (auto simp: update_scan_ranges_def Let_def tip word_le_nat_alt not_less split: if_splits)
  qed
  moreover have "ignored rs = []"
    using rs i by (auto simp: update_scan_ranges_def Let_def split: if_splits)
  ultimately show ?thesis
    by (simp add: s0 sync_inv_def tasks_inv_def workers_inv_def main_inv_def outstanding_def tasks_held_def
        spawn_workers_def worker_held_def SCAN_WORKER_POOLSIZE_def eval_nat_numeral)
qed

section \<open>No panics but one\<close>

definition inserts_ok :: "('o, 'd, 'i, 'n, 'r, 'k, 'l, 't) sync_env \<Rightarrow> bool" where
  "inserts_ok E \<longleftrightarrow> (\<forall>t p l. se_insert_sapling E t p l \<noteq> None \<and> se_insert_orchard E t p l \<noteq> None)"

lemma process_results_ok:
  assumes "sync_inv a b s" "inserts_ok E" "sy_results s = (r, res) # rest"
  shows "process_results (se_insert_sapling E) (se_insert_orchard E) (r, res) (sy_wallet s) \<noteq> None"
proof -
  have "block_range r \<in># mset (map block_range (outstanding s))"
    using assms(3) by (auto simp: outstanding_def)
  then have "block_range r \<in># mset (map block_range (ignored (ranges s)))"
    using assms(1) unfolding sync_inv_def tasks_inv_def by (blast dest: mset_subset_eqD)
  then obtain rs where "mark_scanned r (ranges s) = Some rs"
    using mark_effect assms(1) unfolding sync_inv_def by blast
  moreover obtain sap orch where "se_insert_sapling E (sw_sapling_tree (sy_wallet s))
      (st_sapling_initial_position (sr_shard_tree_data res))
      (st_sapling_leaves_and_retentions (sr_shard_tree_data res)) = Some sap"
    "se_insert_orchard E (sw_orchard_tree (sy_wallet s))
      (st_orchard_initial_position (sr_shard_tree_data res))
      (st_orchard_leaves_and_retentions (sr_shard_tree_data res)) = Some orch"
    using assms(2) by (metis inserts_ok_def option.exhaust)
  ultimately show ?thesis
    by (simp add: process_results_def update_wallet_data_def update_shard_trees_def append_nullifiers_def
        append_wallet_blocks_def remove_irrelevant_data_def)
qed

section \<open>Previous blocks\<close>

definition serves_in_range :: "('o, 'd, 'i, 'n, 'r, 'k, 'l, 't) sync_env \<Rightarrow> bool" where
  "serves_in_range E \<longleftrightarrow> (\<forall>a b blocks. blocks \<in> se_serves E (a, b) \<longrightarrow>
     (\<forall>block \<in> set blocks. a \<le> cl_height (se_lib E) block \<and> cl_height (se_lib E) block < b))"

definition historic_task :: "scan_task \<Rightarrow> bool" where
  "historic_task t \<longleftrightarrow> tk_previous_wallet_block t = None \<and> rg_priority (tk_scan_range t) = PriorityHistoric"

definition historic_inv :: "('l, 't) sync_net \<Rightarrow> bool" where
  "historic_inv s \<longleftrightarrow> sw_wallet_blocks (sy_wallet s) = Map.empty \<and>
     (\<forall>r \<in> set (ranges s). selectable r \<longrightarrow> rg_priority r = PriorityHistoric) \<and>
     (\<forall>t \<in> set (tasks_held s). historic_task t) \<and>
     (\<forall>(r, res) \<in> set (sy_results s). rg_priority r = PriorityHistoric \<and>
        (\<forall>h \<in> dom (sr_wallet_blocks res). h < rg_end r))"

lemma mark_scanned_selectable:
  "mark_scanned r rs = Some rs' \<Longrightarrow> x \<in> set rs' \<Longrightarrow> selectable x \<Longrightarrow> x \<in> set rs"
  by (induction rs arbitrary: rs') (auto simp: selectable_def split: if_splits)

lemma process_results_blocks:
  assumes "process_results is io (r, res) w = Some w'" "rg_priority r = PriorityHistoric"
    and "sw_wallet_blocks w = Map.empty" "\<forall>h \<in> dom (sr_wallet_blocks res). h < rg_end r"
  shows "sw_wallet_blocks w' = Map.empty"
proof
  fix h
  have "sw_wallet_blocks w' h = map_retain (\<lambda>height _. height \<ge> rg_end r) (sr_wallet_blocks res) h"
    using assms(1-3)
    by (auto simp: process_results_def update_wallet_data_def update_shard_trees_def append_nullifiers_def
      append_wallet_blocks_def remove_irrelevant_data_def split: Option.bind_splits if_splits)
  also have "\<dots> = None" using assms(4) by (auto simp: map_retain_def dom_def split: option.splits)
  finally show "sw_wallet_blocks w' h = None" .
qed

lemma main_step_historic:
  assumes lib: "split_at_documented (se_split E)" and inv: "historic_inv s" and step: "sync_main E s = Some s'"
  shows "historic_inv s'"
  using step
proof (cases rule: sync_main_cases)
  case (prepare rs r t)
  from lib prepare(3) have sel: "(\<forall>x \<in> set rs. selectable x \<longrightarrow> rg_priority x = PriorityHistoric) \<and>
      rg_priority r = PriorityHistoric"
    by (cases rule: prepare_cases)
       (use inv in \<open>auto simp: historic_inv_def selectable_def\<close>)
  with inv prepare show ?thesis
    by (auto simp: historic_inv_def tasks_held_def historic_task_def get_wallet_block_def)
next
  case (assign t ws)
  obtain xs w ys where "sy_workers s = xs @ w # ys" "ws = xs @ w\<lparr> wk_tasks := wk_tasks w @ [t] \<rparr> # ys"
    using add_scan_task_split [OF assign(2)] by blast
  with inv assign show ?thesis by (auto simp: historic_inv_def tasks_held_def worker_held_def)
next
  case (received place r res rest w)
  from inv received have "sw_wallet_blocks w = Map.empty"
    by (intro process_results_blocks [OF received(3)]) (auto simp: historic_inv_def)
  moreover have "selectable x \<Longrightarrow> x \<in> set (ranges s)" if "x \<in> set (sw_scan_ranges w)" for x
    using mark_scanned_selectable [OF process_results_ranges [OF received(3)] that] .
  ultimately show ?thesis using inv received by (auto simp: historic_inv_def tasks_held_def)
qed (use inv in \<open>auto simp: historic_inv_def tasks_held_def\<close>)

lemma worker_step_historic:
  assumes lib: "serves_in_range E" and inv: "historic_inv s" and i: "i < length (sy_workers s)"
    and step: "worker_step E (sy_main s = Draining) (sy_workers s ! i) w sent"
  shows "historic_inv (s\<lparr> sy_workers := (sy_workers s)[i := w], sy_results := sy_results s @ sent \<rparr>)"
proof -
  obtain xs ys where c: "concat (map worker_held (sy_workers s)) = xs @ worker_held (sy_workers s ! i) @ ys"
      "concat (map worker_held ((sy_workers s)[i := w])) = xs @ worker_held w @ ys"
    using concat_update [OF i] by blast
  have held: "\<forall>t \<in> set (worker_held (sy_workers s ! i)). historic_task t"
    using inv by (auto simp: historic_inv_def tasks_held_def c)
  have "\<forall>x \<in> set sent. rg_priority (fst x) = PriorityHistoric \<and> (\<forall>h \<in> dom (sr_wallet_blocks (snd x)). h < rg_end (fst x))"
    using step
  proof (cases rule: worker_step.cases)
    case (report t blocks results)
    then have "historic_task t" using held by (simp add: worker_held_def)
    moreover have "\<forall>h \<in> dom (sr_wallet_blocks results). h < rg_end (tk_scan_range t)"
      using scan_dom [OF report(5)] report(4) lib by (auto simp: serves_in_range_def)
    ultimately show ?thesis using report by (simp add: historic_task_def)
  qed auto
  moreover have "set (worker_held w) \<subseteq> set (worker_held (sy_workers s ! i))"
    using worker_step_held [OF step] by auto
  ultimately show ?thesis using inv held by (fastforce simp: historic_inv_def tasks_held_def c)
qed

lemma sync_start_historic:
  assumes "sync_start E tip w = Some s0" "wallet_ready w"
  shows "historic_inv s0"
  using assms
  by (auto simp: sync_start_def update_scan_ranges_def Let_def wallet_ready_def historic_inv_def tasks_held_def
      spawn_workers_def worker_held_def selectable_def list_all_iff split: if_splits)

lemma sync_reachable_historic:
  assumes "split_at_documented (se_split E)" "serves_in_range E" "historic_inv s" "sync_reachable E s s'"
  shows "historic_inv s'"
  using assms(4)
proof induction
  case (step y z)
  from step(2) show ?case
    by (rule sync_stepE) (use step(3) assms(1,2) in \<open>auto intro: main_step_historic worker_step_historic\<close>)
qed (rule assms)

section \<open>Progress\<close>

fun state_weight :: "worker_state \<Rightarrow> nat" where
  "state_weight Waiting = 1"
| "state_weight (TaskReceived _) = 6"
| "state_weight (Scanning _) = 5"
| "state_weight Reported = 2"
| "state_weight _ = 0"

definition worker_weight :: "scan_worker \<Rightarrow> nat" where
  "worker_weight w = state_weight (wk_state w) + 7 * length (wk_tasks w)"

fun main_weight :: "main_state \<Rightarrow> nat" where
  "main_weight AtTick = 2"
| "main_weight (AtAssign _) = 11"
| "main_weight AtReceive = 3"
| "main_weight Draining = 1"
| "main_weight _ = 0"

definition range_weight :: "scan_range \<Rightarrow> nat" where
  "range_weight r = (if selectable r then 10 * (unat (rg_end r) - unat (rg_start r)) else 0)"

definition sync_weight :: "('l, 't) sync_net \<Rightarrow> nat" where
  "sync_weight s = sum_list (map range_weight (ranges s)) + main_weight (sy_main s) +
     sum_list (map worker_weight (sy_workers s)) + 2 * length (sy_results s)"

lemma sum_list_update_nat:
  fixes f :: "'a \<Rightarrow> nat"
  assumes "i < length xs"
  shows "sum_list (map f (xs[i := x])) + f (xs ! i) = sum_list (map f xs) + f x"
proof -
  have "xs = take i xs @ xs ! i # drop (Suc i) xs" using assms by (rule id_take_nth_drop)
  then have "sum_list (map f xs) =
      sum_list (map f (take i xs)) + (f (xs ! i) + sum_list (map f (drop (Suc i) xs)))"
    by (metis list.simps(9) map_append sum_list.Cons sum_list_append)
  then show ?thesis using assms by (simp add: upd_conv_take_nth_drop)
qed

lemma worker_step_weight:
  assumes "worker_step E dropped w w' sent"
  shows "worker_weight w' + 2 * length sent < worker_weight w"
  using assms by (rule worker_stepE) (auto simp: worker_weight_def)

lemma worker_sync_step_weight:
  assumes "i < length (sy_workers s)" "worker_step E d (sy_workers s ! i) w sent"
  shows "sync_weight (s\<lparr> sy_workers := (sy_workers s)[i := w], sy_results := sy_results s @ sent \<rparr>) < sync_weight s"
  using sum_list_update_nat [OF assms(1), of worker_weight w] worker_step_weight [OF assms(2)]
  by (simp add: sync_weight_def)

lemma mark_scanned_weight:
  "mark_scanned r rs = Some rs' \<Longrightarrow> sum_list (map range_weight rs') \<le> sum_list (map range_weight rs)"
  by (induction rs arbitrary: rs') (fastforce simp: range_weight_def selectable_def split: if_splits)+

lemma prepare_weight:
  assumes "split_at_documented split" "prepare_next_scan_range split rs = (rs', Some r)" "contiguous a rs b"
  shows "sum_list (map range_weight rs') + 10 \<le> sum_list (map range_weight rs)"
  using assms(1,2)
proof (cases rule: prepare_cases)
  case (whole xs r ys)
  then show ?thesis using assms(3) by (auto simp: range_weight_def selectable_def)
next
  case (part xs r ys p)
  then have "unat (rg_start r) < unat p" "unat p < unat (rg_end r)" by (simp_all add: word_less_nat_alt)
  with part show ?thesis by (auto simp: range_weight_def selectable_def)
qed simp

lemma main_step_weight:
  assumes "split_at_documented (se_split E)" "sync_inv a b s" "sync_main E s = Some s'"
  shows "sync_weight s' < sync_weight s \<or> sy_main s = AtTick \<and> \<not> is_worker_idle (sy_workers s)"
  using assms(3)
proof (cases rule: sync_main_cases)
  case (prepare rs r t)
  from assms(2) have "contiguous a (ranges s) b" by (simp add: sync_inv_def)
  from prepare_weight [OF assms(1) prepare(3) this] prepare show ?thesis by (simp add: sync_weight_def)
next
  case (assign t ws)
  obtain xs w ys where "sy_workers s = xs @ w # ys" "ws = xs @ w\<lparr> wk_tasks := wk_tasks w @ [t] \<rparr> # ys"
    using add_scan_task_split [OF assign(2)] by blast
  with assign show ?thesis by (simp add: sync_weight_def worker_weight_def)
next
  case (received place r res rest w)
  with mark_scanned_weight [OF process_results_ranges [OF received(3)]]
  show ?thesis by (auto simp: sync_weight_def)
qed (auto simp: sync_weight_def)

definition scans_ok :: "('o, 'd, 'i, 'n, 'r, 'k, 'l, 't) sync_env \<Rightarrow> bool" where
  "scans_ok E \<longleftrightarrow> (\<forall>a b. a < b \<longrightarrow> (\<exists>blocks \<in> se_serves E (a, b).
     scan (se_lib E) (se_frontiers E) (se_sapling_activation E) (se_keys E) blocks None \<noteq> None))"

lemma worker_can_move:
  assumes "scans_ok E" "\<forall>t \<in> set (worker_held w). historic_task t \<and> rg_start (tk_scan_range t) < rg_end (tk_scan_range t)"
    "wk_state w \<noteq> WorkerDied"
    "wk_state w \<noteq> WorkerExited" "dropped \<or> wk_state w \<noteq> Waiting \<or> wk_tasks w \<noteq> []"
  shows "\<exists>w' sent. worker_step E dropped w w' sent \<and> wk_state w' \<noteq> WorkerDied"
proof (cases "wk_state w")
  case Waiting
  show ?thesis
  proof (cases "wk_tasks w")
    case Nil
    with Waiting assms(5) show ?thesis using worker_step.exit [of dropped w E] by fastforce
  next
    case (Cons t ts)
    with Waiting show ?thesis using worker_step.receive_task [of w t ts E dropped] by fastforce
  qed
next
  case (TaskReceived t)
  then show ?thesis using worker_step.announce [of w t E dropped] by fastforce
next
  case (Scanning t)
  then have prev: "tk_previous_wallet_block t = None" and "rg_start (tk_scan_range t) < rg_end (tk_scan_range t)"
    using assms(2) by (simp_all add: worker_held_def historic_task_def)
  then obtain blocks results where "blocks \<in> se_serves E (block_range (tk_scan_range t))"
      "scan (se_lib E) (se_frontiers E) (se_sapling_activation E) (se_keys E) blocks None = Some results"
    using assms(1) by (fastforce simp: scans_ok_def)
  with prev show ?thesis using worker_step.report [of w t blocks E results dropped] Scanning by fastforce
next
  case Reported
  then show ?thesis using worker_step.free [of w E dropped] by fastforce
qed (use assms in auto)

lemma main_can_move:
  assumes inv: "sync_inv a b s" and ok: "inserts_ok E" "split_at_documented (se_split E)"
    and main: "sy_main s \<noteq> Finished" "sy_main s \<noteq> Panicked"
    and quiet: "\<forall>w \<in> set (sy_workers s). if sy_main s = Draining then wk_state w = WorkerExited
                 else wk_state w = Waiting"
  shows "\<exists>s'. sync_main E s = Some s' \<and> sync_weight s' < sync_weight s \<and> sy_main s' \<noteq> Panicked \<and>
           map wk_state (sy_workers s') = map wk_state (sy_workers s)"
proof -
  have nonempty: "sy_workers s \<noteq> []"
    using inv by (auto simp: sync_inv_def workers_inv_def SCAN_WORKER_POOLSIZE_def)
  then have idle: "is_worker_idle (sy_workers s)" if "sy_main s \<noteq> Draining"
    using quiet that by (cases "sy_workers s") (auto simp: is_worker_idle_def is_scanning_def)
  have "sync_main E s \<noteq> None"
    using main quiet
    by (cases "sy_main s")
       (auto simp: sync_main_def list_all_iff split: prod.splits option.splits if_splits)
  then obtain s' where s': "sync_main E s = Some s'" by blast
  from main_step_weight [OF ok(2) inv s'] idle have w: "sync_weight s' < sync_weight s" by auto
  from s' have "sy_main s' \<noteq> Panicked \<and> map wk_state (sy_workers s') = map wk_state (sy_workers s)"
  proof (cases rule: sync_main_cases)
    case (assign t ws)
    then show ?thesis by (auto elim: add_scan_task_split)
  next
    case (race t)
    with idle show ?thesis by simp
  next
    case (failed r res rest)
    with process_results_ok [OF inv ok(1)] show ?thesis by blast
  qed (use main in auto)
  with s' w show ?thesis by blast
qed

lemma none_died_map: "none_died s \<longleftrightarrow> WorkerDied \<notin> set (map wk_state (sy_workers s))"
  by (auto simp: none_died_def image_iff)

lemma outstanding_in_ranges:
  assumes "sync_inv a b s" "r \<in> set (outstanding s)"
  shows "\<exists>y \<in> set (ranges s). block_range y = block_range r"
proof -
  have "block_range r \<in># mset (map block_range (outstanding s))" using assms(2) by auto
  then have "block_range r \<in># mset (map block_range (ignored (ranges s)))"
    using assms(1) unfolding sync_inv_def tasks_inv_def by (blast dest: mset_subset_eqD)
  then show ?thesis by (auto simp: set_ignored)
qed

lemma task_nonempty:
  assumes "sync_inv a b s" "t \<in> set (tasks_held s)"
  shows "rg_start (tk_scan_range t) < rg_end (tk_scan_range t)"
proof -
  obtain y where "y \<in> set (ranges s)" "block_range y = block_range (tk_scan_range t)"
    using outstanding_in_ranges [OF assms(1), of "tk_scan_range t"] assms(2) by (auto simp: outstanding_def)
  with contiguous_bounds [of a "ranges s" b y] assms(1) show ?thesis
    by (simp add: sync_inv_def word_less_nat_alt)
qed

lemma sync_progress:
  assumes inv: "sync_inv a b s" "historic_inv s" "none_died s"
    and ok: "inserts_ok E" "split_at_documented (se_split E)" "scans_ok E"
    and main: "sy_main s \<noteq> Finished" "sy_main s \<noteq> Panicked"
  shows "\<exists>s'. sync_step E s s' \<and> sync_weight s' < sync_weight s \<and> none_died s' \<and> sy_main s' \<noteq> Panicked"
proof (cases "\<exists>i < length (sy_workers s). wk_state (sy_workers s ! i) \<noteq> WorkerExited \<and>
    (sy_main s = Draining \<or> wk_state (sy_workers s ! i) \<noteq> Waiting \<or> wk_tasks (sy_workers s ! i) \<noteq> [])")
  case True
  then obtain i where i: "i < length (sy_workers s)" and move: "wk_state (sy_workers s ! i) \<noteq> WorkerExited"
      "sy_main s = Draining \<or> wk_state (sy_workers s ! i) \<noteq> Waiting \<or> wk_tasks (sy_workers s ! i) \<noteq> []" by blast
  have "set (worker_held (sy_workers s ! i)) \<subseteq> set (tasks_held s)" using i by (auto simp: tasks_held_def)
  then have "\<forall>t \<in> set (worker_held (sy_workers s ! i)). historic_task t \<and>
      rg_start (tk_scan_range t) < rg_end (tk_scan_range t)"
    using inv(2) task_nonempty [OF inv(1)] by (auto simp: historic_inv_def)
  moreover have "wk_state (sy_workers s ! i) \<noteq> WorkerDied" using inv(3) i by (auto simp: none_died_def)
  ultimately obtain w sent where step: "worker_step E (sy_main s = Draining) (sy_workers s ! i) w sent"
      and alive: "wk_state w \<noteq> WorkerDied"
    using worker_can_move [OF ok(3)] move by blast
  let ?s = "s\<lparr> sy_workers := (sy_workers s)[i := w], sy_results := sy_results s @ sent \<rparr>"
  have "none_died ?s" using inv(3) alive set_update_subset_insert [of "sy_workers s" i w]
    by (auto simp: none_died_def)
  with sync_step.worker [OF i step] worker_sync_step_weight [OF i step] main(2) show ?thesis
    by (intro exI [of _ ?s]) simp
next
  case False
  have "if sy_main s = Draining then wk_state w = WorkerExited else wk_state w = Waiting"
    if "w \<in> set (sy_workers s)" for w
  proof -
    from that obtain i where "i < length (sy_workers s)" "w = sy_workers s ! i" by (auto simp: in_set_conv_nth)
    moreover have "sy_main s = Draining" if "wk_state w = WorkerExited"
      using inv(1) that \<open>w \<in> set (sy_workers s)\<close> main by (auto simp: sync_inv_def workers_inv_def)
    ultimately show ?thesis using False by auto
  qed
  then obtain s' where "sync_main E s = Some s'" "sync_weight s' < sync_weight s" "sy_main s' \<noteq> Panicked"
      "map wk_state (sy_workers s') = map wk_state (sy_workers s)"
    using main_can_move [OF inv(1) ok(1,2) main] by blast
  with inv(3) show ?thesis by (metis none_died_map sync_step.main)
qed

lemma sync_finishes_from:
  assumes "sync_inv a b s" "historic_inv s" "none_died s" "sy_main s \<noteq> Panicked"
    and ok: "inserts_ok E" "split_at_documented (se_split E)" "scans_ok E" "serves_in_range E" "b + 10 < 2 ^ 32"
  shows "\<exists>s'. sync_reachable E s s' \<and> sy_main s' = Finished \<and> none_died s'"
  using assms(1-4)
proof (induction "sync_weight s" arbitrary: s rule: less_induct)
  case less
  show ?case
  proof (cases "sy_main s = Finished")
    case True
    with less show ?thesis by blast
  next
    case False
    with less.prems ok obtain s' where s': "sync_step E s s'" "sync_weight s' < sync_weight s" "none_died s'"
        "sy_main s' \<noteq> Panicked" using sync_progress by blast
    then have r: "sync_reachable E s s'" by blast
    have "sync_inv a b s'" "historic_inv s'"
      using sync_reachable_inv [OF ok(2,5) less.prems(1) r] sync_reachable_historic [OF ok(2,4) less.prems(2) r] .
    from less.hyps [OF s'(2) this s'(3,4)] s'(1) show ?thesis by (meson converse_rtranclp_into_rtranclp)
  qed
qed

end
