(* ===== verification/Sync_Properties.thy ===== *)
theory Sync_Properties
  imports Sync_Engine_Laws
begin

text \<open>
  What a sync guarantees, and a concrete run: \<open>plain_env\<close> is a server with a chain of empty blocks, on which a sync
  finishes and on which the race of the main loop with its workers is shown.
\<close>

section \<open>A server with empty blocks\<close>

definition plain_split :: split_at where
  "plain_split r p =
     (if rg_start r < p \<and> p < rg_end r then Some (r\<lparr> rg_end := p \<rparr>, r\<lparr> rg_start := p \<rparr>) else None)"

definition plain_pool :: "('raw, unit, unit, unit, unit, unit, unit, unit) pool_lib" where
  "plain_pool = \<lparr> pl_parse = (\<lambda>_. Some ()), pl_domain = (\<lambda>_ _. ()),
     pl_try_decrypt = (\<lambda>_ outs. map (\<lambda>_. None) outs), pl_leaf = (\<lambda>_. ()),
     pl_note_nf = (\<lambda>_ _ _. []), pl_nullifier = Some \<rparr>"

definition plain_lib :: "(unit, unit, unit, unit, unit, unit, unit) compact_lib" where
  "plain_lib = \<lparr> cl_height = (\<lambda>b. ucast (cb_height b)), cl_hash = cb_hash, cl_prev_hash = cb_prev_hash,
     cl_txid = ct_hash, cl_sapling = plain_pool, cl_orchard = plain_pool \<rparr>"

definition plain_block :: "nat \<Rightarrow> scan_block" where
  "plain_block h = \<lparr> cb_height = word_of_nat h, cb_hash = replicate (Suc h) 0, cb_prev_hash = replicate h 0,
     cb_time = 0, cb_header = [], cb_vtx = [],
     cb_chain_metadata = Some \<lparr> cm_sapling_commitment_tree_size = 0, cm_orchard_commitment_tree_size = 0 \<rparr> \<rparr>"

definition plain_env :: "(unit, unit, unit, unit, unit, unit, unit, unit) sync_env" where
  "plain_env = \<lparr> se_split = plain_split, se_lib = plain_lib, se_frontiers = (\<lambda>_. (0, 0)),
     se_sapling_activation = 1, se_keys = \<lparr> sks_sapling = [], sks_orchard = [] \<rparr>,
     se_serves = (\<lambda>(a, b). {map plain_block [unat a..<unat b]}),
     se_insert_sapling = (\<lambda>t _ _. Some t), se_insert_orchard = (\<lambda>t _ _. Some t) \<rparr>"

definition plain_wallet :: "unit sync_wallet" where
  "plain_wallet = \<lparr> sw_birthday = 3, sw_scan_ranges = [], sw_wallet_blocks = Map.empty,
     sw_nullifier_map = new_nullifier_map, sw_sapling_tree = (), sw_orchard_tree = () \<rparr>"

lemma u32_bound: "unat (b :: u32) < 2 ^ 32"
  by (rule order_less_le_trans [OF unsigned_less]) simp

lemma plain_height: "h < 2 ^ 32 \<Longrightarrow> cl_height plain_lib (plain_block h) = word_of_nat h"
  by (rule word_unat_eq_iff [THEN iffD2])
     (simp add: plain_lib_def plain_block_def unsigned_ucast_eq take_bit_nat_eq_self unat_of_nat)

lemma plain_continuity:
  "a + n < 2 ^ 32 \<Longrightarrow> hs = None \<and> ps = None \<or> hs = Some (word_of_nat a - 1) \<and> ps = Some (replicate a 0) \<Longrightarrow>
   continuity_loop plain_lib hs ps (map plain_block [a..<a + n]) = Some ()"
proof (induction n arbitrary: a hs ps)
  case (Suc n)
  have h: "cl_height plain_lib (plain_block a) = word_of_nat a" using Suc.prems by (simp add: plain_height)
  have "[a..<a + Suc n] = a # [Suc a..<Suc a + n]" by (simp add: upt_rec)
  moreover have "continuity_loop plain_lib (Some (word_of_nat a)) (Some (replicate (Suc a) 0))
      (map plain_block [Suc a..<Suc a + n]) = Some ()"
    using Suc.prems by (intro Suc.IH) auto
  ultimately show ?case using Suc.prems
    by (auto simp: h simp del: upt_Suc) (auto simp: plain_lib_def plain_block_def)
qed simp

lemma plain_add_blocks: "add_blocks plain_lib (map plain_block hs) rs = Some rs"
  by (induction hs) (auto simp: add_block_def plain_block_def)

lemma plain_scan_blocks:
  "ss_sapling_tree_size s = 0 \<Longrightarrow> ss_orchard_tree_size s = 0 \<Longrightarrow>
   scan_blocks plain_lib keys (map plain_block hs) s \<noteq> None"
proof (induction hs arbitrary: s)
  case (Cons h hs)
  let ?wb = "scanned_wallet_block plain_lib (plain_block h) 0 0"
  have "cb_vtx (plain_block h) = []" "check_tree_size (plain_block h) ?wb = Some ()"
    by (simp_all add: plain_block_def check_tree_size_def scanned_wallet_block_def)
  with Cons show ?case by (simp add: Let_def)
qed simp

lemma plain_env_ok: "split_at_documented (se_split plain_env)" "inserts_ok plain_env"
    "serves_in_range plain_env" "scans_ok plain_env" "wallet_ready plain_wallet"
proof -
  show "split_at_documented (se_split plain_env)" "inserts_ok plain_env"
    by (simp_all add: split_at_documented_def plain_env_def plain_split_def inserts_ok_def)
  have "a \<le> word_of_nat h \<and> word_of_nat h < b" if "unat a \<le> h" "h < unat b" for a b :: u32 and h
  proof -
    have "h < 2 ^ 32" using that(2) u32_bound [of b] by simp
    then have "unat (word_of_nat h :: u32) = h" by (simp add: unat_of_nat)
    with that show ?thesis by (simp add: word_le_nat_alt word_less_nat_alt)
  qed
  moreover have "cl_height plain_lib (plain_block h) = word_of_nat h" if "h < unat b" for h and b :: u32
    using that u32_bound [of b] by (intro plain_height) simp
  ultimately show "serves_in_range plain_env" by (auto simp: serves_in_range_def plain_env_def)
  have scan: "scan plain_lib (\<lambda>_. (0, 0)) 1 \<lparr> sks_sapling = [], sks_orchard = [] \<rparr>
      (map plain_block [unat a..<unat b]) None \<noteq> None" if "a < b" for a b :: u32
  proof -
    have lt: "unat a < unat b" using that by (simp add: word_less_nat_alt)
    then have eq: "[unat a..<unat b] = unat a # [Suc (unat a)..<unat b]" by (simp add: upt_conv_Cons)
    have init: "initial_scan_data_new plain_lib (\<lambda>_. (0, 0)) 1 (plain_block (unat a)) None =
        Some \<lparr> is_previous_block = None, is_sapling_initial_tree_size = 0, is_orchard_initial_tree_size = 0 \<rparr>"
      by (simp add: initial_scan_data_new_def plain_block_def u32_try_from_def checked_sub_def)
    have "continuity_loop plain_lib None None (map plain_block [unat a..<unat a + (unat b - unat a)]) = Some ()"
      using lt u32_bound [of b] by (intro plain_continuity) auto
    then have "check_continuity plain_lib (map plain_block [unat a..<unat b]) None = Some ()"
      using lt by (simp add: check_continuity_def)
    moreover obtain runners where
      "trial_decrypt plain_lib \<lparr> sks_sapling = [], sks_orchard = [] \<rparr> (map plain_block [unat a..<unat b]) = Some runners"
      by (auto simp: trial_decrypt_def runners_for_keys_def runner_new_def batch_new_def plain_add_blocks
          runners_flush_def runner_flush_def batch_is_empty_def)
    moreover obtain s where "scan_blocks plain_lib \<lparr> sks_sapling = [], sks_orchard = [] \<rparr>
        (map plain_block [unat a..<unat b]) (initial_scan_state runners \<lparr> is_previous_block = None,
          is_sapling_initial_tree_size = 0, is_orchard_initial_tree_size = 0 \<rparr>) = Some s"
      using plain_scan_blocks [of "initial_scan_state runners \<lparr> is_previous_block = None,
          is_sapling_initial_tree_size = 0, is_orchard_initial_tree_size = 0 \<rparr>"]
      by (fastforce simp: initial_scan_state_def)
    ultimately have "scan_compact_blocks plain_lib \<lparr> sks_sapling = [], sks_orchard = [] \<rparr>
        (map plain_block [unat a..<unat b])
        \<lparr> is_previous_block = None, is_sapling_initial_tree_size = 0, is_orchard_initial_tree_size = 0 \<rparr> \<noteq> None"
      by (simp add: scan_compact_blocks_def)
    with init show ?thesis by (auto simp: scan_def eq)
  qed
  then show "scans_ok plain_env" by (auto simp: scans_ok_def plain_env_def)
  show "wallet_ready plain_wallet" by (auto simp: wallet_ready_def plain_wallet_def)
qed

lemma distinct_mset_subset:
  assumes "distinct ys" "mset xs \<subseteq># mset ys"
  shows "distinct xs"
proof -
  obtain zs where "mset ys = mset (xs @ zs)"
    using assms(2) by (metis ex_mset mset_append mset_subset_eq_exists_conv)
  with assms(1) show ?thesis using mset_eq_imp_distinct_iff by fastforce
qed

section \<open>Properties\<close>


text \<open>The tasks of a sync under way never overlap: their ranges are distinct ranges of the wallet's list,
  and none is larger than a batch.\<close>

theorem sync_tasks_disjoint:
  assumes "split_at_documented (se_split E)" "wallet_ready w" "unat tip + 11 < 2 ^ 32"
    and "sync_start E tip w = Some s0" "sync_reachable E s0 s"
  shows "distinct (map block_range (outstanding s)) \<and>
    (\<forall>r \<in> set (outstanding s). block_range r \<in> block_range ` set (sw_scan_ranges (sy_wallet s)) \<and>
       unat (rg_end r) - unat (rg_start r) \<le> unat SYNC_BATCH_SIZE)"
proof -
  have inv: "sync_inv (first_height (se_sapling_activation E) w) (unat tip + 1) s"
    using sync_reachable_inv [OF assms(1) _ sync_start_inv [OF assms(4,2,3)] assms(5)] assms(3) by simp
  then have "distinct (map block_range (ignored (ranges s)))"
    using contiguous_distinct by (auto simp: sync_inv_def ignored_def distinct_map_filter)
  moreover have "mset (map block_range (outstanding s)) \<subseteq># mset (map block_range (ignored (ranges s)))"
    using inv unfolding sync_inv_def tasks_inv_def by blast
  ultimately have "distinct (map block_range (outstanding s))"
    by (rule distinct_mset_subset)
  moreover have "\<forall>r \<in> set (outstanding s). unat (rg_end r) - unat (rg_start r) \<le> unat SYNC_BATCH_SIZE"
    using inv by (simp add: sync_inv_def tasks_inv_def SYNC_BATCH_SIZE_def)
  moreover have "\<forall>r \<in> set (outstanding s). block_range r \<in> block_range ` set (ranges s)"
    using outstanding_in_ranges [OF inv] by (metis (no_types, lifting) image_eqI)
  ultimately show ?thesis by blast
qed



text \<open>C28. No block is known to the next batch: in every state of a sync the wallet holds no blocks, and every
  task is made without a previous block, so the continuity of two batches is never checked.\<close>

theorem previous_block_never_known:
  assumes "split_at_documented (se_split E)" "serves_in_range E" "wallet_ready w"
    and "sync_start E tip w = Some s0" "sync_reachable E s0 s"
  shows "sw_wallet_blocks (sy_wallet s) = Map.empty \<and>
    list_all (\<lambda>t. tk_previous_wallet_block t = None) (tasks_held s)"
  using sync_reachable_historic [OF assms(1,2) sync_start_historic [OF assms(4,3)] assms(5)]
  by (simp add: historic_inv_def historic_task_def list_all_iff)

text \<open>C29. A wallet that is synced to the height of the chain cannot be synced again until there is a new block:
  the next sync panics.\<close>

theorem resync_without_new_block_panics:
  assumes "sync_start E tip w = Some s0" "sync_reachable E s0 s" "sy_main s = Finished"
    and "split_at_documented (se_split E)" "wallet_ready w" "unat tip + 11 < 2 ^ 32"
  shows "sync_start E tip (sy_wallet s) = None"
proof -
  have "sync_inv (first_height (se_sapling_activation E) w) (unat tip + 1) s"
    using sync_reachable_inv [OF assms(4) _ sync_start_inv [OF assms(1,5,6)] assms(2)] assms(6) by simp
  then have c: "contiguous (first_height (se_sapling_activation E) w) (ranges s) (unat tip + 1)"
    by (simp add: sync_inv_def)
  have "sync_inv (first_height (se_sapling_activation E) w) (unat tip + 1) s0"
    by (rule sync_start_inv [OF assms(1,5,6)])
  then have "contiguous (first_height (se_sapling_activation E) w) (ranges s0) (unat tip + 1)"
    by (simp add: sync_inv_def)
  moreover have "ranges s0 \<noteq> []"
    using assms(1) by (auto simp: sync_start_def update_scan_ranges_def Let_def split: if_splits)
  ultimately have "first_height (se_sapling_activation E) w < unat tip + 1"
    using contiguous_le by (cases "ranges s0") fastforce+
  with c have "ranges s \<noteq> []" by auto
  from contiguous_ends [OF c this] have "rg_end (last (ranges s)) > tip"
    by (simp add: word_less_nat_alt)
  with \<open>ranges s \<noteq> []\<close> show ?thesis by (simp add: sync_start_def update_scan_ranges_def)
qed

section \<open>Dead workers\<close>

text \<open>A worker whose scan panics stays marked as scanning. When all workers have died the main loop polls for ever.\<close>

lemma dead_workers_step:
  assumes "sync_step E s s'" "\<forall>w \<in> set (sy_workers s). wk_state w = WorkerDied" "sy_main s \<in> {AtTick, AtReceive, Panicked}"
  shows "(\<forall>w \<in> set (sy_workers s'). wk_state w = WorkerDied) \<and> sy_main s' \<in> {AtTick, AtReceive, Panicked}"
  using assms(1)
proof (rule sync_stepE)
  assume "sync_main E s = Some s'"
  then show ?thesis
    by (cases rule: sync_main_cases)
       (use assms(2,3) in \<open>auto simp: is_worker_idle_def list_ex_iff is_scanning_def\<close>)
next
  fix i w sent
  assume "i < length (sy_workers s)" "worker_step E (sy_main s = Draining) (sy_workers s ! i) w sent"
  then show ?thesis using assms(2) worker_step_not_ended by (metis nth_mem)
qed

lemma dead_workers_hang:
  assumes "sync_reachable E s s'" "\<forall>w \<in> set (sy_workers s). wk_state w = WorkerDied" "sy_main s \<in> {AtTick, AtReceive}"
  shows "sy_main s' \<noteq> Finished"
proof -
  have "(\<forall>w \<in> set (sy_workers s'). wk_state w = WorkerDied) \<and> sy_main s' \<in> {AtTick, AtReceive, Panicked}"
    using assms(1)
  proof induction
    case base
    with assms(2,3) show ?case by auto
  next
    case (step y z)
    then show ?case using dead_workers_step by blast
  qed
  then show ?thesis by auto
qed

section \<open>A run that races\<close>

definition demo_state :: "scan_range list \<Rightarrow> scan_worker list \<Rightarrow> main_state \<Rightarrow> (unit, unit) sync_net" where
  "demo_state rs ws m =
     \<lparr> sy_wallet = plain_wallet\<lparr> sw_scan_ranges := rs \<rparr>, sy_workers = ws, sy_results = [], sy_main = m \<rparr>"

abbreviation demo_range :: "block_height \<Rightarrow> block_height \<Rightarrow> scan_priority \<Rightarrow> scan_range" where
  "demo_range a b p \<equiv> \<lparr> rg_start = a, rg_end = b, rg_priority = p \<rparr>"

abbreviation demo_task :: "block_height \<Rightarrow> block_height \<Rightarrow> scan_task" where
  "demo_task a b \<equiv> \<lparr> tk_scan_range = demo_range a b PriorityHistoric, tk_previous_wallet_block = None \<rparr>"

abbreviation demo_worker :: "scan_task list \<Rightarrow> worker_state \<Rightarrow> scan_worker" where
  "demo_worker q st \<equiv> \<lparr> wk_tasks = q, wk_state = st \<rparr>"

lemma demo_main:
  "sync_main plain_env (demo_state rs ws m) = Some s \<Longrightarrow> sync_reachable plain_env (demo_state rs ws m) s"
  by (blast intro: sync_step.main)

lemma demo_worker_step:
  assumes "worker_step plain_env (m = Draining) (ws ! i) w []" "i < length ws"
  shows "sync_reachable plain_env (demo_state rs ws m) (demo_state rs (ws[i := w]) m)"
proof -
  have "sync_step plain_env (demo_state rs ws m) (demo_state rs (ws[i := w]) m)"
    using sync_step.worker [of i "demo_state rs ws m" plain_env w "[]"] assms by (simp add: demo_state_def)
  then show ?thesis by blast
qed

lemma demo_tick:
  assumes "\<not> is_scanning w0 \<or> \<not> is_scanning w1" "list_all (\<lambda>r. \<not> selectable r) pre"
    and "a < a + 10" "a + 10 < b"
  shows "sync_reachable plain_env (demo_state (pre @ [demo_range a b PriorityHistoric]) [w0, w1] AtTick)
    (demo_state (pre @ [demo_range a (a + 10) PriorityIgnored, demo_range (a + 10) b PriorityHistoric]) [w0, w1]
       (AtAssign (demo_task a (a + 10))))"
proof (rule demo_main)
  have "prepare_next_scan_range plain_split (pre @ [demo_range a b PriorityHistoric]) =
    (pre @ [demo_range a (a + 10) PriorityIgnored, demo_range (a + 10) b PriorityHistoric],
     Some (demo_range a (a + 10) PriorityHistoric))"
    using assms(2-4) by (induction pre) (auto simp: plain_split_def SYNC_BATCH_SIZE_def selectable_def)
  with assms(1) show "sync_main plain_env (demo_state (pre @ [demo_range a b PriorityHistoric]) [w0, w1] AtTick) =
    Some (demo_state (pre @ [demo_range a (a + 10) PriorityIgnored, demo_range (a + 10) b PriorityHistoric])
       [w0, w1] (AtAssign (demo_task a (a + 10))))"
    by (auto simp: demo_state_def sync_main_def is_worker_idle_def plain_env_def get_wallet_block_def plain_wallet_def)
qed

lemma demo_assign:
  assumes "add_scan_task t ws = Some ws'"
  shows "sync_reachable plain_env (demo_state rs ws (AtAssign t)) (demo_state rs ws' AtTick)"
proof -
  have "sync_reachable plain_env (demo_state rs ws (AtAssign t)) (demo_state rs ws' AtReceive)"
    using assms by (intro demo_main) (simp add: demo_state_def sync_main_def)
  moreover have "sync_reachable plain_env (demo_state rs ws' AtReceive) (demo_state rs ws' AtTick)"
    by (rule demo_main) (simp add: demo_state_def sync_main_def receive_result_def)
  ultimately show ?thesis by (rule rtranclp_trans)
qed

lemma demo_start:
  "sync_start plain_env 40 plain_wallet =
   Some (demo_state [demo_range 3 41 PriorityHistoric] [demo_worker [] Waiting, demo_worker [] Waiting] AtTick)"
proof -
  have "update_scan_ranges 40 1 3 [] = Some [demo_range 3 41 PriorityHistoric]"
    by (simp add: update_scan_ranges_def)
  moreover have "spawn_workers = [demo_worker [] Waiting, demo_worker [] Waiting]"
    by (simp add: spawn_workers_def SCAN_WORKER_POOLSIZE_def numeral_2_eq_2)
  moreover have "sync_get_birthday plain_wallet = 3" "sw_scan_ranges plain_wallet = []"
    "se_sapling_activation plain_env = 1"
    by (simp_all add: sync_get_birthday_def plain_wallet_def plain_env_def)
  ultimately show ?thesis by (simp add: sync_start_def demo_state_def)
qed

lemma demo_race:
  "\<exists>s0 s s'. sync_start plain_env 40 plain_wallet = Some s0 \<and> sync_reachable plain_env s0 s \<and>
     sync_main plain_env s = Some s' \<and> sy_main s' = Panicked"
proof -
  let ?t1 = "demo_task 3 13" and ?t2 = "demo_task 13 23" and ?t3 = "demo_task 23 33"
  let ?w = "demo_worker [] Waiting"
  let ?r0 = "[demo_range 3 41 PriorityHistoric]"
  let ?r1 = "[demo_range 3 13 PriorityIgnored, demo_range 13 41 PriorityHistoric]"
  let ?r2 = "[demo_range 3 13 PriorityIgnored, demo_range 13 23 PriorityIgnored, demo_range 23 41 PriorityHistoric]"
  let ?r3 = "[demo_range 3 13 PriorityIgnored, demo_range 13 23 PriorityIgnored, demo_range 23 33 PriorityIgnored,
      demo_range 33 41 PriorityHistoric]"
  let ?run = "sync_reachable plain_env"
  have a1: "?run (demo_state ?r0 [?w, ?w] AtTick) (demo_state ?r1 [?w, ?w] (AtAssign ?t1))"
    using demo_tick [of ?w ?w "[]" 3 41] by (simp add: is_scanning_def)
  have a2: "?run (demo_state ?r1 [?w, ?w] (AtAssign ?t1)) (demo_state ?r1 [demo_worker [?t1] Waiting, ?w] AtTick)"
    by (rule demo_assign) (simp add: add_scan_task_def is_scanning_def)
  have a3: "?run (demo_state ?r1 [demo_worker [?t1] Waiting, ?w] AtTick)
      (demo_state ?r1 [demo_worker [] (TaskReceived ?t1), ?w] AtTick)"
    using demo_worker_step [of AtTick "[demo_worker [?t1] Waiting, ?w]" 0 "demo_worker [] (TaskReceived ?t1)"]
      worker_step.receive_task [of "demo_worker [?t1] Waiting" ?t1 "[]" plain_env False] by simp
  have a4: "?run (demo_state ?r1 [demo_worker [] (TaskReceived ?t1), ?w] AtTick)
      (demo_state ?r1 [demo_worker [] (Scanning ?t1), ?w] AtTick)"
    using demo_worker_step [of AtTick "[demo_worker [] (TaskReceived ?t1), ?w]" 0 "demo_worker [] (Scanning ?t1)"]
      worker_step.announce [of "demo_worker [] (TaskReceived ?t1)" ?t1 plain_env False] by simp
  have a5: "?run (demo_state ?r1 [demo_worker [] (Scanning ?t1), ?w] AtTick)
      (demo_state ?r2 [demo_worker [] (Scanning ?t1), ?w] (AtAssign ?t2))"
    using demo_tick [of "demo_worker [] (Scanning ?t1)" ?w "[demo_range 3 13 PriorityIgnored]" 13 41]
    by (simp add: is_scanning_def selectable_def)
  have a6: "?run (demo_state ?r2 [demo_worker [] (Scanning ?t1), ?w] (AtAssign ?t2))
      (demo_state ?r2 [demo_worker [] (Scanning ?t1), demo_worker [?t2] Waiting] AtTick)"
    by (rule demo_assign) (simp add: add_scan_task_def is_scanning_def)
  have a7: "?run (demo_state ?r2 [demo_worker [] (Scanning ?t1), demo_worker [?t2] Waiting] AtTick)
      (demo_state ?r2 [demo_worker [] (Scanning ?t1), demo_worker [] (TaskReceived ?t2)] AtTick)"
    using demo_worker_step [of AtTick "[demo_worker [] (Scanning ?t1), demo_worker [?t2] Waiting]" 1
        "demo_worker [] (TaskReceived ?t2)"]
      worker_step.receive_task [of "demo_worker [?t2] Waiting" ?t2 "[]" plain_env False] by simp
  have a8: "?run (demo_state ?r2 [demo_worker [] (Scanning ?t1), demo_worker [] (TaskReceived ?t2)] AtTick)
      (demo_state ?r3 [demo_worker [] (Scanning ?t1), demo_worker [] (TaskReceived ?t2)] (AtAssign ?t3))"
    using demo_tick [of "demo_worker [] (Scanning ?t1)" "demo_worker [] (TaskReceived ?t2)"
        "[demo_range 3 13 PriorityIgnored, demo_range 13 23 PriorityIgnored]" 23 41]
    by (simp add: is_scanning_def selectable_def)
  have a9: "?run (demo_state ?r3 [demo_worker [] (Scanning ?t1), demo_worker [] (TaskReceived ?t2)] (AtAssign ?t3))
      (demo_state ?r3 [demo_worker [] (Scanning ?t1), demo_worker [] (Scanning ?t2)] (AtAssign ?t3))"
    using demo_worker_step [of "AtAssign ?t3" "[demo_worker [] (Scanning ?t1), demo_worker [] (TaskReceived ?t2)]" 1
        "demo_worker [] (Scanning ?t2)"]
      worker_step.announce [of "demo_worker [] (TaskReceived ?t2)" ?t2 plain_env False] by simp
  let ?s = "demo_state ?r3 [demo_worker [] (Scanning ?t1), demo_worker [] (Scanning ?t2)] (AtAssign ?t3)"
  have "?run (demo_state ?r0 [?w, ?w] AtTick) ?s"
    using a1 a2 a3 a4 a5 a6 a7 a8 a9 by (rule rtranclp_trans [THEN rtranclp_trans, THEN rtranclp_trans, THEN rtranclp_trans,
        THEN rtranclp_trans, THEN rtranclp_trans, THEN rtranclp_trans, THEN rtranclp_trans])
  moreover have "sync_main plain_env ?s = Some (?s\<lparr> sy_main := Panicked \<rparr>)"
    by (simp add: sync_main_def demo_state_def add_scan_task_def is_scanning_def)
  ultimately show ?thesis using demo_start
    by (intro exI [of _ "demo_state ?r0 [?w, ?w] AtTick"] exI [of _ ?s] exI [of _ "?s\<lparr> sy_main := Panicked \<rparr>"]) simp
qed

section \<open>Witnesses\<close>

abbreviation demo_first :: "(unit, unit) sync_net" where
  "demo_first \<equiv> demo_state [demo_range 3 41 PriorityHistoric] [demo_worker [] Waiting, demo_worker [] Waiting] AtTick"

abbreviation demo_second :: "(unit, unit) sync_net" where
  "demo_second \<equiv> demo_state [demo_range 3 13 PriorityIgnored, demo_range 13 41 PriorityHistoric]
     [demo_worker [] Waiting, demo_worker [] Waiting] (AtAssign (demo_task 3 13))"

lemma demo_second_reachable: "sync_reachable plain_env demo_first demo_second"
  using demo_tick [of "demo_worker [] Waiting" "demo_worker [] Waiting" "[]" 3 41] by (simp add: is_scanning_def)

lemma demo_tip: "unat (40 :: block_height) + 11 < 2 ^ 32"
  by simp

lemma demo_finishes:
  "\<exists>s. sync_reachable plain_env demo_first s \<and> sy_main s = Finished \<and> none_died s"
proof (rule sync_finishes_from)
  show "sync_inv (first_height (se_sapling_activation plain_env) plain_wallet) (unat (40 :: block_height) + 1) demo_first"
    by (rule sync_start_inv [OF demo_start plain_env_ok(5) demo_tip])
  show "historic_inv demo_first" by (rule sync_start_historic [OF demo_start plain_env_ok(5)])
qed (simp_all add: plain_env_ok none_died_def demo_state_def)


theorem sync_tasks_disjoint_witness:
  "outstanding demo_second = [demo_range 3 13 PriorityHistoric] \<and>
   list_all (\<lambda>r. unat (rg_end r) - unat (rg_start r) \<le> unat SYNC_BATCH_SIZE) (outstanding demo_second)"
  using sync_tasks_disjoint [OF plain_env_ok(1,5) demo_tip demo_start demo_second_reachable]
  by (simp add: list_all_iff outstanding_def tasks_held_def demo_state_def worker_held_def)



theorem previous_block_never_known_witness:
  "tasks_held demo_second = [demo_task 3 13] \<and> sw_wallet_blocks (sy_wallet demo_second) = Map.empty"
  using previous_block_never_known [OF plain_env_ok(1,3,5) demo_start demo_second_reachable]
  by (simp add: tasks_held_def demo_state_def worker_held_def)

theorem resync_without_new_block_panics_witness:
  "\<exists>s. sync_reachable plain_env demo_first s \<and> sy_main s = Finished \<and> sync_start plain_env 40 (sy_wallet s) = None"
proof -
  obtain s where s: "sync_reachable plain_env demo_first s" "sy_main s = Finished"
    using demo_finishes by blast
  from resync_without_new_block_panics [OF demo_start this plain_env_ok(1,5) demo_tip] s show ?thesis by blast
qed

end
