(* ===== verification/Text_Format.thy ===== *)
theory Text_Format
  imports Zingo_Prelude
begin

text \<open>
  What the presentation code uses of the standard library and of the \<open>json\<close> crate: printing of numbers, stable
  sorting with a comparison function, results, and the values of the crate with the access by key it documents (a missing key reads as
  \<open>Null\<close>, an assignment adds or replaces the key).
\<close>

section \<open>Numbers and lines\<close>

fun digit :: "nat \<Rightarrow> char" where
  "digit n = char_of (48 + n mod 10)"

fun dec :: "nat \<Rightarrow> string" where
  "dec n = (if n < 10 then [digit n] else dec (n div 10) @ [digit n])"

declare dec.simps [simp del]

definition u64_to_string :: "u64 \<Rightarrow> string" where
  "u64_to_string v = dec (unat v)"

definition u32_to_string :: "u32 \<Rightarrow> string" where
  "u32_to_string v = dec (unat v)"

definition newline :: string where
  "newline = [CHR 0x0A]"

text \<open>A format string of labelled lines between braces: the opening brace, the lines with their indentation,
  and the closing brace.\<close>

definition labelled_lines :: "string \<Rightarrow> string \<Rightarrow> string \<Rightarrow> (string \<times> string) list \<Rightarrow> string" where
  "labelled_lines opening indent closing fields =
     opening @ newline @ concat (map (\<lambda>(label, v). indent @ label @ '': '' @ v @ newline) fields) @ closing"

section \<open>Results\<close>

definition ok_or :: "'a option \<Rightarrow> 'e \<Rightarrow> 'e + 'a" where
  "ok_or x e = (case x of Some v \<Rightarrow> Inr v | None \<Rightarrow> Inl e)"

definition res_bind :: "'e + 'a \<Rightarrow> ('a \<Rightarrow> 'e + 'b) \<Rightarrow> 'e + 'b" where
  "res_bind r f = (case r of Inl e \<Rightarrow> Inl e | Inr x \<Rightarrow> f x)"

definition res_ok :: "'e + 'a \<Rightarrow> 'a option" where
  "res_ok r = (case r of Inl _ \<Rightarrow> None | Inr x \<Rightarrow> Some x)"

lemma res_simps [simp]:
  "ok_or (Some v) e = Inr v" "ok_or None e = Inl e"
  "res_bind (Inr x) f = f x" "res_bind (Inl e) f = Inl e"
  "res_ok (Inr x) = Some x" "res_ok (Inl e) = None"
  by (simp_all add: ok_or_def res_bind_def res_ok_def)

section \<open>Sorting\<close>

datatype ordering = Less | Equal | Greater

fun insert_by :: "('a \<Rightarrow> 'a \<Rightarrow> ordering) \<Rightarrow> 'a \<Rightarrow> 'a list \<Rightarrow> 'a list" where
  "insert_by cmp x [] = [x]"
| "insert_by cmp x (y # ys) = (if cmp x y = Greater then y # insert_by cmp x ys else x # y # ys)"

definition sort_by :: "('a \<Rightarrow> 'a \<Rightarrow> ordering) \<Rightarrow> 'a list \<Rightarrow> 'a list" where
  "sort_by cmp xs = foldr (insert_by cmp) xs []"

definition compare :: "'a::linorder \<Rightarrow> 'a \<Rightarrow> ordering" where
  "compare x y = (if x < y then Less else if x = y then Equal else Greater)"

lemma compare_simps [simp]:
  "compare x y = Less \<longleftrightarrow> x < y" "compare x y = Equal \<longleftrightarrow> x = y" "compare x y = Greater \<longleftrightarrow> y < x"
  by (auto simp: compare_def)

text \<open>Sorting by a comparison function that compares keys is the library's stable sort by these keys.\<close>

lemma insert_by_key:
  assumes "\<And>x y. cmp x y = Greater \<longleftrightarrow> f y < f x"
  shows "insert_by cmp x ys = insort_key f x ys"
  by (induction ys) (auto simp: assms)

lemma sort_by_key:
  assumes "\<And>x y. cmp x y = Greater \<longleftrightarrow> f y < (f x :: 'b::linorder)"
  shows "sort_by cmp xs = sort_key f xs"
proof -
  have "insert_by cmp = insort_key f" using insert_by_key [of cmp f, OF assms] by (intro ext)
  then show ?thesis by (simp add: sort_by_def sort_key_def)
qed

section \<open>JSON values\<close>

datatype json_number = JsonInt int | JsonFloat f64_bits

datatype json_value =
    JsonNull
  | JsonBoolean bool
  | JsonNumber json_number
  | JsonString string
  | JsonArray "json_value list"
  | JsonObject "(string \<times> json_value) list"

definition json_u64 :: "u64 \<Rightarrow> json_value" where
  "json_u64 v = JsonNumber (JsonInt (uint v))"

definition json_u32 :: "u32 \<Rightarrow> json_value" where
  "json_u32 v = JsonNumber (JsonInt (uint v))"

definition json_nat :: "nat \<Rightarrow> json_value" where
  "json_nat v = JsonNumber (JsonInt (int v))"

definition json_option :: "('a \<Rightarrow> json_value) \<Rightarrow> 'a option \<Rightarrow> json_value" where
  "json_option f x = (case x of Some v \<Rightarrow> f v | None \<Rightarrow> JsonNull)"

definition json_vec :: "('a \<Rightarrow> json_value) \<Rightarrow> 'a list \<Rightarrow> json_value" where
  "json_vec f xs = JsonArray (map f xs)"

fun json_get :: "json_value \<Rightarrow> string \<Rightarrow> json_value" where
  "json_get (JsonObject fields) key = (case map_of fields key of Some v \<Rightarrow> v | None \<Rightarrow> JsonNull)"
| "json_get _ key = JsonNull"

fun json_set :: "string \<Rightarrow> json_value \<Rightarrow> json_value \<Rightarrow> json_value" where
  "json_set key v (JsonObject fields) = JsonObject (AList.update key v fields)"
| "json_set key v _ = JsonObject [(key, v)]"

lemma json_get_set: "json_get (json_set k v j) k' = (if k' = k then v else
    (case j of JsonObject _ \<Rightarrow> json_get j k' | _ \<Rightarrow> JsonNull))"
  by (cases j) (simp_all add: update_conv)

end
