(* ===== verification/Summaries.thy ===== *)
theory Summaries
  imports Records_By_Id Text_Format
begin

text \<open>
  The module \<open>summaries\<close> of \<open>wallet/data.rs\<close>: snapshots of outputs, transactions and value transfers for users, their builders,
  printing and conversion to JSON. Printing of transaction ids, of times and of floating point numbers and the hexadecimal encoding
  belong to other crates and are in \<open>display_lib\<close>.
\<close>

record display_lib =
  dl_txid :: "txid \<Rightarrow> string"
  dl_datetime :: "int \<Rightarrow> string option"
  dl_f64 :: "f64_bits \<Rightarrow> string"
  dl_hex :: "byte list \<Rightarrow> string"

definition not_available :: "('a \<Rightarrow> string) \<Rightarrow> 'a option \<Rightarrow> string" where
  "not_available f x = (case x of Some v \<Rightarrow> f v | None \<Rightarrow> ''not available'')"

text \<open>\<open>self.datetime as i64\<close> keeps the bits.\<close>

definition datetime_display :: "display_lib \<Rightarrow> u64 \<Rightarrow> string" where
  "datetime_display D datetime = not_available id (dl_datetime D (sint datetime))"

section \<open>Outputs\<close>

datatype spend_summary =
    Unspent
  | TransmittedSpent txid
  | MempoolSpent txid
  | SpentIn txid

fun from_spend :: "spend \<Rightarrow> spend_summary" where
  "from_spend (Some (txid, Transmitted _)) = TransmittedSpent txid"
| "from_spend (Some (txid, Mempool _)) = MempoolSpent txid"
| "from_spend (Some (txid, Confirmed _)) = SpentIn txid"
| "from_spend _ = Unspent"

fun spend_summary_display :: "display_lib \<Rightarrow> spend_summary \<Rightarrow> string" where
  "spend_summary_display D Unspent = ''unspent''"
| "spend_summary_display D (TransmittedSpent txid) = ''transmitted: spent in '' @ dl_txid D txid"
| "spend_summary_display D (SpentIn txid) = ''confirmed: spent in '' @ dl_txid D txid"
| "spend_summary_display D (MempoolSpent txid) = ''mempool: spent in '' @ dl_txid D txid"

record orchard_note_summary =
  os_value :: u64
  os_spend_summary :: spend_summary
  os_output_index :: "u32 option"
  os_memo :: "string option"

record sapling_note_summary =
  ss_value :: u64
  ss_spend_summary :: spend_summary
  ss_output_index :: "u32 option"
  ss_memo :: "string option"

record transparent_coin_summary =
  tc_value :: u64
  tc_spend_summary :: spend_summary
  tc_output_index :: u64

definition tab_lines :: "(string \<times> string) list \<Rightarrow> string" where
  "tab_lines = labelled_lines [CHR 0x09, CHR ''{''] (replicate 12 CHR '' '') (replicate 8 CHR '' '' @ ''}'')"

definition orchard_note_summary_display :: "display_lib \<Rightarrow> orchard_note_summary \<Rightarrow> string" where
  "orchard_note_summary_display D n =
     (let output_index = not_available u32_to_string (os_output_index n);
          memo = (case os_memo n of Some m \<Rightarrow> m | None \<Rightarrow> '''')
      in tab_lines [(''value'', u64_to_string (os_value n)), (''spend status'', spend_summary_display D (os_spend_summary n)),
           (''output index'', output_index), (''memo'', memo)])"

definition sapling_note_summary_display :: "display_lib \<Rightarrow> sapling_note_summary \<Rightarrow> string" where
  "sapling_note_summary_display D n =
     (let output_index = not_available u32_to_string (ss_output_index n);
          memo = (case ss_memo n of Some m \<Rightarrow> m | None \<Rightarrow> ''no memo'')
      in tab_lines [(''value'', u64_to_string (ss_value n)), (''spend status'', spend_summary_display D (ss_spend_summary n)),
           (''output index'', output_index), (''memo'', memo)])"

definition transparent_coin_summary_display :: "display_lib \<Rightarrow> transparent_coin_summary \<Rightarrow> string" where
  "transparent_coin_summary_display D c =
     tab_lines [(''value'', u64_to_string (tc_value c)), (''spend status'', spend_summary_display D (tc_spend_summary c)),
       (''output index'', u64_to_string (tc_output_index c))]"

definition outgoing_tx_data_display :: "outgoing_tx_data \<Rightarrow> string" where
  "outgoing_tx_data_display d =
     (let address_display = (case ot_recipient_ua d of Some ua \<Rightarrow> (''unified address'', ua)
                             | None \<Rightarrow> (''recipient address'', ot_recipient_address d));
          memo_text = (case ot_memo d of Memo_Text mt \<Rightarrow> mt | _ \<Rightarrow> ''not a text memo'')
      in tab_lines [address_display, (''value'', u64_to_string (ot_value d)), (''memo'', memo_text)])"

text \<open>The wrappers that print a vector, each element on a new line.\<close>

definition display_each :: "('a \<Rightarrow> string) \<Rightarrow> 'a list \<Rightarrow> string" where
  "display_each f xs = concat (map (\<lambda>x. newline @ f x) xs)"

definition orchard_note_summary_json :: "display_lib \<Rightarrow> orchard_note_summary \<Rightarrow> json_value" where
  "orchard_note_summary_json D n = JsonObject
     [(''value'', json_u64 (os_value n)), (''spend_status'', JsonString (spend_summary_display D (os_spend_summary n))),
      (''output_index'', json_option json_u32 (os_output_index n)), (''memo'', json_option JsonString (os_memo n))]"

definition sapling_note_summary_json :: "display_lib \<Rightarrow> sapling_note_summary \<Rightarrow> json_value" where
  "sapling_note_summary_json D n = JsonObject
     [(''value'', json_u64 (ss_value n)), (''spend_status'', JsonString (spend_summary_display D (ss_spend_summary n))),
      (''output_index'', json_option json_u32 (ss_output_index n)), (''memo'', json_option JsonString (ss_memo n))]"

definition transparent_coin_summary_json :: "display_lib \<Rightarrow> transparent_coin_summary \<Rightarrow> json_value" where
  "transparent_coin_summary_json D c = JsonObject
     [(''value'', json_u64 (tc_value c)), (''spend_status'', JsonString (spend_summary_display D (tc_spend_summary c))),
      (''output_index'', json_u64 (tc_output_index c))]"

definition outgoing_tx_data_json :: "outgoing_tx_data \<Rightarrow> json_value" where
  "outgoing_tx_data_json d = JsonObject
     [(''address'', JsonString (case ot_recipient_ua d of Some ua \<Rightarrow> ua | None \<Rightarrow> ot_recipient_address d)),
      (''value'', json_u64 (ot_value d)),
      (''memo'', case ot_memo d of Memo_Text memo_text \<Rightarrow> JsonString memo_text | _ \<Rightarrow> JsonNull)]"

section \<open>Transactions\<close>

record transaction_summary =
  ts_txid :: txid
  ts_datetime :: u64
  ts_status :: confirmation_status
  ts_blockheight :: block_height
  ts_kind :: tx_kind
  ts_value :: u64
  ts_fee :: "u64 option"
  ts_zec_price :: "f64_bits option"
  ts_orchard_notes :: "orchard_note_summary list"
  ts_sapling_notes :: "sapling_note_summary list"
  ts_transparent_coins :: "transparent_coin_summary list"
  ts_outgoing_tx_data :: "outgoing_tx_data list"

record detailed_transaction_summary = transaction_summary +
  dts_orchard_nullifiers :: "string list"
  dts_sapling_nullifiers :: "string list"

text \<open>\<open>as i64\<close> keeps the bits, and the negation of an \<open>i64\<close> wraps: both are operations on the word.\<close>

definition balance_delta :: "('a transaction_summary_scheme) \<Rightarrow> int option" where
  "balance_delta s =
     (case ts_kind s of
        Sent Send \<Rightarrow> map_option (\<lambda>fee. sint (- (ts_value s + fee))) (ts_fee s)
      | Sent Shield \<Rightarrow> map_option (\<lambda>fee. sint (- fee)) (ts_fee s)
      | Sent SendToSelf \<Rightarrow> map_option (\<lambda>fee. sint (- fee)) (ts_fee s)
      | Received \<Rightarrow> Some (sint (ts_value s)))"

definition prepare_for_display ::
  "display_lib \<Rightarrow> ('a transaction_summary_scheme) \<Rightarrow> string \<times> string \<times> string \<times> string \<times> string \<times> string \<times> string" where
  "prepare_for_display D s =
     (datetime_display D (ts_datetime s), not_available u64_to_string (ts_fee s), not_available (dl_f64 D) (ts_zec_price s),
      display_each (orchard_note_summary_display D) (ts_orchard_notes s),
      display_each (sapling_note_summary_display D) (ts_sapling_notes s),
      display_each (transparent_coin_summary_display D) (ts_transparent_coins s),
      display_each outgoing_tx_data_display (ts_outgoing_tx_data s))"

definition brace_lines :: "(string \<times> string) list \<Rightarrow> string" where
  "brace_lines = labelled_lines ''{'' (replicate 4 CHR '' '') ''}''"

definition transaction_summary_display :: "display_lib \<Rightarrow> transaction_summary \<Rightarrow> string" where
  "transaction_summary_display D s =
     (let (datetime, fee, zec_price, orchard_notes, sapling_notes, transparent_coins, outgoing_tx_data_summaries) = prepare_for_display D s
      in brace_lines [(''txid'', dl_txid D (ts_txid s)), (''datetime'', datetime), (''status'', status_display (ts_status s)),
           (''blockheight'', u64_to_string (ucast (ts_blockheight s))), (''kind'', transaction_kind_display (ts_kind s)),
           (''value'', u64_to_string (ts_value s)), (''fee'', fee), (''zec price'', zec_price),
           (''orchard notes'', orchard_notes), (''sapling notes'', sapling_notes), (''transparent coins'', transparent_coins),
           (''outgoing data'', outgoing_tx_data_summaries)])"

text \<open>The labels of the format string and the arguments as they follow each other in the source.\<close>

definition detailed_labels :: "string list" where
  "detailed_labels = [''txid'', ''datetime'', ''status'', ''blockheight'', ''kind'', ''value'', ''fee'', ''zec price'',
     ''orchard_nullifiers'', ''sapling_nullifiers'', ''orchard notes'', ''sapling notes'', ''transparent coins'', ''outgoing data'']"

definition detailed_arguments :: "display_lib \<Rightarrow> detailed_transaction_summary \<Rightarrow> string list" where
  "detailed_arguments D s =
     (let (datetime, fee, zec_price, orchard_notes, sapling_notes, transparent_coins, outgoing_tx_data_summaries) = prepare_for_display D s;
          orchard_nullifier_summaries = display_each id (dts_orchard_nullifiers s);
          sapling_nullifier_summaries = display_each id (dts_sapling_nullifiers s)
      in [dl_txid D (ts_txid s), datetime, status_display (ts_status s), u64_to_string (ucast (ts_blockheight s)),
          transaction_kind_display (ts_kind s), u64_to_string (ts_value s), fee, zec_price,
          orchard_notes, sapling_notes, transparent_coins, outgoing_tx_data_summaries,
          orchard_nullifier_summaries, sapling_nullifier_summaries])"

definition detailed_transaction_summary_display :: "display_lib \<Rightarrow> detailed_transaction_summary \<Rightarrow> string" where
  "detailed_transaction_summary_display D s = brace_lines (zip detailed_labels (detailed_arguments D s))"

definition transaction_summary_json :: "display_lib \<Rightarrow> transaction_summary \<Rightarrow> json_value" where
  "transaction_summary_json D s = JsonObject
     [(''txid'', JsonString (dl_txid D (ts_txid s))), (''datetime'', json_u64 (ts_datetime s)),
      (''status'', JsonString (status_display (ts_status s))), (''blockheight'', json_u64 (ucast (ts_blockheight s))),
      (''kind'', JsonString (transaction_kind_display (ts_kind s))), (''value'', json_u64 (ts_value s)),
      (''fee'', json_option json_u64 (ts_fee s)), (''zec_price'', json_option (JsonNumber \<circ> JsonFloat) (ts_zec_price s)),
      (''orchard_notes'', json_vec (orchard_note_summary_json D) (ts_orchard_notes s)),
      (''sapling_notes'', json_vec (sapling_note_summary_json D) (ts_sapling_notes s)),
      (''transparent_coins'', json_vec (transparent_coin_summary_json D) (ts_transparent_coins s)),
      (''outgoing_tx_data'', json_vec outgoing_tx_data_json (ts_outgoing_tx_data s))]"

definition detailed_transaction_summary_json :: "display_lib \<Rightarrow> detailed_transaction_summary \<Rightarrow> json_value" where
  "detailed_transaction_summary_json D s = JsonObject
     [(''txid'', JsonString (dl_txid D (ts_txid s))), (''datetime'', json_u64 (ts_datetime s)),
      (''status'', JsonString (status_display (ts_status s))), (''blockheight'', json_u64 (ucast (ts_blockheight s))),
      (''kind'', JsonString (transaction_kind_display (ts_kind s))), (''value'', json_u64 (ts_value s)),
      (''fee'', json_option json_u64 (ts_fee s)), (''zec_price'', json_option (JsonNumber \<circ> JsonFloat) (ts_zec_price s)),
      (''orchard_nullifiers'', json_vec JsonString (dts_orchard_nullifiers s)),
      (''sapling_nullifiers'', json_vec JsonString (dts_sapling_nullifiers s)),
      (''orchard_notes'', json_vec (orchard_note_summary_json D) (ts_orchard_notes s)),
      (''sapling_notes'', json_vec (sapling_note_summary_json D) (ts_sapling_notes s)),
      (''transparent_coins'', json_vec (transparent_coin_summary_json D) (ts_transparent_coins s)),
      (''outgoing_tx_data'', json_vec outgoing_tx_data_json (ts_outgoing_tx_data s))]"

definition transaction_summaries_display :: "display_lib \<Rightarrow> transaction_summary list \<Rightarrow> string" where
  "transaction_summaries_display D ss = display_each (transaction_summary_display D) ss"

definition detailed_transaction_summaries_display :: "display_lib \<Rightarrow> detailed_transaction_summary list \<Rightarrow> string" where
  "detailed_transaction_summaries_display D ss = display_each (detailed_transaction_summary_display D) ss"

definition transaction_summaries_json :: "display_lib \<Rightarrow> transaction_summary list \<Rightarrow> json_value" where
  "transaction_summaries_json D ss = JsonObject [(''transaction_summaries'', json_vec (transaction_summary_json D) ss)]"

definition detailed_transaction_summaries_json :: "display_lib \<Rightarrow> detailed_transaction_summary list \<Rightarrow> json_value" where
  "detailed_transaction_summaries_json D ss =
     JsonObject [(''detailed_transaction_summaries'', json_vec (detailed_transaction_summary_json D) ss)]"

definition paid_fees :: "('a transaction_summary_scheme) list \<Rightarrow> u64" where
  "paid_fees ss = sum_list (List.map_filter ts_fee ss)"

definition summary_txids :: "('a transaction_summary_scheme) list \<Rightarrow> txid list" where
  "summary_txids ss = map ts_txid ss"

end
