(* ===== verification/Summary_Builders.thy ===== *)
theory Summary_Builders
  imports Summaries
begin

text \<open>
  The builders of \<open>wallet/data.rs\<close>: every field is optional, a setter fills one field, and \<open>build\<close> fails with the first
  missing field in the order of the struct.
\<close>

datatype build_error = MissingField string

abbreviation field :: "'a option \<Rightarrow> string \<Rightarrow> ('a \<Rightarrow> build_error + 'b) \<Rightarrow> build_error + 'b" where
  "field x name k \<equiv> res_bind (ok_or x (MissingField name)) k"

section \<open>Value transfers\<close>

datatype self_send_value_transfer = BasicSelfSend | ShieldSelfSend | MemoToSelf | RejectionSelfSend

datatype sent_value_transfer = SendTransfer | SendToSelfTransfer self_send_value_transfer

datatype value_transfer_kind = SentTransfer sent_value_transfer | ReceivedTransfer

fun value_transfer_kind_display :: "value_transfer_kind \<Rightarrow> string" where
  "value_transfer_kind_display ReceivedTransfer = ''received''"
| "value_transfer_kind_display (SentTransfer SendTransfer) = ''sent''"
| "value_transfer_kind_display (SentTransfer (SendToSelfTransfer BasicSelfSend)) = ''basic''"
| "value_transfer_kind_display (SentTransfer (SendToSelfTransfer ShieldSelfSend)) = ''shield''"
| "value_transfer_kind_display (SentTransfer (SendToSelfTransfer MemoToSelf)) = ''memo-to-self''"
| "value_transfer_kind_display (SentTransfer (SendToSelfTransfer RejectionSelfSend)) = ''rejection''"

record value_transfer =
  vt_txid :: txid
  vt_datetime :: u64
  vt_status :: confirmation_status
  vt_blockheight :: block_height
  vt_transaction_fee :: "u64 option"
  vt_zec_price :: "f64_bits option"
  vt_kind :: value_transfer_kind
  vt_value :: u64
  vt_recipient_address :: "string option"
  vt_pool_received :: "string option"
  vt_memos :: "string list"

definition value_transfer_display :: "display_lib \<Rightarrow> value_transfer \<Rightarrow> string" where
  "value_transfer_display D v =
     (let memos = concat (map (\<lambda>(index, memo). newline @ [CHR 0x09] @ ''memo '' @ dec (index + 1) @ '': '' @ memo)
                    (zip [0..<length (vt_memos v)] (vt_memos v)))
      in brace_lines [(''txid'', dl_txid D (vt_txid v)), (''datetime'', datetime_display D (vt_datetime v)),
           (''status'', status_display (vt_status v)), (''blockheight'', u64_to_string (ucast (vt_blockheight v))),
           (''transaction fee'', not_available u64_to_string (vt_transaction_fee v)),
           (''zec price'', not_available (dl_f64 D) (vt_zec_price v)), (''kind'', value_transfer_kind_display (vt_kind v)),
           (''value'', u64_to_string (vt_value v)), (''recipient_address'', not_available id (vt_recipient_address v)),
           (''pool_received'', not_available id (vt_pool_received v)), (''memos'', memos)])"

definition value_transfer_json :: "display_lib \<Rightarrow> value_transfer \<Rightarrow> json_value" where
  "value_transfer_json D v = JsonObject
     [(''txid'', JsonString (dl_txid D (vt_txid v))), (''datetime'', json_u64 (vt_datetime v)),
      (''status'', JsonString (status_display (vt_status v))), (''blockheight'', json_u64 (ucast (vt_blockheight v))),
      (''transaction_fee'', json_option json_u64 (vt_transaction_fee v)),
      (''zec_price'', json_option (JsonNumber \<circ> JsonFloat) (vt_zec_price v)),
      (''kind'', JsonString (value_transfer_kind_display (vt_kind v))), (''value'', json_u64 (vt_value v)),
      (''recipient_address'', json_option JsonString (vt_recipient_address v)),
      (''pool_received'', json_option JsonString (vt_pool_received v)), (''memos'', json_vec JsonString (vt_memos v))]"

definition value_transfers_display :: "display_lib \<Rightarrow> value_transfer list \<Rightarrow> string" where
  "value_transfers_display D vs = display_each (value_transfer_display D) vs"

definition value_transfers_json :: "display_lib \<Rightarrow> value_transfer list \<Rightarrow> json_value" where
  "value_transfers_json D vs = JsonObject [(''value_transfers'', json_vec (value_transfer_json D) vs)]"

record value_transfer_builder =
  vb_txid :: "txid option"
  vb_datetime :: "u64 option"
  vb_status :: "confirmation_status option"
  vb_blockheight :: "block_height option"
  vb_transaction_fee :: "u64 option option"
  vb_zec_price :: "f64_bits option option"
  vb_kind :: "value_transfer_kind option"
  vb_value :: "u64 option"
  vb_recipient_address :: "string option option"
  vb_pool_received :: "string option option"
  vb_memos :: "string list option"

definition new_value_transfer_builder :: value_transfer_builder where
  "new_value_transfer_builder = \<lparr> vb_txid = None, vb_datetime = None, vb_status = None, vb_blockheight = None,
     vb_transaction_fee = None, vb_zec_price = None, vb_kind = None, vb_value = None, vb_recipient_address = None,
     vb_pool_received = None, vb_memos = None \<rparr>"

definition build_value_transfer :: "value_transfer_builder \<Rightarrow> build_error + value_transfer" where
  "build_value_transfer b =
     field (vb_txid b) ''txid'' (\<lambda>txid.
     field (vb_datetime b) ''datetime'' (\<lambda>datetime.
     field (vb_status b) ''status'' (\<lambda>status.
     field (vb_blockheight b) ''blockheight'' (\<lambda>blockheight.
     field (vb_transaction_fee b) ''transaction_fee'' (\<lambda>transaction_fee.
     field (vb_zec_price b) ''zec_price'' (\<lambda>zec_price.
     field (vb_kind b) ''kind'' (\<lambda>kind.
     field (vb_value b) ''value'' (\<lambda>v.
     field (vb_recipient_address b) ''recipient_address'' (\<lambda>recipient_address.
     field (vb_pool_received b) ''pool_received'' (\<lambda>pool_received.
     field (vb_memos b) ''memos'' (\<lambda>memos.
     Inr \<lparr> vt_txid = txid, vt_datetime = datetime, vt_status = status, vt_blockheight = blockheight,
       vt_transaction_fee = transaction_fee, vt_zec_price = zec_price, vt_kind = kind, vt_value = v,
       vt_recipient_address = recipient_address, vt_pool_received = pool_received, vt_memos = memos \<rparr>)))))))))))"

section \<open>Transaction summaries\<close>

record transaction_summary_builder =
  tb_txid :: "txid option"
  tb_datetime :: "u64 option"
  tb_status :: "confirmation_status option"
  tb_blockheight :: "block_height option"
  tb_kind :: "tx_kind option"
  tb_value :: "u64 option"
  tb_fee :: "u64 option option"
  tb_zec_price :: "f64_bits option option"
  tb_orchard_notes :: "orchard_note_summary list option"
  tb_sapling_notes :: "sapling_note_summary list option"
  tb_transparent_coins :: "transparent_coin_summary list option"
  tb_outgoing_tx_data :: "outgoing_tx_data list option"

record detailed_transaction_summary_builder = transaction_summary_builder +
  db_orchard_nullifiers :: "string list option"
  db_sapling_nullifiers :: "string list option"

definition new_transaction_summary_builder :: transaction_summary_builder where
  "new_transaction_summary_builder = \<lparr> tb_txid = None, tb_datetime = None, tb_status = None, tb_blockheight = None,
     tb_kind = None, tb_value = None, tb_fee = None, tb_zec_price = None, tb_orchard_notes = None, tb_sapling_notes = None,
     tb_transparent_coins = None, tb_outgoing_tx_data = None \<rparr>"

definition new_detailed_transaction_summary_builder :: detailed_transaction_summary_builder where
  "new_detailed_transaction_summary_builder = \<lparr> tb_txid = None, tb_datetime = None, tb_status = None, tb_blockheight = None,
     tb_kind = None, tb_value = None, tb_fee = None, tb_zec_price = None, tb_orchard_notes = None, tb_sapling_notes = None,
     tb_transparent_coins = None, tb_outgoing_tx_data = None, db_orchard_nullifiers = None, db_sapling_nullifiers = None \<rparr>"

text \<open>The twelve fields that both builders check first.\<close>

definition build_common ::
  "('a transaction_summary_builder_scheme) \<Rightarrow> (transaction_summary \<Rightarrow> build_error + 'b) \<Rightarrow> build_error + 'b" where
  "build_common b k =
     field (tb_txid b) ''txid'' (\<lambda>txid.
     field (tb_datetime b) ''datetime'' (\<lambda>datetime.
     field (tb_status b) ''status'' (\<lambda>status.
     field (tb_blockheight b) ''blockheight'' (\<lambda>blockheight.
     field (tb_kind b) ''kind'' (\<lambda>kind.
     field (tb_value b) ''value'' (\<lambda>v.
     field (tb_fee b) ''fee'' (\<lambda>fee.
     field (tb_zec_price b) ''zec_price'' (\<lambda>zec_price.
     field (tb_orchard_notes b) ''orchard_notes'' (\<lambda>orchard_notes.
     field (tb_sapling_notes b) ''sapling_notes'' (\<lambda>sapling_notes.
     field (tb_transparent_coins b) ''transparent_coins'' (\<lambda>transparent_coins.
     field (tb_outgoing_tx_data b) ''outgoing_tx_data'' (\<lambda>outgoing_tx_data.
     k \<lparr> ts_txid = txid, ts_datetime = datetime, ts_status = status, ts_blockheight = blockheight, ts_kind = kind,
       ts_value = v, ts_fee = fee, ts_zec_price = zec_price, ts_orchard_notes = orchard_notes,
       ts_sapling_notes = sapling_notes, ts_transparent_coins = transparent_coins,
       ts_outgoing_tx_data = outgoing_tx_data \<rparr>))))))))))))"

definition build_transaction_summary :: "transaction_summary_builder \<Rightarrow> build_error + transaction_summary" where
  "build_transaction_summary b = build_common b Inr"

definition build_detailed_transaction_summary ::
  "detailed_transaction_summary_builder \<Rightarrow> build_error + detailed_transaction_summary" where
  "build_detailed_transaction_summary b = build_common b (\<lambda>s.
     field (db_orchard_nullifiers b) ''orchard_nullifiers'' (\<lambda>orchard_nullifiers.
     field (db_sapling_nullifiers b) ''sapling_nullifiers'' (\<lambda>sapling_nullifiers.
     Inr (transaction_summary.extend s
       (detailed_transaction_summary.fields orchard_nullifiers sapling_nullifiers)))))"

section \<open>From records to summaries\<close>

definition text_memo :: "memo option \<Rightarrow> string option" where
  "text_memo m = (case m of Some (Memo_Text memo_text) \<Rightarrow> Some memo_text | _ \<Rightarrow> None)"

text \<open>\<open>None\<close> is a panic of \<open>transaction_kind\<close>.\<close>

definition basic_transaction_summary_parts ::
  "transaction_record \<Rightarrow> records \<Rightarrow> chain_type \<Rightarrow>
   (tx_kind \<times> u64 \<times> u64 option \<times> orchard_note_summary list \<times> sapling_note_summary list \<times>
    transparent_coin_summary list) option" where
  "basic_transaction_summary_parts transaction_record transaction_records chain =
     map_option (\<lambda>kind.
       (let v = (case kind of
                   Received \<Rightarrow> total_value_received transaction_record
                 | Sent Shield \<Rightarrow> total_value_received transaction_record
                 | Sent SendToSelf \<Rightarrow> total_value_received transaction_record
                 | Sent Send \<Rightarrow> value_outgoing transaction_record);
            fee = res_ok (calculate_transaction_fee transaction_records transaction_record);
            orchard_notes = map (\<lambda>out. \<lparr> os_value = orchard_value out, os_spend_summary = from_spend (sn_spend out),
                os_output_index = sn_output_index out, os_memo = text_memo (sn_memo out) \<rparr>) (tr_orchard_notes transaction_record);
            sapling_notes = map (\<lambda>out. \<lparr> ss_value = sapling_value out, ss_spend_summary = from_spend (sn_spend out),
                ss_output_index = sn_output_index out, ss_memo = text_memo (sn_memo out) \<rparr>) (tr_sapling_notes transaction_record);
            transparent_coins = map (\<lambda>out. \<lparr> tc_value = to_value out, tc_spend_summary = from_spend (to_spend out),
                tc_output_index = to_output_index out \<rparr>) (tr_transparent_outputs transaction_record)
        in (kind, v, fee, orchard_notes, sapling_notes, transparent_coins)))
       (transaction_kind transaction_records transaction_record chain)"

end
