(* ===== verification/Value_Transfers.thy ===== *)
theory Value_Transfers
  imports Summary_Builders "HOL-Library.Monad_Syntax"
begin

text \<open>
  \<open>lightclient/describe.rs\<close>: transaction summaries in order, value transfers, the figures derived from them and
  the balances for users. In \<open>presentation\<close>, \<open>pr_iter\<close> is the iteration order of a \<open>HashSet\<close> of addresses, of which only
  \<open>iterates\<close> is used (every element once), \<open>pr_pool\<close> the text of a pool in the backend and \<open>pr_len\<close> the bytes of a string. \<open>None\<close> is a panic.
\<close>

record presentation =
  pr_iter :: "string list \<Rightarrow> string list"
  pr_pool :: "pool_type \<Rightarrow> string"
  pr_len :: "string \<Rightarrow> nat"

definition iterates :: "(string list \<Rightarrow> string list) \<Rightarrow> bool" where
  "iterates iter \<longleftrightarrow> (\<forall>xs. distinct (iter xs) \<and> set (iter xs) = set xs)"

section \<open>Transaction summaries\<close>

definition transaction_summary_of :: "records \<Rightarrow> chain_type \<Rightarrow> transaction_record \<Rightarrow> transaction_summary option" where
  "transaction_summary_of transaction_records chain tx = do {
     (kind, v, fee, orchard_notes, sapling_notes, transparent_coins) \<leftarrow>
       basic_transaction_summary_parts tx transaction_records chain;
     res_ok (build_transaction_summary (new_transaction_summary_builder
       \<lparr> tb_txid := Some (tr_txid tx), tb_datetime := Some (tr_datetime tx),
         tb_blockheight := Some (get_height (tr_status tx)), tb_kind := Some kind, tb_value := Some v, tb_fee := Some fee,
         tb_status := Some (tr_status tx), tb_zec_price := Some (tr_price tx), tb_orchard_notes := Some orchard_notes,
         tb_sapling_notes := Some sapling_notes, tb_transparent_coins := Some transparent_coins,
         tb_outgoing_tx_data := Some (tr_outgoing_tx_data tx) \<rparr>)) }"

fun starts_with :: "string \<Rightarrow> string \<Rightarrow> bool" where
  "starts_with s [] = True"
| "starts_with [] (_ # _) = False"
| "starts_with (c # s) (d # p) = (c = d \<and> starts_with s p)"

definition starts_with_tex :: "transaction_summary \<Rightarrow> bool" where
  "starts_with_tex summary = list_ex (\<lambda>outgoing_txdata. starts_with (ot_recipient_address outgoing_txdata) ''tex'')
     (ts_outgoing_tx_data summary)"

definition compare_summaries :: "transaction_summary \<Rightarrow> transaction_summary \<Rightarrow> ordering" where
  "compare_summaries sum1 sum2 =
     (case compare (ts_blockheight sum1) (ts_blockheight sum2) of
        Equal \<Rightarrow>
          (case (starts_with_tex sum1, starts_with_tex sum2) of
             (True, False) \<Rightarrow> Greater
           | (False, True) \<Rightarrow> Less
           | _ \<Rightarrow> Equal)
      | otherwise \<Rightarrow> otherwise)"

definition transaction_summaries :: "records \<Rightarrow> chain_type \<Rightarrow> transaction_summary list option" where
  "transaction_summaries transaction_records chain =
     map_option (sort_by compare_summaries)
       (those (map (transaction_summary_of transaction_records chain) (hm_values transaction_records)))"

definition detailed_transaction_summary_of ::
  "display_lib \<Rightarrow> records \<Rightarrow> chain_type \<Rightarrow> transaction_record \<Rightarrow> detailed_transaction_summary option" where
  "detailed_transaction_summary_of D transaction_records chain tx = do {
     (kind, v, fee, orchard_notes, sapling_notes, transparent_coins) \<leftarrow>
       basic_transaction_summary_parts tx transaction_records chain;
     let orchard_nullifiers = map (dl_hex D) (tr_spent_orchard_nullifiers tx);
     let sapling_nullifiers = map (dl_hex D) (tr_spent_sapling_nullifiers tx);
     res_ok (build_detailed_transaction_summary (new_detailed_transaction_summary_builder
       \<lparr> tb_txid := Some (tr_txid tx), tb_datetime := Some (tr_datetime tx),
         tb_blockheight := Some (get_height (tr_status tx)), tb_kind := Some kind, tb_value := Some v, tb_fee := Some fee,
         tb_status := Some (tr_status tx), tb_zec_price := Some (tr_price tx), tb_orchard_notes := Some orchard_notes,
         tb_sapling_notes := Some sapling_notes, tb_transparent_coins := Some transparent_coins,
         tb_outgoing_tx_data := Some (tr_outgoing_tx_data tx),
         db_orchard_nullifiers := Some orchard_nullifiers, db_sapling_nullifiers := Some sapling_nullifiers \<rparr>)) }"

definition detailed_transaction_summaries ::
  "display_lib \<Rightarrow> records \<Rightarrow> chain_type \<Rightarrow> detailed_transaction_summary list option" where
  "detailed_transaction_summaries D transaction_records chain =
     map_option (sort_key ts_blockheight)
       (those (map (detailed_transaction_summary_of D transaction_records chain) (hm_values transaction_records)))"

section \<open>Value transfers\<close>

text \<open>The setters that every value transfer of a transaction begins with.\<close>

definition transfer_builder :: "transaction_summary \<Rightarrow> value_transfer_builder" where
  "transfer_builder tx = new_value_transfer_builder
     \<lparr> vb_txid := Some (ts_txid tx), vb_datetime := Some (ts_datetime tx), vb_status := Some (ts_status tx),
       vb_blockheight := Some (ts_blockheight tx), vb_transaction_fee := Some (ts_fee tx),
       vb_zec_price := Some (ts_zec_price tx) \<rparr>"

definition make_transfer ::
  "transaction_summary \<Rightarrow> value_transfer_kind \<Rightarrow> u64 \<Rightarrow> string option \<Rightarrow> string option \<Rightarrow> string list \<Rightarrow>
   value_transfer option" where
  "make_transfer tx kind v recipient_address pool_received memos =
     res_ok (build_value_transfer ((transfer_builder tx)
       \<lparr> vb_kind := Some kind, vb_value := Some v, vb_recipient_address := Some recipient_address,
         vb_pool_received := Some pool_received, vb_memos := Some memos \<rparr>))"

definition outgoing_address :: "outgoing_tx_data \<Rightarrow> string" where
  "outgoing_address d = (case ot_recipient_ua d of Some ua \<Rightarrow> ua | None \<Rightarrow> ot_recipient_address d)"

definition outgoing_text_memos :: "outgoing_tx_data list \<Rightarrow> string list" where
  "outgoing_text_memos ds = List.map_filter (\<lambda>d. case ot_memo d of Memo_Text memo_text \<Rightarrow> Some memo_text | _ \<Rightarrow> None) ds"

definition send_value_transfer :: "transaction_summary \<Rightarrow> string \<Rightarrow> value_transfer option" where
  "send_value_transfer tx address =
     (let outgoing_data_to_address = filter (\<lambda>d. outgoing_address d = address) (ts_outgoing_tx_data tx);
          v = sum_list (map ot_value outgoing_data_to_address);
          memos = outgoing_text_memos outgoing_data_to_address
      in make_transfer tx (SentTransfer SendTransfer) v (Some address) None memos)"

definition create_send_value_transfers ::
  "presentation \<Rightarrow> transaction_summary \<Rightarrow> value_transfer list option" where
  "create_send_value_transfers P tx =
     (let addresses = pr_iter P (map outgoing_address (ts_outgoing_tx_data tx))
      in those (map (send_value_transfer tx) addresses))"

definition orchard_memos :: "transaction_summary \<Rightarrow> string list" where
  "orchard_memos tx = List.map_filter os_memo (ts_orchard_notes tx)"

definition sapling_memos :: "transaction_summary \<Rightarrow> string list" where
  "sapling_memos tx = List.map_filter ss_memo (ts_sapling_notes tx)"

definition receives_memos :: "transaction_summary \<Rightarrow> bool" where
  "receives_memos tx \<longleftrightarrow> list_ex (\<lambda>n. os_memo n \<noteq> None) (ts_orchard_notes tx) \<or>
     list_ex (\<lambda>n. ss_memo n \<noteq> None) (ts_sapling_notes tx)"

definition memo_to_self_transfers :: "transaction_summary \<Rightarrow> value_transfer list option" where
  "memo_to_self_transfers tx =
     (if receives_memos tx
      then those [make_transfer tx (SentTransfer (SendToSelfTransfer MemoToSelf)) 0 None None (orchard_memos tx @ sapling_memos tx)]
      else Some [])"

definition orchard_transfers :: "presentation \<Rightarrow> value_transfer_kind \<Rightarrow> transaction_summary \<Rightarrow> value_transfer list option" where
  "orchard_transfers P kind tx =
     (if ts_orchard_notes tx \<noteq> []
      then those [make_transfer tx kind (sum_list (map os_value (ts_orchard_notes tx))) None
                    (Some (pr_pool P (Shielded Orchard))) (orchard_memos tx)]
      else Some [])"

definition sapling_transfers :: "presentation \<Rightarrow> value_transfer_kind \<Rightarrow> transaction_summary \<Rightarrow> value_transfer list option" where
  "sapling_transfers P kind tx =
     (if ts_sapling_notes tx \<noteq> []
      then those [make_transfer tx kind (sum_list (map ss_value (ts_sapling_notes tx))) None
                    (Some (pr_pool P (Shielded Sapling))) (sapling_memos tx)]
      else Some [])"

definition transparent_transfers :: "presentation \<Rightarrow> transaction_summary \<Rightarrow> value_transfer list option" where
  "transparent_transfers P tx =
     (if ts_transparent_coins tx \<noteq> []
      then those [make_transfer tx ReceivedTransfer (sum_list (map tc_value (ts_transparent_coins tx))) None
                    (Some (pr_pool P Transparent)) []]
      else Some [])"

definition transfers_of :: "presentation \<Rightarrow> transaction_summary \<Rightarrow> value_transfer list option" where
  "transfers_of P tx =
     (case ts_kind tx of
        Sent Send \<Rightarrow> do {
          sends \<leftarrow> create_send_value_transfers P tx;
          memos \<leftarrow> memo_to_self_transfers tx;
          Some (sends @ memos) }
      | Sent Shield \<Rightarrow> do {
          os \<leftarrow> orchard_transfers P (SentTransfer (SendToSelfTransfer ShieldSelfSend)) tx;
          ss \<leftarrow> sapling_transfers P (SentTransfer (SendToSelfTransfer ShieldSelfSend)) tx;
          Some (os @ ss) }
      | Sent SendToSelf \<Rightarrow> do {
          self \<leftarrow> (if receives_memos tx then memo_to_self_transfers tx
                    else those [make_transfer tx (SentTransfer (SendToSelfTransfer BasicSelfSend)) 0 None None []]);
          sends \<leftarrow> create_send_value_transfers P tx;
          Some (self @ sends) }
      | Received \<Rightarrow> do {
          os \<leftarrow> orchard_transfers P ReceivedTransfer tx;
          ss \<leftarrow> sapling_transfers P ReceivedTransfer tx;
          ts \<leftarrow> transparent_transfers P tx;
          Some (os @ ss @ ts) })"

definition value_transfers ::
  "presentation \<Rightarrow> records \<Rightarrow> chain_type \<Rightarrow> value_transfer list option" where
  "value_transfers P transaction_records chain = do {
     summaries \<leftarrow> transaction_summaries transaction_records chain;
     map_option concat (those (map (transfers_of P) summaries)) }"

section \<open>Figures by address\<close>

text \<open>A map from addresses as an association list in the order of first insertion.\<close>

fun add_by_address ::
  "('a \<Rightarrow> value_transfer \<Rightarrow> 'a) \<Rightarrow> (value_transfer \<Rightarrow> 'a) \<Rightarrow> value_transfer list \<Rightarrow> (string, 'a) hash_map \<Rightarrow>
   (string, 'a) hash_map option" where
  "add_by_address modify first [] m = Some m"
| "add_by_address modify first (v # vs) m =
     (if vt_kind v = SentTransfer SendTransfer
      then (case vt_recipient_address v of
              None \<Rightarrow> None
            | Some address \<Rightarrow>
                add_by_address modify first vs
                  (case hm_get m address of
                     Some e \<Rightarrow> hm_insert address (modify e v) m
                   | None \<Rightarrow> hm_insert address (first v) m))
      else add_by_address modify first vs m)"

definition value_transfer_by_to_address ::
  "presentation \<Rightarrow> records \<Rightarrow> chain_type \<Rightarrow> (string, u64 list) hash_map option" where
  "value_transfer_by_to_address P transaction_records chain = do {
     vs \<leftarrow> value_transfers P transaction_records chain;
     add_by_address (\<lambda>e v. e @ [vt_value v]) (\<lambda>v. [vt_value v]) vs [] }"

definition do_total_memobytes_to_address ::
  "presentation \<Rightarrow> records \<Rightarrow> chain_type \<Rightarrow> (string, nat) hash_map option" where
  "do_total_memobytes_to_address P transaction_records chain =
     (let bytes = (\<lambda>v. foldl (\<lambda>s m. s + pr_len P m) 0 (vt_memos v))
      in do {
        vs \<leftarrow> value_transfers P transaction_records chain;
        add_by_address (\<lambda>e v. e + bytes v) bytes vs [] })"

definition do_total_spends_to_address ::
  "presentation \<Rightarrow> records \<Rightarrow> chain_type \<Rightarrow> (string, u64) hash_map option" where
  "do_total_spends_to_address P transaction_records chain =
     map_option (map (\<lambda>(key, values). (key, word_of_nat (length values))))
       (value_transfer_by_to_address P transaction_records chain)"

definition do_total_value_to_address ::
  "presentation \<Rightarrow> records \<Rightarrow> chain_type \<Rightarrow> (string, u64) hash_map option" where
  "do_total_value_to_address P transaction_records chain =
     map_option (map (\<lambda>(key, values). (key, sum_list values)))
       (value_transfer_by_to_address P transaction_records chain)"

definition total_memo_bytes_json :: "(string, nat) hash_map \<Rightarrow> json_value" where
  "total_memo_bytes_json hm = fold (\<lambda>(key, v) j. json_set key (json_nat v) j) hm (JsonObject [])"

definition total_value_json :: "(string, u64) hash_map \<Rightarrow> json_value" where
  "total_value_json hm = fold (\<lambda>(key, v) j. json_set key (json_u64 v) j) hm (JsonObject [])"

definition total_sends_json :: "(string, u64) hash_map \<Rightarrow> json_value" where
  "total_sends_json hm = fold (\<lambda>(key, v) j. json_set key (json_u64 v) j) hm (JsonObject [])"

end
