(* ===== verification/Client_Balances.thy ===== *)
theory Client_Balances
  imports Summary_Builders Light_Wallet "HOL-Library.Monad_Syntax" "HOL-Library.Option_ord"
begin

text \<open>
  \<open>lightclient/describe.rs\<close> and \<open>unspent_pending_spent\<close> of \<open>lightclient.rs\<close>: balances by pool, balances for users, and the
  lists of notes. The marginal fee, the addresses of notes and the decoding of a transparent address with the
  search for the unified address that contains it are arguments; \<open>None\<close> is a panic.
\<close>

section \<open>Balances by pool\<close>

record pool_balances =
  pb_sapling_balance :: "u64 option"
  pb_verified_sapling_balance :: "u64 option"
  pb_spendable_sapling_balance :: "u64 option"
  pb_unverified_sapling_balance :: "u64 option"
  pb_orchard_balance :: "u64 option"
  pb_verified_orchard_balance :: "u64 option"
  pb_unverified_orchard_balance :: "u64 option"
  pb_spendable_orchard_balance :: "u64 option"
  pb_transparent_balance :: "u64 option"

text \<open>\<open>a.xor(b).or_else(|| a.zip(b).map(|(v, u)| v + u))\<close>.\<close>

fun some_sum :: "u64 option \<Rightarrow> u64 option \<Rightarrow> u64 option" where
  "some_sum (Some a) None = Some a"
| "some_sum None (Some b) = Some b"
| "some_sum (Some a) (Some b) = Some (a + b)"
| "some_sum None None = None"

definition do_balance :: "('t, 'uri) light_wallet \<Rightarrow> pool_balances" where
  "do_balance w =
     (let verified_sapling_balance = confirmed_balance Sapling tr_sapling_notes sapling_value w;
          unverified_sapling_balance = pending_balance Sapling tr_sapling_notes sapling_value w;
          spendable_sapling_balance = spendable_balance Sapling tr_sapling_notes sapling_value w;
          verified_orchard_balance = confirmed_balance Orchard tr_orchard_notes orchard_value w;
          unverified_orchard_balance = pending_balance Orchard tr_orchard_notes orchard_value w;
          spendable_orchard_balance = spendable_balance Orchard tr_orchard_notes orchard_value w
      in \<lparr> pb_sapling_balance = some_sum verified_sapling_balance unverified_sapling_balance,
           pb_verified_sapling_balance = verified_sapling_balance,
           pb_spendable_sapling_balance = spendable_sapling_balance,
           pb_unverified_sapling_balance = unverified_sapling_balance,
           pb_orchard_balance = some_sum verified_orchard_balance unverified_orchard_balance,
           pb_verified_orchard_balance = verified_orchard_balance,
           pb_unverified_orchard_balance = unverified_orchard_balance,
           pb_spendable_orchard_balance = spendable_orchard_balance,
           pb_transparent_balance = get_transparent_balance w \<rparr>)"

section \<open>Balances for users\<close>

record user_balances =
  ub_spendable :: u64
  ub_immature_change :: u64
  ub_minimum_fees :: u64
  ub_immature_income :: u64
  ub_dust :: u64
  ub_incoming :: u64
  ub_incoming_dust :: u64

definition zero_user_balances :: user_balances where
  "zero_user_balances = \<lparr> ub_spendable = 0, ub_immature_change = 0, ub_minimum_fees = 0, ub_immature_income = 0,
     ub_dust = 0, ub_incoming = 0, ub_incoming_dust = 0 \<rparr>"

text \<open>The counters of the closure that visits one record.\<close>

record record_counters =
  rc_change :: u64
  rc_useful_value :: u64
  rc_dust_value :: u64
  rc_utxo_value :: u64
  rc_inbound_note_count_nodust :: u64
  rc_inbound_utxo_count_nodust :: u64
  rc_change_note_count :: u64

definition count_note :: "u64 \<Rightarrow> bool \<Rightarrow> u64 \<Rightarrow> bool \<Rightarrow> record_counters \<Rightarrow> record_counters" where
  "count_note margin_fee incoming v is_change c =
     (if \<not> incoming \<and> is_change
      then c\<lparr> rc_change := rc_change c + v, rc_change_note_count := rc_change_note_count c + 1 \<rparr>
      else if incoming
      then (if v > margin_fee
            then c\<lparr> rc_useful_value := rc_useful_value c + v,
                    rc_inbound_note_count_nodust := rc_inbound_note_count_nodust c + 1 \<rparr>
            else c\<lparr> rc_dust_value := rc_dust_value c + v \<rparr>)
      else c)"

definition count_utxo :: "u64 \<Rightarrow> bool \<Rightarrow> u64 \<Rightarrow> record_counters \<Rightarrow> record_counters" where
  "count_utxo margin_fee incoming v c =
     (if incoming
      then (if v > margin_fee
            then c\<lparr> rc_utxo_value := rc_utxo_value c + v,
                    rc_inbound_utxo_count_nodust := rc_inbound_utxo_count_nodust c + 1 \<rparr>
            else c\<lparr> rc_dust_value := rc_dust_value c + v \<rparr>)
      else c)"

definition count_record :: "u64 \<Rightarrow> transaction_record \<Rightarrow> record_counters" where
  "count_record margin_fee tx =
     (let incoming = is_incoming_transaction tx;
          c = \<lparr> rc_change = 0, rc_useful_value = 0, rc_dust_value = 0, rc_utxo_value = 0,
                rc_inbound_note_count_nodust = 0, rc_inbound_utxo_count_nodust = 0, rc_change_note_count = 0 \<rparr>;
          c = fold (\<lambda>n. count_note margin_fee incoming (orchard_value n) (sn_is_change n))
                (filter (\<lambda>n. sn_spend n = None) (tr_orchard_notes tx)) c;
          c = fold (\<lambda>n. count_note margin_fee incoming (sapling_value n) (sn_is_change n))
                (filter (\<lambda>n. sn_spend n = None) (tr_sapling_notes tx)) c
      in fold (\<lambda>n. count_utxo margin_fee incoming (to_value n))
           (filter (\<lambda>n. to_spend n = None) (tr_transparent_outputs tx)) c)"

definition add_record_balances ::
  "u64 \<Rightarrow> bool \<Rightarrow> block_height \<Rightarrow> transaction_record \<Rightarrow> user_balances \<Rightarrow> user_balances" where
  "add_record_balances margin_fee auto_shielding anchor_height tx b =
     (let mature = is_confirmed_before_or_at (tr_status tx) anchor_height;
          c = count_record margin_fee tx;
          b = b\<lparr> ub_minimum_fees := ub_minimum_fees b + rc_change_note_count c * margin_fee \<rparr>;
          b = (if mature
               then b\<lparr> ub_minimum_fees := ub_minimum_fees b + rc_inbound_note_count_nodust c * margin_fee \<rparr> else b);
          b = (if \<not> auto_shielding
               then b\<lparr> ub_minimum_fees := ub_minimum_fees b + rc_inbound_utxo_count_nodust c * margin_fee \<rparr> else b);
          b = (if auto_shielding
               then (if \<not> is_confirmed (tr_status tx) then b\<lparr> ub_incoming := ub_incoming b + rc_utxo_value c \<rparr>
                     else b\<lparr> ub_immature_income := ub_immature_income b + rc_utxo_value c \<rparr>)
               else b\<lparr> ub_spendable := ub_spendable b + rc_utxo_value c \<rparr>)
      in if mature
         then b\<lparr> ub_spendable := ub_spendable b + (rc_useful_value c + rc_change c), ub_dust := ub_dust b + rc_dust_value c \<rparr>
         else if is_confirmed (tr_status tx)
         then b\<lparr> ub_immature_income := ub_immature_income b + rc_useful_value c,
                 ub_immature_change := ub_immature_change b + rc_change c, ub_dust := ub_dust b + rc_dust_value c \<rparr>
         else b\<lparr> ub_immature_change := ub_immature_change b + rc_change c, ub_incoming := ub_incoming b + rc_useful_value c,
                 ub_incoming_dust := ub_incoming_dust b + rc_dust_value c \<rparr>)"

definition get_user_balances :: "u64 \<Rightarrow> bool \<Rightarrow> ('t, 'uri) light_wallet \<Rightarrow> user_balances" where
  "get_user_balances margin_fee auto_shielding w =
     (let balances = fold (add_record_balances margin_fee auto_shielding (get_anchor_height w))
            (hm_values (tm_records (lw_tx_map w))) zero_user_balances
      in if ub_minimum_fees balances > 0
         then balances\<lparr> ub_minimum_fees := ub_minimum_fees balances + margin_fee \<rparr> else balances)"

section \<open>Lists of notes\<close>

definition note_address :: "(byte list \<Rightarrow> string option) option \<Rightarrow> 'n shielded_note \<Rightarrow> string option" where
  "note_address fvk n =
     (case fvk of
        None \<Rightarrow> None
      | Some ua_of_diversifier \<Rightarrow>
          Some (case ua_of_diversifier (sn_diversifier n) of
                  Some ua \<Rightarrow> ua
                | None \<Rightarrow> ''Diversifier not in wallet. Perhaps you restored from seed and didn't restore addresses''))"

definition spent_json :: "display_lib \<Rightarrow> spend \<Rightarrow> json_value" where
  "spent_json D s = (case s of Some (s_txid, status) \<Rightarrow> if is_confirmed status then JsonString (dl_txid D s_txid) else JsonNull
                     | None \<Rightarrow> JsonNull)"

definition pending_spent_json :: "display_lib \<Rightarrow> spend \<Rightarrow> json_value" where
  "pending_spent_json D s = (case s of Some (s_txid, status) \<Rightarrow> if \<not> is_confirmed status then JsonString (dl_txid D s_txid) else JsonNull
                     | None \<Rightarrow> JsonNull)"

definition spent_at_height_json :: "spend \<Rightarrow> json_value" where
  "spent_at_height_json s = json_option (\<lambda>(_, status). json_u32 (get_height status)) s"

definition shielded_note_json ::
  "display_lib \<Rightarrow> block_height \<Rightarrow> txid \<Rightarrow> transaction_record \<Rightarrow> u64 \<Rightarrow> string \<Rightarrow> spend \<Rightarrow> json_value" where
  "shielded_note_json D anchor_height transaction_id r v address s =
     (let spendable = is_confirmed_after_or_at (tr_status r) anchor_height \<and> s = None
      in JsonObject [(''created_in_block'', json_u32 (get_height (tr_status r))), (''datetime'', json_u64 (tr_datetime r)),
           (''created_in_txid'', JsonString (dl_txid D transaction_id)), (''value'', json_u64 v),
           (''pending'', JsonBoolean (\<not> is_confirmed (tr_status r))), (''address'', JsonString address),
           (''spendable'', JsonBoolean spendable), (''spent'', spent_json D s), (''pending_spent'', pending_spent_json D s),
           (''spent_at_height'', spent_at_height_json s)])"

definition unspent_pending_spent ::
  "json_value \<Rightarrow> json_value list \<times> json_value list \<times> json_value list \<Rightarrow>
   json_value list \<times> json_value list \<times> json_value list" where
  "unspent_pending_spent note_json = (\<lambda>(unspent, spend_is_pending, spend_is_confirmed).
     if json_get note_json ''spent'' = JsonNull \<and> json_get note_json ''pending_spent'' = JsonNull
     then (unspent @ [note_json], spend_is_pending, spend_is_confirmed)
     else if json_get note_json ''spent'' \<noteq> JsonNull
     then (unspent, spend_is_pending, spend_is_confirmed @ [note_json])
     else (unspent, spend_is_pending @ [note_json], spend_is_confirmed))"

text \<open>The results are the unspent, the spent and the pending spent outputs.\<close>

definition sort_notes :: "json_value list \<Rightarrow> json_value list \<times> json_value list \<times> json_value list" where
  "sort_notes js = (case fold unspent_pending_spent js ([], [], []) of
     (unspent, pending, spent) \<Rightarrow> (unspent, spent, pending))"

definition sapling_note_jsons ::
  "display_lib \<Rightarrow> (byte list \<Rightarrow> string option) option \<Rightarrow> bool \<Rightarrow> block_height \<Rightarrow> records \<Rightarrow> json_value list option" where
  "sapling_note_jsons D fvk all_notes anchor_height m =
     map_option concat (those (map (\<lambda>(transaction_id, r).
       those (map (\<lambda>n. map_option (\<lambda>address.
           shielded_note_json D anchor_height transaction_id r (sapling_value n) address (sn_spend n)) (note_address fvk n))
         (filter (\<lambda>n. \<not> (\<not> all_notes \<and> sn_spend n \<noteq> None)) (tr_sapling_notes r)))) m))"

definition list_sapling_notes ::
  "display_lib \<Rightarrow> (byte list \<Rightarrow> string option) option \<Rightarrow> bool \<Rightarrow> block_height \<Rightarrow> records \<Rightarrow>
   (json_value list \<times> json_value list \<times> json_value list) option" where
  "list_sapling_notes D fvk all_notes anchor_height m =
     map_option sort_notes (sapling_note_jsons D fvk all_notes anchor_height m)"

definition orchard_note_jsons ::
  "display_lib \<Rightarrow> (byte list \<Rightarrow> string option) option \<Rightarrow> bool \<Rightarrow> block_height \<Rightarrow> records \<Rightarrow> json_value list option" where
  "orchard_note_jsons D fvk all_notes anchor_height m =
     map_option concat (those (map (\<lambda>(transaction_id, r).
       those (map (\<lambda>n. map_option (\<lambda>address.
           shielded_note_json D anchor_height transaction_id r (orchard_value n) address (sn_spend n)) (note_address fvk n))
         (filter (\<lambda>n. \<not> (\<not> all_notes \<and> is_spent_confirmed (sn_spend n))) (tr_orchard_notes r)))) m))"

definition list_orchard_notes ::
  "display_lib \<Rightarrow> (byte list \<Rightarrow> string option) option \<Rightarrow> bool \<Rightarrow> block_height \<Rightarrow> records \<Rightarrow>
   (json_value list \<times> json_value list \<times> json_value list) option" where
  "list_orchard_notes D fvk all_notes anchor_height m =
     map_option sort_notes (orchard_note_jsons D fvk all_notes anchor_height m)"

text \<open>\<open>decode\<close> is \<open>None\<close> for an address that is not transparent, and otherwise gives the unified address that contains
  it, if there is one.\<close>

definition utxo_json ::
  "display_lib \<Rightarrow> (string \<Rightarrow> string option option) \<Rightarrow> txid \<Rightarrow> transaction_record \<Rightarrow> transparent_output \<Rightarrow> json_value option" where
  "utxo_json D decode transaction_id r utxo =
     (case decode (to_address utxo) of
        None \<Rightarrow> None
      | Some ua \<Rightarrow>
          (let spendable = is_confirmed (tr_status r) \<and> to_spend utxo = None
           in Some (JsonObject [(''created_in_block'', json_u32 (get_height (tr_status r))), (''datetime'', json_u64 (tr_datetime r)),
                (''created_in_txid'', JsonString (dl_txid D transaction_id)), (''value'', json_u64 (to_value utxo)),
                (''scriptkey'', JsonString (dl_hex D (to_script utxo))), (''address'', json_option JsonString ua),
                (''spendable'', JsonBoolean spendable), (''spent'', spent_json D (to_spend utxo)),
                (''pending_spent'', pending_spent_json D (to_spend utxo)),
                (''spent_at_height'', spent_at_height_json (to_spend utxo))])))"

definition list_transparent_outputs ::
  "display_lib \<Rightarrow> (string \<Rightarrow> string option option) \<Rightarrow> bool \<Rightarrow> records \<Rightarrow>
   (json_value list \<times> json_value list \<times> json_value list) option" where
  "list_transparent_outputs D decode all_notes m =
     map_option (sort_notes \<circ> concat) (those (map (\<lambda>(transaction_id, r).
       those (map (utxo_json D decode transaction_id r)
         (filter (\<lambda>utxo. \<not> (\<not> all_notes \<and> is_spent_confirmed (to_spend utxo))) (tr_transparent_outputs r)))) m))"

fun json_as_u64 :: "json_value \<Rightarrow> u64 option" where
  "json_as_u64 (JsonNumber (JsonInt i)) = (if 0 \<le> i \<and> i < 2 ^ 64 then Some (word_of_int i) else None)"
| "json_as_u64 _ = None"

definition sort_by_block :: "json_value list \<Rightarrow> json_value list" where
  "sort_by_block = sort_key (\<lambda>j. json_as_u64 (json_get j ''created_in_block''))"

record listing =
  ls_sapling_fvk :: "(byte list \<Rightarrow> string option) option"
  ls_orchard_fvk :: "(byte list \<Rightarrow> string option) option"
  ls_decode :: "string \<Rightarrow> string option option"

definition do_list_notes :: "display_lib \<Rightarrow> listing \<Rightarrow> bool \<Rightarrow> ('t, 'uri) light_wallet \<Rightarrow> json_value option" where
  "do_list_notes D L all_notes w =
     (let anchor_height = get_anchor_height w;
          m = tm_records (lw_tx_map w)
      in do {
        (unspent_sapling, spent_sapling, pending_sapling) \<leftarrow> list_sapling_notes D (ls_sapling_fvk L) all_notes anchor_height m;
        (unspent_orchard, spent_orchard, pending_orchard) \<leftarrow> list_orchard_notes D (ls_orchard_fvk L) all_notes anchor_height m;
        (unspent_transparent, spent_transparent, pending_transparent) \<leftarrow> list_transparent_outputs D (ls_decode L) all_notes m;
        let res = JsonObject
          [(''unspent_sapling_notes'', JsonArray (sort_by_block unspent_sapling)),
           (''pending_sapling_notes'', JsonArray (sort_by_block pending_sapling)),
           (''unspent_orchard_notes'', JsonArray (sort_by_block unspent_orchard)),
           (''pending_orchard_notes'', JsonArray (sort_by_block pending_orchard)),
           (''utxos'', JsonArray (sort_by_block unspent_transparent)),
           (''pending_utxos'', JsonArray (sort_by_block pending_transparent))];
        Some (if all_notes
              then json_set ''spent_utxos'' (JsonArray (sort_by_block spent_transparent))
                     (json_set ''spent_orchard_notes'' (JsonArray (sort_by_block spent_orchard))
                       (json_set ''spent_sapling_notes'' (JsonArray (sort_by_block spent_sapling)) res))
              else res) })"

definition list_outputs :: "('t, 'uri) light_wallet \<Rightarrow> wallet_output list" where
  "list_outputs w = concat (map get_record_outputs (hm_values (tm_records (lw_tx_map w))))"

definition do_seed_phrase :: "u64 \<Rightarrow> ('t, 'uri) light_wallet \<Rightarrow> string + (string \<times> u64 \<times> u32)" where
  "do_seed_phrase activation w =
     (case lw_mnemonic w of
        Some (phrase, account_index) \<Rightarrow> Inr (phrase, get_birthday activation w, account_index)
      | None \<Rightarrow> Inl ''This wallet is watch-only or was created without a mnemonic.'')"

end
