(* ===== verification/Value_Transfers_Laws.thy ===== *)
theory Value_Transfers_Laws
  imports Value_Transfers Client_Balances Record_Fees "HOL-Library.Multiset" "HOL-Library.Product_Lexorder"
begin

text \<open>
  Laws of the presentation: summaries are complete and in order, value transfers account for the value of their transaction,
  balance deltas are changes of the balance, the balances for users lose nothing, and notes are listed by their spend.
\<close>

section \<open>Summaries\<close>

lemma summary_of_eq:
  assumes "transaction_kind m r chain = Some kind"
  shows "transaction_summary_of m chain r = Some
    \<lparr> ts_txid = tr_txid r, ts_datetime = tr_datetime r, ts_status = tr_status r, ts_blockheight = get_height (tr_status r),
      ts_kind = kind, ts_value = (if kind = Sent Send then value_outgoing r else total_value_received r),
      ts_fee = res_ok (calculate_transaction_fee m r), ts_zec_price = tr_price r,
      ts_orchard_notes = map (\<lambda>out. \<lparr> os_value = orchard_value out, os_spend_summary = from_spend (sn_spend out),
                os_output_index = sn_output_index out, os_memo = text_memo (sn_memo out) \<rparr>) (tr_orchard_notes r),
      ts_sapling_notes = map (\<lambda>out. \<lparr> ss_value = sapling_value out, ss_spend_summary = from_spend (sn_spend out),
                ss_output_index = sn_output_index out, ss_memo = text_memo (sn_memo out) \<rparr>) (tr_sapling_notes r),
      ts_transparent_coins = map (\<lambda>out. \<lparr> tc_value = to_value out, tc_spend_summary = from_spend (to_spend out),
                tc_output_index = to_output_index out \<rparr>) (tr_transparent_outputs r),
      ts_outgoing_tx_data = tr_outgoing_tx_data r \<rparr>"
  using assms
  by (cases kind rule: transaction_kind_display.cases)
     (simp_all add: transaction_summary_of_def basic_transaction_summary_parts_def build_transaction_summary_def
      build_common_def new_transaction_summary_builder_def Let_def)

lemma summary_of_total: "transaction_summary_of m chain r \<noteq> None"
proof -
  obtain kind where "transaction_kind m r chain = Some kind" using transaction_kind_total by blast
  from summary_of_eq [OF this] show ?thesis by simp
qed

lemma summary_of_fields:
  assumes "transaction_summary_of m chain r = Some s"
  shows "ts_txid s = tr_txid r" "ts_status s = tr_status r" "ts_blockheight s = get_height (tr_status r)"
    "transaction_kind m r chain = Some (ts_kind s)"
    "ts_value s = (if ts_kind s = Sent Send then value_outgoing r else total_value_received r)"
    "ts_fee s = res_ok (calculate_transaction_fee m r)"
    "map os_value (ts_orchard_notes s) = map orchard_value (tr_orchard_notes r)"
    "map ss_value (ts_sapling_notes s) = map sapling_value (tr_sapling_notes r)"
    "map tc_value (ts_transparent_coins s) = map to_value (tr_transparent_outputs r)"
    "ts_outgoing_tx_data s = tr_outgoing_tx_data r"
proof -
  obtain kind where k: "transaction_kind m r chain = Some kind" using transaction_kind_total by blast
  note e = summary_of_eq [OF k] assms
  show "ts_txid s = tr_txid r" "ts_status s = tr_status r" "ts_blockheight s = get_height (tr_status r)"
    "transaction_kind m r chain = Some (ts_kind s)"
    "ts_value s = (if ts_kind s = Sent Send then value_outgoing r else total_value_received r)"
    "ts_fee s = res_ok (calculate_transaction_fee m r)"
    "map os_value (ts_orchard_notes s) = map orchard_value (tr_orchard_notes r)"
    "map ss_value (ts_sapling_notes s) = map sapling_value (tr_sapling_notes r)"
    "map tc_value (ts_transparent_coins s) = map to_value (tr_transparent_outputs r)"
    "ts_outgoing_tx_data s = tr_outgoing_tx_data r"
    using e k by auto
qed

definition summary_key :: "transaction_summary \<Rightarrow> block_height \<times> bool" where
  "summary_key s = (ts_blockheight s, starts_with_tex s)"

lemma compare_summaries_key: "compare_summaries a b = Greater \<longleftrightarrow> summary_key b < summary_key a"
  by (auto simp: compare_summaries_def summary_key_def compare_def less_prod_simp split: bool.splits)

lemma transaction_summaries_eq:
  "\<exists>ss. those (map (transaction_summary_of m chain) (hm_values m)) = Some ss \<and>
     transaction_summaries m chain = Some (sort_key summary_key ss)"
  using those_total [of "hm_values m" "transaction_summary_of m chain"] summary_of_total
  by (auto simp: transaction_summaries_def sort_by_key [OF compare_summaries_key])

text \<open>The list of transaction summaries holds the summary of every record exactly once, by increasing height, and within
  a height the transactions that pay a tex address come after the others.\<close>

theorem summaries_in_order:
  "\<exists>ss. transaction_summaries m chain = Some ss \<and>
     mset (map Some ss) = mset (map (transaction_summary_of m chain) (hm_values m)) \<and>
     sorted (map ts_blockheight ss) \<and>
     sorted (map (\<lambda>s. (ts_blockheight s, starts_with_tex s)) ss)"
proof -
  obtain ss where ss: "map (transaction_summary_of m chain) (hm_values m) = map Some ss"
    "transaction_summaries m chain = Some (sort_key summary_key ss)"
    using transaction_summaries_eq [of m chain] by (auto simp: those_eq)
  let ?s = "sort_key summary_key ss"
  have s: "sorted (map (\<lambda>s. (ts_blockheight s, starts_with_tex s)) ?s)"
    using sorted_sort_key [of summary_key ss] by (simp add: summary_key_def [abs_def])
  have "sorted (map ts_blockheight ?s)"
    using s unfolding sorted_map by (rule sorted_wrt_mono_rel [rotated]) (auto simp: less_eq_prod_simp)
  with s show ?thesis using ss by (simp del: mset_map add: mset_map [symmetric]) (simp add: mset_map)
qed

section \<open>Value transfers\<close>

definition transfer_of ::
  "transaction_summary \<Rightarrow> value_transfer_kind \<Rightarrow> u64 \<Rightarrow> string option \<Rightarrow> string option \<Rightarrow> string list \<Rightarrow> value_transfer" where
  "transfer_of tx kind v recipient pool memos =
     \<lparr> vt_txid = ts_txid tx, vt_datetime = ts_datetime tx, vt_status = ts_status tx, vt_blockheight = ts_blockheight tx,
       vt_transaction_fee = ts_fee tx, vt_zec_price = ts_zec_price tx, vt_kind = kind, vt_value = v,
       vt_recipient_address = recipient, vt_pool_received = pool, vt_memos = memos \<rparr>"

lemma make_transfer_eq: "make_transfer tx kind v recipient pool memos = Some (transfer_of tx kind v recipient pool memos)"
  by (simp add: make_transfer_def transfer_builder_def new_value_transfer_builder_def build_value_transfer_def transfer_of_def)

lemma transfer_of_simps [simp]:
  "vt_txid (transfer_of tx kind v recipient pool memos) = ts_txid tx"
  "vt_kind (transfer_of tx kind v recipient pool memos) = kind"
  "vt_value (transfer_of tx kind v recipient pool memos) = v"
  "vt_recipient_address (transfer_of tx kind v recipient pool memos) = recipient"
  by (simp_all add: transfer_of_def)

text \<open>What is paid to an address.\<close>

definition paid_to :: "outgoing_tx_data list \<Rightarrow> string \<Rightarrow> u64" where
  "paid_to ds address = sum_list (map ot_value (filter (\<lambda>d. outgoing_address d = address) ds))"

lemma send_transfers_eq:
  "create_send_value_transfers P tx = Some (map (\<lambda>a. transfer_of tx (SentTransfer SendTransfer) (paid_to (ts_outgoing_tx_data tx) a)
     (Some a) None (outgoing_text_memos (filter (\<lambda>d. outgoing_address d = a) (ts_outgoing_tx_data tx))))
     (pr_iter P (map outgoing_address (ts_outgoing_tx_data tx))))"
  by (simp add: create_send_value_transfers_def send_value_transfer_def make_transfer_eq paid_to_def those_eq Let_def)

lemma sum_paid_to:
  assumes "distinct as" "set as = outgoing_address ` set ds"
  shows "sum_list (map (paid_to ds) as) = sum_list (map ot_value ds)"
proof -
  have "sum_list (map (paid_to ds) as) = (\<Sum>a \<in> outgoing_address ` set ds. paid_to ds a)"
    using assms by (simp add: sum_list_distinct_conv_sum_set)
  also have "\<dots> = sum_list (map ot_value ds)"
  proof -
    have "(\<Sum>a \<in> A. paid_to ds a) = sum_list (map ot_value (filter (\<lambda>d. outgoing_address d \<in> A) ds))" if "finite A" for A
      using that
    proof (induction A)
      case (insert a A)
      have "sum_list (map ot_value (filter (\<lambda>d. outgoing_address d \<in> insert a A) ds)) =
          paid_to ds a + sum_list (map ot_value (filter (\<lambda>d. outgoing_address d \<in> A) ds))"
        using insert.hyps(2) unfolding paid_to_def by (induction ds) (auto simp: ac_simps)
      with insert show ?case by simp
    qed simp
    moreover have "filter (\<lambda>d. outgoing_address d \<in> outgoing_address ` set ds) ds = ds"
      by (rule filter_True) simp
    ultimately show ?thesis by simp
  qed
  finally show ?thesis .
qed

lemma transfers_of_total: "transfers_of P tx \<noteq> None"
  by (cases "ts_kind tx" rule: transaction_kind_display.cases)
     (auto simp: transfers_of_def send_transfers_eq memo_to_self_transfers_def orchard_transfers_def sapling_transfers_def
        transparent_transfers_def make_transfer_eq)

lemma transfers_txid: "transfers_of P tx = Some vs \<Longrightarrow> v \<in> set vs \<Longrightarrow> vt_txid v = ts_txid tx"
  by (cases "ts_kind tx" rule: transaction_kind_display.cases)
     (auto simp: transfers_of_def send_transfers_eq memo_to_self_transfers_def orchard_transfers_def sapling_transfers_def
        transparent_transfers_def make_transfer_eq split: if_splits)

lemma received_sum:
  "total_value_received r = sum_list (map to_value (tr_transparent_outputs r)) + sum_list (map sapling_value (tr_sapling_notes r)) +
     sum_list (map orchard_value (tr_orchard_notes r))"
  by (simp add: total_value_received_outputs get_record_outputs_def comp_def ac_simps)

lemma value_outgoing_sum: "value_outgoing r = sum_list (map ot_value (tr_outgoing_tx_data r))"
proof -
  have "foldl (\<lambda>t d. ot_value d + t) a ds = a + sum_list (map ot_value ds)" for a :: u64 and ds :: "outgoing_tx_data list"
    by (induction ds arbitrary: a) (simp_all add: ac_simps)
  then show ?thesis by (simp add: value_outgoing_def)
qed

lemma sent_transfers:
  assumes "ts_kind tx = Sent Send" "transfers_of P tx = Some vs" "iterates (pr_iter P)"
  shows "sum_list (map vt_value vs) = sum_list (map ot_value (ts_outgoing_tx_data tx))"
proof -
  obtain ms where ms: "memo_to_self_transfers tx = Some ms" "sum_list (map vt_value ms) = 0"
    by (cases "receives_memos tx") (simp_all add: memo_to_self_transfers_def make_transfer_eq)
  let ?as = "pr_iter P (map outgoing_address (ts_outgoing_tx_data tx))"
  have "distinct ?as" "set ?as = outgoing_address ` set (ts_outgoing_tx_data tx)"
    using assms(3) unfolding iterates_def by auto
  from sum_paid_to [OF this] ms assms(1,2) show ?thesis
    by (auto simp: transfers_of_def send_transfers_eq comp_def)
qed

lemma received_transfers:
  assumes "ts_kind tx = Received" "transfers_of P tx = Some vs"
  shows "sum_list (map vt_value vs) = sum_list (map tc_value (ts_transparent_coins tx)) +
    sum_list (map ss_value (ts_sapling_notes tx)) + sum_list (map os_value (ts_orchard_notes tx))"
  using assms
  by (auto simp: transfers_of_def orchard_transfers_def sapling_transfers_def transparent_transfers_def make_transfer_eq ac_simps
      split: if_splits)

text \<open>C31. The value transfers of a transaction account for its value: those of a sent transaction add up to what its
  outgoing data pay, those of a received transaction to what its outputs are worth, and the recipients of the
  transfers of one transaction are distinct.\<close>

theorem transfers_account_for_value:
  assumes "iterates (pr_iter P)" "transaction_summary_of m chain r = Some tx" "ts_kind tx = Sent Send \<or> ts_kind tx = Received"
  shows "\<exists>vs. transfers_of P tx = Some vs \<and> sum_list (map vt_value vs) = ts_value tx \<and>
    distinct (List.map_filter vt_recipient_address vs)"
proof -
  obtain vs where vs: "transfers_of P tx = Some vs" using transfers_of_total by blast
  note f = summary_of_fields [OF assms(2)]
  have d: "distinct (pr_iter P xs)" for xs using assms(1) by (simp add: iterates_def)
  have id: "List.map_filter vt_recipient_address (map (\<lambda>a. transfer_of tx k (v a) (Some a) None (ms a)) xs) = xs" for k v ms xs
    by (induction xs) (simp_all add: List.map_filter_simps)
  show ?thesis
  proof (cases "ts_kind tx = Received")
    case True
    then have "List.map_filter vt_recipient_address vs = []"
      using vs by (auto simp: transfers_of_def orchard_transfers_def sapling_transfers_def transparent_transfers_def make_transfer_eq
          List.map_filter_simps split: if_splits)
    moreover have "ts_value tx = total_value_received r" using f(5) True by simp
    ultimately show ?thesis using vs received_transfers [OF True vs] f(7-9) received_sum [of r] by simp
  next
    case False
    then have k: "ts_kind tx = Sent Send" using assms(3) by simp
    have "List.map_filter vt_recipient_address vs = pr_iter P (map outgoing_address (ts_outgoing_tx_data tx))"
      using vs k by (cases "receives_memos tx") (auto simp: transfers_of_def send_transfers_eq memo_to_self_transfers_def make_transfer_eq id
          map_filter_append List.map_filter_simps)
    moreover have "ts_value tx = value_outgoing r" using f(5) k by simp
    ultimately show ?thesis using vs sent_transfers [OF k vs assms(1)] f(10) d value_outgoing_sum [of r] by simp
  qed
qed

section \<open>Balance deltas\<close>

lemma sint_word_of_int_u64:
  assumes "- (2 ^ 63) \<le> k" "k < 2 ^ 63"
  shows "sint (word_of_int k :: u64) = k"
proof -
  have "sint (word_of_int k :: u64) = signed_take_bit 63 (take_bit 64 k)"
    by (simp add: sint_uint unsigned_of_int)
  also have "\<dots> = signed_take_bit 63 k" by (simp add: signed_take_bit_take_bit)
  also have "\<dots> = k" using assms by (intro signed_take_bit_int_eq_self) simp_all
  finally show ?thesis .
qed

lemma sint_diff_small:
  assumes "unat (x :: u64) < 2 ^ 63" "unat (y :: u64) < 2 ^ 63"
  shows "sint (x - y) = int (unat x) - int (unat y)"
proof -
  have "x - y = word_of_int (int (unat x) - int (unat y))" by simp
  moreover have "int (unat x) < 2 ^ 63" "int (unat y) < 2 ^ 63"
    using assms by (metis of_nat_less_iff of_nat_numeral of_nat_power)+
  then have "- (2 ^ 63) \<le> int (unat x) - int (unat y)" "int (unat x) - int (unat y) < 2 ^ 63"
    using of_nat_0_le_iff [of "unat x"] of_nat_0_le_iff [of "unat y"] by linarith+
  ultimately show ?thesis using sint_word_of_int_u64 by presburger
qed

lemma fee_value:
  assumes "calculate_transaction_fee m r = Inr fee"
  shows "\<exists>v. total_value_input_to_transaction m r = Inr v \<and> fee = v - (total_value_received r + value_outgoing r)"
  using assms
  by (auto simp: calculate_transaction_fee_def total_value_output_to_explicit_receivers_def Let_def split: sum.splits if_splits)

text \<open>C32. When the fee is known, the balance delta of a summary is the change of the wallet's balance: what the transaction
  pays to the wallet less what it takes from it. For a transaction to oneself that carries a
  donation, the delta is larger by the donation, which the code leaves out.\<close>

theorem balance_delta_is_wallet_change:
  assumes "transaction_summary_of m chain r = Some s" "calculate_transaction_fee m r = Inr fee"
    and "total_value_input_to_transaction m r = Inr inputs"
    and "unat (total_value_received r) < 2 ^ 62" "unat (value_outgoing r) < 2 ^ 62" "unat inputs < 2 ^ 63"
    and "ts_kind s \<noteq> Received"
  shows "balance_delta s = Some (int (unat (total_value_received r)) - int (unat inputs) +
    (if ts_kind s = Sent SendToSelf then int (unat (value_outgoing r)) else 0))"
proof -
  note f = summary_of_fields [OF assms(1)]
  have fee: "fee = inputs - (total_value_received r + value_outgoing r)"
    using fee_value [OF assms(2)] assms(3) by simp
  have fs: "ts_fee s = Some fee" using f(6) assms(2) by simp
  have add: "unat (total_value_received r + value_outgoing r) = unat (total_value_received r) + unat (value_outgoing r)"
    using assms(4,5) by (simp add: unat_add_lem [THEN iffD1])
  consider "ts_kind s = Sent Send" | "ts_kind s = Sent Shield" | "ts_kind s = Sent SendToSelf"
    using assms(7) by (cases "ts_kind s" rule: transaction_kind_display.cases) auto
  then show ?thesis
  proof cases
    case 1
    have "- (ts_value s + fee) = total_value_received r - inputs" using f(5) 1 fee by simp
    then show ?thesis using 1 fs sint_diff_small [of "total_value_received r" inputs] assms(4,6)
      by (simp add: balance_delta_def)
  next
    case 2
    then have "tr_outgoing_tx_data r = []"
      using f(4) by (auto simp: transaction_kind_def Let_def split: sum.splits if_splits)
    then have "value_outgoing r = 0" by (simp add: value_outgoing_sum)
    then have "- fee = total_value_received r - inputs" using fee by simp
    then show ?thesis using 2 fs sint_diff_small [of "total_value_received r" inputs] assms(4,6)
      by (simp add: balance_delta_def)
  next
    case 3
    have "- fee = total_value_received r + value_outgoing r - inputs" using fee by simp
    then show ?thesis using 3 fs sint_diff_small [of "total_value_received r + value_outgoing r" inputs] assms(4-6) add
      by (simp add: balance_delta_def)
  qed
qed

section \<open>Every transaction has a transfer\<close>

lemma transfers_of_empty:
  assumes "transaction_summary_of m chain r = Some tx" "transfers_of P tx = Some vs" "iterates (pr_iter P)"
  shows "vs = [] \<longleftrightarrow> ts_kind tx = Received \<and> get_record_outputs r = []"
proof -
  note f = summary_of_fields [OF assms(1)]
  have len: "ts_orchard_notes tx = [] \<longleftrightarrow> tr_orchard_notes r = []" "ts_sapling_notes tx = [] \<longleftrightarrow> tr_sapling_notes r = []"
    "ts_transparent_coins tx = [] \<longleftrightarrow> tr_transparent_outputs r = []"
    using arg_cong [OF f(7), of length] arg_cong [OF f(8), of length] arg_cong [OF f(9), of length] by auto
  have ne: "pr_iter P xs = [] \<longleftrightarrow> xs = []" for xs
    using assms(3) unfolding iterates_def by (metis set_empty)
  have send: "tr_outgoing_tx_data r \<noteq> []" if "ts_kind tx = Sent Send"
    using that f(4) by (auto simp: transaction_kind_def Let_def split: sum.splits if_splits)
  have shield: "tr_orchard_notes r \<noteq> [] \<or> tr_sapling_notes r \<noteq> []" if "ts_kind tx = Sent Shield"
    using that f(4) by (auto simp: transaction_kind_def Let_def split: sum.splits if_splits)
  show ?thesis
  proof (cases "ts_kind tx" rule: transaction_kind_display.cases)
    case 1
    then show ?thesis using assms(2) len
      by (auto simp: transfers_of_def orchard_transfers_def sapling_transfers_def transparent_transfers_def make_transfer_eq
          get_record_outputs_def split: if_splits)
  next
    case 2
    then show ?thesis using assms(2) send f(10) ne by (auto simp: transfers_of_def send_transfers_eq split: Option.bind_splits)
  next
    case 3
    then show ?thesis using assms(2) shield len
      by (auto simp: transfers_of_def orchard_transfers_def sapling_transfers_def make_transfer_eq split: if_splits)
  next
    case 4
    then show ?thesis using assms(2)
      by (auto simp: transfers_of_def send_transfers_eq memo_to_self_transfers_def make_transfer_eq split: if_splits)
  qed
qed

text \<open>The list of value transfers is always produced, and every transaction of the wallet that has an output, or is not
  a received one, has at least one value transfer in it.\<close>

theorem every_transaction_has_a_transfer:
  assumes "iterates (pr_iter P)"
  shows "\<exists>vs. value_transfers P m chain = Some vs \<and>
    (\<forall>r \<in> set (hm_values m). get_record_outputs r \<noteq> [] \<or> transaction_kind m r chain \<noteq> Some Received \<longrightarrow>
      (\<exists>v \<in> set vs. vt_txid v = tr_txid r))"
proof -
  obtain ss where ss: "map (transaction_summary_of m chain) (hm_values m) = map Some ss"
    "transaction_summaries m chain = Some (sort_key summary_key ss)"
    using transaction_summaries_eq [of m chain] by (auto simp: those_eq)
  obtain vss where vss: "map (transfers_of P) (sort_key summary_key ss) = map Some vss"
    using those_total [of "sort_key summary_key ss" "transfers_of P"] transfers_of_total by (auto simp: those_eq)
  have "\<exists>v \<in> set (concat vss). vt_txid v = tr_txid r"
    if r: "r \<in> set (hm_values m)" "get_record_outputs r \<noteq> [] \<or> transaction_kind m r chain \<noteq> Some Received" for r
  proof -
    obtain tx where tx: "transaction_summary_of m chain r = Some tx" using summary_of_total by blast
    have "Some tx \<in> set (map (transaction_summary_of m chain) (hm_values m))"
      unfolding set_map using r(1) tx by (metis image_eqI)
    then have "tx \<in> set ss" unfolding ss(1) by auto
    moreover obtain vs where vs: "transfers_of P tx = Some vs" using transfers_of_total by blast
    ultimately have "Some vs \<in> set (map (transfers_of P) (sort_key summary_key ss))"
      unfolding set_map by (metis image_eqI set_sort)
    then have "vs \<in> set vss" unfolding vss by auto
    moreover have "vs \<noteq> []"
      using transfers_of_empty [OF tx vs assms] r(2) summary_of_fields(4) [OF tx] by auto
    then have "hd vs \<in> set vs" by simp
    moreover from this have "vt_txid (hd vs) = tr_txid r"
      using transfers_txid [OF vs] summary_of_fields(1) [OF tx] by simp
    ultimately show ?thesis by auto
  qed
  moreover have "value_transfers P m chain = Some (concat vss)"
    using ss(2) vss by (simp add: value_transfers_def those_eq)
  ultimately show ?thesis by blast
qed

section \<open>Printing\<close>

text \<open>The format string of a detailed summary lists the nullifiers before the notes, its arguments list them last: the
  figures appear under each other's labels.\<close>

lemma detailed_display_mislabels:
  "map_of (zip detailed_labels (detailed_arguments D s)) ''orchard_nullifiers'' =
     Some (display_each (orchard_note_summary_display D) (ts_orchard_notes s))"
  "map_of (zip detailed_labels (detailed_arguments D s)) ''transparent coins'' = Some (display_each id (dts_orchard_nullifiers s))"
  by (simp_all add: detailed_labels_def detailed_arguments_def prepare_for_display_def Let_def)

lemma calculated_spend_shown_unspent: "from_spend (Some (t, Calculated h)) = Unspent"
  by simp

section \<open>Balances for users\<close>

text \<open>The value of a record that the balances have to account for: all unspent outputs of a record with income, and
  only the unspent change of another one.\<close>

definition counted_value :: "transaction_record \<Rightarrow> u64" where
  "counted_value tx =
     (let unspent = \<lambda>nvalue notes. sum_list (map nvalue (filter (\<lambda>n. sn_spend n = None \<and>
            (is_incoming_transaction tx \<or> sn_is_change n)) notes))
      in unspent orchard_value (tr_orchard_notes tx) + sum_list (map sapling_value (filter (\<lambda>n. sn_spend n = None \<and>
            (is_incoming_transaction tx \<or> sn_is_change n)) (tr_sapling_notes tx))) +
         (if is_incoming_transaction tx
          then sum_list (map to_value (filter (\<lambda>u. to_spend u = None) (tr_transparent_outputs tx))) else 0))"

definition counters_total :: "record_counters \<Rightarrow> u64" where
  "counters_total c = rc_change c + rc_useful_value c + rc_dust_value c + rc_utxo_value c"

definition balances_total :: "user_balances \<Rightarrow> u64" where
  "balances_total b = ub_spendable b + ub_immature_change b + ub_immature_income b + ub_dust b + ub_incoming b + ub_incoming_dust b"

lemma counters_count_note:
  "counters_total (count_note mf incoming v ch c) = counters_total c + (if incoming \<or> ch then v else 0)"
  by (simp add: counters_total_def count_note_def)

lemma counters_count_utxo:
  "counters_total (count_utxo mf incoming v c) = counters_total c + (if incoming then v else 0)"
  by (simp add: counters_total_def count_utxo_def)

lemma counters_count_notes:
  "counters_total (fold (\<lambda>n. count_note mf incoming (nv n) (sn_is_change n)) ns c) =
   counters_total c + sum_list (map nv (filter (\<lambda>n. incoming \<or> sn_is_change n) ns))"
  by (induction ns arbitrary: c) (auto simp: counters_count_note ac_simps)

lemma counters_count_utxos:
  "counters_total (fold (\<lambda>u. count_utxo mf incoming (to_value u)) us c) =
   counters_total c + (if incoming then sum_list (map to_value us) else 0)"
  by (induction us arbitrary: c) (auto simp: counters_count_utxo ac_simps)

lemma count_record_total: "counters_total (count_record mf tx) = counted_value tx"
  by (simp add: count_record_def Let_def counters_count_notes counters_count_utxos counted_value_def conj_commute)
     (simp add: counters_total_def)

lemma add_record_total: "balances_total (add_record_balances mf auto h tx b) = balances_total b + counted_value tx"
  unfolding count_record_total [of mf, symmetric]
  by (simp add: add_record_balances_def Let_def balances_total_def counters_total_def ac_simps)

lemma add_records_total:
  "balances_total (fold (add_record_balances mf auto h) rs b) = balances_total b + sum_list (map counted_value rs)"
  by (induction rs arbitrary: b) (simp_all add: add_record_total ac_simps)


section \<open>Lists of notes\<close>

definition spend_of_json :: "json_value \<Rightarrow> bool \<times> bool" where
  "spend_of_json j = (json_get j ''spent'' \<noteq> JsonNull, json_get j ''pending_spent'' \<noteq> JsonNull)"

lemma fold_unspent_pending_spent:
  "fold unspent_pending_spent js (u, p, s) =
   (u @ filter (\<lambda>j. spend_of_json j = (False, False)) js, p @ filter (\<lambda>j. spend_of_json j = (False, True)) js,
    s @ filter (\<lambda>j. fst (spend_of_json j)) js)"
  by (induction js arbitrary: u p s) (auto simp: unspent_pending_spent_def spend_of_json_def)

lemma sort_notes_eq:
  "sort_notes js = (filter (\<lambda>j. spend_of_json j = (False, False)) js, filter (\<lambda>j. fst (spend_of_json j)) js,
     filter (\<lambda>j. spend_of_json j = (False, True)) js)"
  by (simp add: sort_notes_def fold_unspent_pending_spent)

lemma spend_of_shielded_json [simp]:
  "spend_of_json (shielded_note_json D h t r v a s) = (is_spent_confirmed s, is_pending_spent s)"
  by (cases s) (auto simp: spend_of_json_def shielded_note_json_def spent_json_def pending_spent_json_def Let_def split: if_splits)

definition orchard_listing :: "records \<Rightarrow> (txid \<times> transaction_record \<times> orchard_note) list" where
  "orchard_listing m = concat (map (\<lambda>(t, r). map (\<lambda>n. (t, r, n)) (tr_orchard_notes r)) m)"

definition shown_address :: "(byte list \<Rightarrow> string option) \<Rightarrow> 'n shielded_note \<Rightarrow> string" where
  "shown_address f n = (case note_address (Some f) n of Some a \<Rightarrow> a | None \<Rightarrow> '''')"

definition orchard_json where
  "orchard_json D f h = (\<lambda>(t, r, n). shielded_note_json D h t r (orchard_value n) (shown_address f n) (sn_spend n))"

lemma orchard_note_jsons_eq:
  "orchard_note_jsons D (Some f) all h m = Some (map (orchard_json D f h)
     (filter (\<lambda>(t, r, n). all \<or> \<not> is_spent_confirmed (sn_spend n)) (orchard_listing m)))"
proof -
  have a: "map_option g (note_address (Some f) n) = Some (g (shown_address f n))" for g :: "string \<Rightarrow> json_value" and n :: orchard_note
    by (simp add: shown_address_def note_address_def)
  have inner: "those (map (\<lambda>n. map_option (\<lambda>address. shielded_note_json D h t r (orchard_value n) address (sn_spend n))
      (note_address (Some f) n)) ns) = Some (map (\<lambda>n. orchard_json D f h (t, r, n)) ns)" for t r and ns :: "orchard_note list"
    by (simp add: those_eq a orchard_json_def)
  show ?thesis unfolding orchard_note_jsons_def inner case_prod_unfold
    by (simp add: those_map_return orchard_listing_def map_concat filter_concat comp_def case_prod_unfold filter_map)
qed

text \<open>Listing all Orchard notes puts every note of the wallet into exactly the list of its spend: without a spend, with
  a confirmed spend, or with a spend that is still pending, in the order of the records.\<close>

theorem orchard_notes_listed_by_spend:
  "list_orchard_notes D (Some f) True h m = Some
     (map (orchard_json D f h) (filter (\<lambda>(t, r, n). sn_spend n = None) (orchard_listing m)),
      map (orchard_json D f h) (filter (\<lambda>(t, r, n). is_spent_confirmed (sn_spend n)) (orchard_listing m)),
      map (orchard_json D f h) (filter (\<lambda>(t, r, n). is_pending_spent (sn_spend n)) (orchard_listing m)))"
proof -
  have s: "spend_of_json (orchard_json D f h x) = (case x of (t, r, n) \<Rightarrow> (is_spent_confirmed (sn_spend n), is_pending_spent (sn_spend n)))" for x
    by (simp add: orchard_json_def case_prod_beta)
  have u: "\<not> is_spent_confirmed sp \<and> \<not> is_pending_spent sp \<longleftrightarrow> sp = None" for sp
    by (cases sp) auto
  have p: "\<not> is_spent_confirmed sp \<and> is_pending_spent sp \<longleftrightarrow> is_pending_spent sp" for sp
    by (cases sp) auto
  show ?thesis
    by (simp add: list_orchard_notes_def orchard_note_jsons_eq sort_notes_eq filter_map comp_def s case_prod_unfold u p)
qed

text \<open>Without \<open>all_notes\<close> the Sapling list leaves out notes with a pending spend, too, so that the list of pending Sapling
  notes is always empty; the Orchard list keeps them.\<close>

lemma pending_sapling_never_listed:
  assumes "list_sapling_notes D fvk False h m = Some (u, s, p)"
  shows "s = [] \<and> p = []"
proof -
  obtain js where js: "sapling_note_jsons D fvk False h m = Some js" "sort_notes js = (u, s, p)"
    using assms by (auto simp: list_sapling_notes_def)
  have "spend_of_json j = (False, False)" if j: "j \<in> set js" for j
  proof -
    let ?row = "\<lambda>(t, r). those (map (\<lambda>n. map_option (\<lambda>address.
        shielded_note_json D h t r (sapling_value n) address (sn_spend n)) (note_address fvk n))
      (filter (\<lambda>n. \<not> (\<not> False \<and> sn_spend n \<noteq> None)) (tr_sapling_notes r)))"
    obtain jss where jss: "those (map ?row m) = Some jss" "js = concat jss"
      using js(1) unfolding sapling_note_jsons_def by blast
    then obtain js1 where "j \<in> set js1" "js1 \<in> set jss" using j by auto
    then obtain x where x: "?row x = Some js1" using those_mapE [OF jss(1)] by blast
    obtain t r where "x = (t, r)" by (cases x)
    with x \<open>j \<in> set js1\<close> obtain n where "sn_spend n = None"
      "map_option (\<lambda>address. shielded_note_json D h t r (sapling_value n) address (sn_spend n)) (note_address fvk n) = Some j"
      by (auto elim!: those_mapE [where y = j] simp del: not_None_eq)
    then obtain a where "sn_spend n = None" "j = shielded_note_json D h t r (sapling_value n) a (sn_spend n)" by auto
    then show ?thesis by simp
  qed
  then show ?thesis using js(2) by (auto simp: sort_notes_eq filter_empty_conv)
qed

section \<open>Witnesses\<close>

definition plain_presentation :: presentation where
  "plain_presentation = \<lparr> pr_iter = remdups, pr_pool = (\<lambda>_. ''pool''), pr_len = length \<rparr>"

lemma plain_iterates: "iterates (pr_iter plain_presentation)"
  by (simp add: iterates_def plain_presentation_def)

lemma example_sent_kind: "transaction_kind example_records example_sent Mainnet = Some (Sent Send)"
  by code_simp

lemma example_sent_fee: "calculate_transaction_fee example_records example_sent = Inr 10000"
  by code_simp

lemma example_sent_inputs: "total_value_input_to_transaction example_records example_sent = Inr 100000"
  by code_simp

lemma example_sent_values: "total_value_received example_sent = 30000" "value_outgoing example_sent = 60000"
  by code_simp+

theorem transfers_account_for_value_witness:
  "\<exists>tx vs. transaction_summary_of example_records Mainnet example_sent = Some tx \<and>
     transfers_of plain_presentation tx = Some vs \<and> sum_list (map vt_value vs) = 60000"
proof -
  obtain tx where tx: "transaction_summary_of example_records Mainnet example_sent = Some tx"
    using summary_of_total by blast
  note f = summary_of_fields [OF tx]
  have "ts_kind tx = Sent Send" using f(4) example_sent_kind by simp
  moreover from this have "ts_value tx = 60000" using f(5) example_sent_values by simp
  ultimately show ?thesis using transfers_account_for_value [OF plain_iterates tx] tx by auto
qed

theorem balance_delta_is_wallet_change_witness:
  "map_option balance_delta (transaction_summary_of example_records Mainnet example_sent) = Some (Some (- 70000))"
proof -
  obtain s where s: "transaction_summary_of example_records Mainnet example_sent = Some s"
    using summary_of_total by blast
  have "ts_kind s = Sent Send" using summary_of_fields(4) [OF s] example_sent_kind by simp
  then show ?thesis
    using balance_delta_is_wallet_change [OF s example_sent_fee example_sent_inputs] s by (simp add: example_sent_values)
qed

theorem every_transaction_has_a_transfer_witness:
  "\<exists>vs v. value_transfers plain_presentation example_records Mainnet = Some vs \<and> v \<in> set vs \<and> vt_txid v = [2]"
proof -
  have r: "example_sent \<in> set (hm_values example_records)" "tr_txid example_sent = [2]"
    by (simp_all add: example_records_def hm_values_def example_sent_def new_record_def)
  show ?thesis
    using every_transaction_has_a_transfer [OF plain_iterates, of example_records Mainnet] r example_sent_kind by fastforce
qed

end
