(* ===== verification/Command_Args.thy ===== *)
theory Command_Args
  imports Client_Balances Note_Selection "HOL-Library.Sublist"
begin

text \<open>
  The arguments of commands: \<open>commands/utils.rs\<close> with the errors of \<open>commands/error.rs\<close>, the conversions of \<open>utils/conversion.rs\<close> and
  \<open>utils.rs\<close>, the reading of memos in \<open>wallet/utils.rs\<close> and the receivers of \<open>data.rs\<close>. What the code uses of the standard library on strings
  (\<open>trim\<close>, \<open>parse\<close>) is defined on the bytes of the UTF-8 encoding.

  The \<open>json\<close> parser and printer, the decoding of addresses, hexadecimal decoding, the length check of memos and the
  payments of \<open>zip321\<close> belong to other crates and are the arguments \<open>json_lib\<close>, \<open>'addr address_lib\<close> and \<open>zip321\<close>.
  A result \<open>None\<close> is a panic.
\<close>

section \<open>Strings and numbers\<close>

text \<open>\<open>char::is_whitespace\<close>: the characters with the property \<open>White_Space\<close>, as their UTF-8 bytes.\<close>

definition white_space :: "string list" where
  "white_space = map (map char_of)
     ([[9], [10], [11], [12], [13], [32], [0xC2, 0x85], [0xC2, 0xA0], [0xE1, 0x9A, 0x80 :: nat]] @
      map (\<lambda>b. [0xE2, 0x80, b]) [0x80, 0x81, 0x82, 0x83, 0x84, 0x85, 0x86, 0x87, 0x88, 0x89, 0x8A, 0xA8, 0xA9, 0xAF] @
      [[0xE2, 0x81, 0x9F], [0xE3, 0x80, 0x80]])"

definition strip_any :: "string list \<Rightarrow> string \<Rightarrow> string option" where
  "strip_any ws s = map_option (\<lambda>w. drop (length w) s) (List.find (\<lambda>w. prefix w s) ws)"

function strip_all :: "string list \<Rightarrow> string \<Rightarrow> string" where
  "strip_all ws s =
     (case strip_any ws s of
        None \<Rightarrow> s
      | Some rest \<Rightarrow> if length rest < length s then strip_all ws rest else s)"
  by pat_completeness auto

termination by (relation "measure (length \<circ> snd)") (auto simp: strip_any_def)

declare strip_all.simps [simp del]

text \<open>\<open>str::trim\<close>. UTF-8 is self-synchronising, so that the trailing white space can be matched from the end.\<close>

definition trim :: "string \<Rightarrow> string" where
  "trim s = rev (strip_all (map rev white_space) (rev (strip_all white_space s)))"

datatype parse_int_error = PI_Empty | PI_InvalidDigit | PI_PosOverflow

definition digit_value :: "char \<Rightarrow> nat option" where
  "digit_value c = (if 48 \<le> (of_char c :: nat) \<and> (of_char c :: nat) \<le> 57 then Some (of_char c - 48) else None)"

fun parse_digits :: "nat \<Rightarrow> nat \<Rightarrow> string \<Rightarrow> parse_int_error + nat" where
  "parse_digits bound result [] = Inr result"
| "parse_digits bound result (c # cs) =
     (case digit_value c of
        None \<Rightarrow> Inl PI_InvalidDigit
      | Some x \<Rightarrow>
          if bound \<le> result * 10 + x then Inl PI_PosOverflow
          else parse_digits bound (result * 10 + x) cs)"

text \<open>\<open>str::parse\<close> for an unsigned integer below \<open>bound\<close>: a leading plus is accepted, a lone sign is not.\<close>

fun parse_unsigned :: "nat \<Rightarrow> string \<Rightarrow> parse_int_error + nat" where
  "parse_unsigned bound [] = Inl PI_Empty"
| "parse_unsigned bound (c # cs) =
     (if c = CHR ''+'' then (if cs = [] then Inl PI_InvalidDigit else parse_digits bound 0 cs)
      else parse_digits bound 0 (c # cs))"

definition parse_u64 :: "string \<Rightarrow> parse_int_error + u64" where
  "parse_u64 s = map_sum id word_of_nat (parse_unsigned (2 ^ 64) s)"

definition parse_u32 :: "string \<Rightarrow> parse_int_error + u32" where
  "parse_u32 s = map_sum id word_of_nat (parse_unsigned (2 ^ 32) s)"

fun parse_int_error_display :: "parse_int_error \<Rightarrow> string" where
  "parse_int_error_display PI_Empty = ''cannot parse integer from empty string''"
| "parse_int_error_display PI_InvalidDigit = ''invalid digit found in string''"
| "parse_int_error_display PI_PosOverflow = ''number too large to fit in target type''"

section \<open>Arguments\<close>

record json_lib =
  jl_parse :: "string \<Rightarrow> string + json_value"
  jl_to_string :: "json_value \<Rightarrow> string"
  jl_pretty :: "nat \<Rightarrow> json_value \<Rightarrow> string"
  jl_is_empty :: "json_value \<Rightarrow> bool"
  jl_as_u64 :: "json_number \<Rightarrow> u64 option"

text \<open>A \<open>ParseError\<close> of an address is its message.\<close>

record 'addr address_lib =
  al_try_from_encoded :: "string \<Rightarrow> string + 'addr"
  al_can_receive_memo :: "'addr \<Rightarrow> bool"
  al_amounts :: amount_ops
  al_hex_decode :: "string \<Rightarrow> string + byte list"
  al_memo_from_bytes :: "byte list \<Rightarrow> byte list option"
  al_debug :: "string \<Rightarrow> string"

fun json_is_array :: "json_value \<Rightarrow> bool" where
  "json_is_array (JsonArray _) = True"
| "json_is_array _ = False"

fun json_members :: "json_value \<Rightarrow> json_value list" where
  "json_members (JsonArray xs) = xs"
| "json_members _ = []"

fun json_has_key :: "json_value \<Rightarrow> string \<Rightarrow> bool" where
  "json_has_key (JsonObject kvs) key = (map_of kvs key \<noteq> None)"
| "json_has_key _ key = False"

fun json_as_str :: "json_value \<Rightarrow> string option" where
  "json_as_str (JsonString s) = Some s"
| "json_as_str _ = None"

fun json_as_bool :: "json_value \<Rightarrow> bool option" where
  "json_as_bool (JsonBoolean b) = Some b"
| "json_as_bool _ = None"

fun json_as_number :: "json_value \<Rightarrow> json_number option" where
  "json_as_number (JsonNumber n) = Some n"
| "json_as_number _ = None"

definition quoted :: "string \<Rightarrow> string" where
  "quoted s = [char_of (39 :: nat)] @ s @ [char_of (39 :: nat)]"

section \<open>Errors\<close>

datatype conversion_error =
    DecodeHexFailed string
  | InvalidStringLength
  | InvalidAddress string
  | OutsideValidRange

fun conversion_error_display :: "conversion_error \<Rightarrow> string" where
  "conversion_error_display (DecodeHexFailed e) = ''failed to decode hex. '' @ e"
| "conversion_error_display InvalidStringLength = ''invalid string length''"
| "conversion_error_display (InvalidAddress e) = ''invalid recipient address. '' @ e"
| "conversion_error_display OutsideValidRange = ''amount is outside the valid range of zatoshis''"

datatype command_error =
    CE_ArgsNotJson string
  | CE_ArgNotJsonOrValidAddress
  | CE_SingleArgNotJsonArray string
  | CE_JsonArrayNotObj string
  | CE_EmptyJsonArray
  | CE_ParseIntFromString parse_int_error
  | CE_UnexpectedType string
  | CE_MissingKey string
  | CE_InvalidArguments
  | CE_IncompatibleMemo
  | CE_InvalidMemo string
  | CE_NonJsonNumberForAmount string
  | CE_ConversionFailed conversion_error
  | CE_MissingZenniesForZingoFlag
  | CE_ZenniesFlagNonBool string

definition double_quote :: string where
  "double_quote = [char_of (34 :: nat)]"

fun command_error_display :: "command_error \<Rightarrow> string" where
  "command_error_display (CE_ArgsNotJson e) = ''failed to parse argument. '' @ e"
| "command_error_display CE_ArgNotJsonOrValidAddress =
     ''argument cannot be converted to a valid address or parsed as json.''"
| "command_error_display (CE_SingleArgNotJsonArray e) = ''argument cannot be parsed to a json array. '' @ e"
| "command_error_display (CE_JsonArrayNotObj e) = ''argument cannot be a json array. '' @ e"
| "command_error_display (CE_ZenniesFlagNonBool e) = ''Argument must be a JSON bool. '' @ e"
| "command_error_display CE_EmptyJsonArray = ''json array has no arguments''"
| "command_error_display (CE_ParseIntFromString e) = ''failed to parse argument. '' @ parse_int_error_display e"
| "command_error_display (CE_UnexpectedType e) = ''arguments cannot be parsed to expected type. '' @ e"
| "command_error_display (CE_MissingKey key) =
     ''json array is missing '' @ double_quote @ key @ double_quote @ '' key.''"
| "command_error_display CE_InvalidArguments = ''arguments given are invalid.''"
| "command_error_display CE_IncompatibleMemo = ''memo'' @ [char_of (39 :: nat)] @
     ''s cannot be sent to transparent addresses.''"
| "command_error_display (CE_InvalidMemo e) = ''failed to interpret memo. '' @ e"
| "command_error_display (CE_NonJsonNumberForAmount e) = ''invalid argument. expected a number. '' @ e"
| "command_error_display (CE_ConversionFailed e) = ''conversion failed. '' @ conversion_error_display e"
| "command_error_display CE_MissingZenniesForZingoFlag =
     ''Zennies flag must be set to '' @ quoted ''true'' @ '' or '' @ quoted ''false'' @ ''.''"

section \<open>Conversions\<close>

definition address_from_str :: "'addr address_lib \<Rightarrow> string \<Rightarrow> conversion_error + 'addr" where
  "address_from_str A address = map_sum InvalidAddress id (al_try_from_encoded A address)"

definition zatoshis_from_u64 :: "'addr address_lib \<Rightarrow> u64 \<Rightarrow> conversion_error + u64" where
  "zatoshis_from_u64 A amount = map_sum (\<lambda>_. OutsideValidRange) id (amt_from_u64 (al_amounts A) amount)"

datatype txid_from_hex_error = TxIdDecode string | TxIdCode "byte list"

definition txid_from_hex_encoded_str ::
  "(string \<Rightarrow> string + byte list) \<Rightarrow> string \<Rightarrow> txid_from_hex_error + txid" where
  "txid_from_hex_encoded_str hex_decode s =
     (case hex_decode s of
        Inl e \<Rightarrow> Inl (TxIdDecode e)
      | Inr txid_bytes \<Rightarrow>
          if length txid_bytes = 32 then Inr (rev txid_bytes) else Inl (TxIdCode txid_bytes))"

definition compare_txid_to_string ::
  "(string \<Rightarrow> string + byte list) \<Rightarrow> txid \<Rightarrow> string \<Rightarrow> bool \<Rightarrow> txid" where
  "compare_txid_to_string hex_decode txid reported_txid_string prefer_reported =
     (case txid_from_hex_encoded_str hex_decode reported_txid_string of
        Inr reported_txid \<Rightarrow> if prefer_reported then reported_txid else txid
      | Inl e \<Rightarrow> txid)"

text \<open>\<open>to_lowercase().starts_with("0x")\<close>: no other characters than these have such a lower case.\<close>

definition starts_with_0x :: "string \<Rightarrow> bool" where
  "starts_with_0x s \<longleftrightarrow> prefix ''0x'' s \<or> prefix ''0X'' s"

definition interpret_memo_string :: "'addr address_lib \<Rightarrow> string \<Rightarrow> string + byte list" where
  "interpret_memo_string A memo_string =
     (let s_bytes =
        (if starts_with_0x memo_string
         then (case al_hex_decode A (drop 2 memo_string) of
                 Inr data \<Rightarrow> data
               | Inl _ \<Rightarrow> string_bytes memo_string)
         else string_bytes memo_string)
      in ok_or (al_memo_from_bytes A s_bytes)
           (''Error creating output. Memo '' @ quoted (al_debug A memo_string) @ '' is too long''))"

section \<open>Receivers\<close>

record 'addr receiver_to =
  rv_recipient_address :: 'addr
  rv_amount :: u64
  rv_memo :: "byte list option"

section \<open>Parsing\<close>

definition check_memo_compatibility :: "'addr address_lib \<Rightarrow> 'addr \<Rightarrow> byte list option \<Rightarrow> command_error + unit" where
  "check_memo_compatibility A address memo =
     (if \<not> al_can_receive_memo A address \<and> memo \<noteq> None then Inl CE_IncompatibleMemo else Inr ())"

definition address_from_json :: "'addr address_lib \<Rightarrow> json_value \<Rightarrow> command_error + 'addr" where
  "address_from_json A json_array =
     (if \<not> json_has_key json_array ''address'' then Inl (CE_MissingKey ''address'')
      else res_bind (ok_or (json_as_str (json_get json_array ''address'')) (CE_UnexpectedType ''address is not a string!''))
        (\<lambda>address_str. map_sum CE_ConversionFailed id (address_from_str A address_str)))"

definition zennies_flag_from_json :: "json_lib \<Rightarrow> json_value \<Rightarrow> command_error + bool" where
  "zennies_flag_from_json J json_arg =
     (if \<not> json_has_key json_arg ''zennies_for_zingo'' then Inl CE_MissingZenniesForZingoFlag
      else (case json_as_bool (json_get json_arg ''zennies_for_zingo'') of
              Some boolean \<Rightarrow> Inr boolean
            | None \<Rightarrow> Inl (CE_ZenniesFlagNonBool (jl_to_string J (json_get json_arg ''zennies_for_zingo'')))))"

definition zatoshis_from_json :: "json_lib \<Rightarrow> 'addr address_lib \<Rightarrow> json_value \<Rightarrow> command_error + u64" where
  "zatoshis_from_json J A json_array =
     (if \<not> json_has_key json_array ''amount'' then Inl (CE_MissingKey ''amount'')
      else (case json_as_number (json_get json_array ''amount'') of
              None \<Rightarrow> Inl (CE_NonJsonNumberForAmount
                 (double_quote @ ''amount'' @ double_quote @ '': '' @ jl_to_string J (json_get json_array ''amount'') @
                  newline @ ''is not a json::number::Number''))
            | Some number \<Rightarrow>
                res_bind (ok_or (jl_as_u64 J number) (CE_UnexpectedType ''amount not a u64!''))
                  (\<lambda>amount_u64. map_sum CE_ConversionFailed id (zatoshis_from_u64 A amount_u64))))"

definition memo_from_json :: "'addr address_lib \<Rightarrow> json_value \<Rightarrow> command_error + byte list option" where
  "memo_from_json A json_array =
     (case json_as_str (json_get json_array ''memo'') of
        Some m \<Rightarrow> res_bind (map_sum CE_InvalidMemo id (interpret_memo_string A m)) (\<lambda>memo. Inr (Some memo))
      | None \<Rightarrow> Inr None)"

definition receiver_from_json :: "json_lib \<Rightarrow> 'addr address_lib \<Rightarrow> json_value \<Rightarrow> command_error + 'addr receiver_to" where
  "receiver_from_json J A j =
     res_bind (address_from_json A j) (\<lambda>recipient_address.
     res_bind (zatoshis_from_json J A j) (\<lambda>amount.
     res_bind (memo_from_json A j) (\<lambda>memo.
     res_bind (check_memo_compatibility A recipient_address memo) (\<lambda>_.
       Inr \<lparr> rv_recipient_address = recipient_address, rv_amount = amount, rv_memo = memo \<rparr>))))"

text \<open>\<open>collect\<close> into a \<open>Result\<close> stops at the first error.\<close>

fun collect_ok :: "('e + 'a) list \<Rightarrow> 'e + 'a list" where
  "collect_ok [] = Inr []"
| "collect_ok (r # rs) = res_bind r (\<lambda>x. res_bind (collect_ok rs) (\<lambda>xs. Inr (x # xs)))"

definition receiver_from_args ::
  "'addr address_lib \<Rightarrow> string \<Rightarrow> string \<Rightarrow> string option \<Rightarrow> command_error + 'addr receiver_to" where
  "receiver_from_args A address_arg amount_arg memo_arg =
     res_bind (map_sum CE_ConversionFailed id (address_from_str A address_arg)) (\<lambda>recipient_address.
     res_bind (map_sum CE_ParseIntFromString id (parse_u64 (trim amount_arg))) (\<lambda>amount_u64.
     res_bind (map_sum CE_ConversionFailed id (zatoshis_from_u64 A amount_u64)) (\<lambda>amount.
     res_bind (case memo_arg of
                 Some m \<Rightarrow> map_sum CE_InvalidMemo Some (interpret_memo_string A m)
               | None \<Rightarrow> Inr None) (\<lambda>memo.
     res_bind (check_memo_compatibility A recipient_address memo) (\<lambda>_.
       Inr \<lparr> rv_recipient_address = recipient_address, rv_amount = amount, rv_memo = memo \<rparr>)))))"

fun parse_send_args ::
  "json_lib \<Rightarrow> 'addr address_lib \<Rightarrow> string list \<Rightarrow> command_error + 'addr receiver_to list" where
  "parse_send_args J A [arg] =
     res_bind (map_sum CE_ArgsNotJson id (jl_parse J arg)) (\<lambda>json_args.
       if \<not> json_is_array json_args then Inl (CE_SingleArgNotJsonArray (jl_to_string J json_args))
       else if jl_is_empty J json_args then Inl CE_EmptyJsonArray
       else collect_ok (map (receiver_from_json J A) (json_members json_args)))"
| "parse_send_args J A [address_arg, amount_arg] =
     map_sum id (\<lambda>r. [r]) (receiver_from_args A address_arg amount_arg None)"
| "parse_send_args J A [address_arg, amount_arg, memo_arg] =
     map_sum id (\<lambda>r. [r]) (receiver_from_args A address_arg amount_arg (Some memo_arg))"
| "parse_send_args J A _ = Inl CE_InvalidArguments"

fun parse_send_all_args ::
  "json_lib \<Rightarrow> 'addr address_lib \<Rightarrow> string list \<Rightarrow> command_error + 'addr \<times> bool \<times> byte list option" where
  "parse_send_all_args J A [arg] =
     (case address_from_str A arg of
        Inr addr \<Rightarrow>
          res_bind (check_memo_compatibility A addr None) (\<lambda>_. Inr (addr, False, None))
      | Inl _ \<Rightarrow>
          res_bind (map_sum (\<lambda>_. CE_ArgNotJsonOrValidAddress) id (jl_parse J arg)) (\<lambda>json_arg.
            if json_is_array json_arg then Inl (CE_JsonArrayNotObj (jl_to_string J json_arg))
            else if jl_is_empty J json_arg then Inl CE_EmptyJsonArray
            else res_bind (address_from_json A json_arg) (\<lambda>address.
              res_bind (memo_from_json A json_arg) (\<lambda>memo.
              res_bind (check_memo_compatibility A address memo) (\<lambda>_.
              res_bind (zennies_flag_from_json J json_arg) (\<lambda>zennies_for_zingo.
                Inr (address, zennies_for_zingo, memo)))))))"
| "parse_send_all_args J A [address_arg, memo_arg] =
     res_bind (map_sum CE_ConversionFailed id (address_from_str A address_arg)) (\<lambda>address.
     res_bind (map_sum CE_InvalidMemo Some (interpret_memo_string A memo_arg)) (\<lambda>memo.
     res_bind (check_memo_compatibility A address memo) (\<lambda>_. Inr (address, False, memo))))"
| "parse_send_all_args J A _ = Inl CE_InvalidArguments"

text \<open>\<open>None\<close> is the panic of \<open>args[0]\<close> when there is no argument.\<close>

definition parse_spendable_balance_args ::
  "json_lib \<Rightarrow> 'addr address_lib \<Rightarrow> string list \<Rightarrow> (command_error + 'addr \<times> bool) option" where
  "parse_spendable_balance_args J A args =
     (if length args > 2 then Some (Inl CE_InvalidArguments)
      else (case args of
        [] \<Rightarrow> None
      | arg # _ \<Rightarrow> Some (case address_from_str A arg of
          Inr addr \<Rightarrow> Inr (addr, False)
        | Inl _ \<Rightarrow>
            res_bind (map_sum (\<lambda>_. CE_ArgNotJsonOrValidAddress) id (jl_parse J arg)) (\<lambda>json_arg.
              if json_is_array json_arg then Inl (CE_JsonArrayNotObj ''Pass an object, not an array.'')
              else if jl_is_empty J json_arg then Inl CE_EmptyJsonArray
              else res_bind (address_from_json A json_arg) (\<lambda>address.
                res_bind (zennies_flag_from_json J json_arg) (\<lambda>zennies_for_zingo.
                  Inr (address, zennies_for_zingo)))))))"

section \<open>Payments\<close>

text \<open>What the code uses of the crate's \<open>zip321\<close> module: \<open>Payment::new\<close> and \<open>TransactionRequest::new\<close>.\<close>

record ('addr, 'pay, 'req) zip321 =
  z3_payment_new :: "'addr \<Rightarrow> u64 \<Rightarrow> byte list option \<Rightarrow> 'pay option"
  z3_request_new :: "'pay list \<Rightarrow> string + 'req"

definition payment_from_receiver :: "('addr, 'pay, 'req) zip321 \<Rightarrow> 'addr receiver_to \<Rightarrow> 'pay option" where
  "payment_from_receiver Z receiver =
     z3_payment_new Z (rv_recipient_address receiver) (rv_amount receiver) (rv_memo receiver)"

definition transaction_request_from_receivers ::
  "('addr, 'pay, 'req) zip321 \<Rightarrow> 'addr receiver_to list \<Rightarrow> (string + 'req) option" where
  "transaction_request_from_receivers Z receivers =
     map_option (z3_request_new Z) (those (map (payment_from_receiver Z) receivers))"

end
