(* ===== verification/Sending.thy ===== *)
theory Sending
  imports Command_Args Shielded_Scan
begin

text \<open>
  Proposals and sending: \<open>data/proposal.rs\<close>, \<open>wallet/propose.rs\<close>, \<open>lightclient/propose.rs\<close>, the building of transactions in \<open>wallet/send.rs\<close> and
  \<open>tx_map/trait_walletwrite.rs\<close>, and the recording and broadcasting in \<open>lightclient/send.rs\<close>.

  The proposal code of \<open>zcash_client_backend\<close> is the argument \<open>proposal_lib\<close>, the server answers from a state of its own (\<open>'s server\<close>).
  The locks of the client are held within each function, so that a function is one step. A result \<open>None\<close> is a panic.
\<close>

section \<open>Proposals\<close>

text \<open>A step of a proposal, as the accessors of the crate's type show it: the kinds of the recipients of its request, the
  total of the request, the fee and the change. \<open>ps_inputs\<close> is what they do not show.\<close>

record ('ua, 'x) proposal_step =
  ps_payments :: "'ua address_kind list"
  ps_request_total :: "balance_error + u64"
  ps_fee_required :: u64
  ps_proposed_change :: "u64 list"
  ps_inputs :: 'x

type_synonym ('ua, 'x) proposal = "('ua, 'x) proposal_step list"

datatype ('ua, 'x) zingo_proposal =
    Transfer "('ua, 'x) proposal"
  | Shield "('ua, 'x) proposal"

fun add_totals :: "amount_ops \<Rightarrow> u64 \<Rightarrow> (balance_error + u64) list \<Rightarrow> balance_error + u64" where
  "add_totals M acc [] = Inr acc"
| "add_totals M acc (t # totals) =
     res_bind t (\<lambda>t. res_bind (ok_or (amt_add M acc t) Overflow) (\<lambda>acc. add_totals M acc totals))"

definition total_payment_amount :: "amount_ops \<Rightarrow> ('ua, 'x) proposal \<Rightarrow> balance_error + u64" where
  "total_payment_amount M steps = add_totals M 0 (map ps_request_total steps)"

definition total_fee :: "amount_ops \<Rightarrow> ('ua, 'x) proposal \<Rightarrow> balance_error + u64" where
  "total_fee M steps = add_totals M 0 (map (\<lambda>step. Inr (ps_fee_required step)) steps)"

section \<open>Arguments\<close>

text \<open>The errors of the backend: the code looks into one of them.\<close>

datatype 'e backend_error = InsufficientFunds u64 u64 | OtherBackendError 'e

datatype dust_action = AllowDustChange | RejectDust | AddDustToFee

record giskit =
  gk_change_memo :: "memo option"
  gk_change_pool :: shielded_protocol
  gk_dust_action :: dust_action
  gk_dust_threshold :: "u64 option"

definition build_default_giskit :: "memo option \<Rightarrow> giskit" where
  "build_default_giskit memo =
     \<lparr> gk_change_memo = memo, gk_change_pool = Orchard, gk_dust_action = AllowDustChange, gk_dust_threshold = None \<rparr>"

text \<open>The proposal functions read the transaction map only; \<open>create_proposed_transactions\<close> writes to it, by the methods
  of \<open>WalletWrite\<close>.\<close>

record ('req, 'ua, 'x, 't, 'e) proposal_lib =
  pl_payments :: "'req \<Rightarrow> 'ua address_kind list"
  pl_propose_transfer :: "chain_type \<Rightarrow> giskit \<Rightarrow> 'req \<Rightarrow> u32 \<Rightarrow> 't tx_map \<Rightarrow> 'e backend_error + ('ua, 'x) proposal"
  pl_propose_shielding :: "chain_type \<Rightarrow> giskit \<Rightarrow> u64 \<Rightarrow> transparent_address list \<Rightarrow> u32 \<Rightarrow> 't tx_map \<Rightarrow>
    'e backend_error + ('ua, 'x) proposal"
  pl_create_proposed_transactions :: "chain_type \<Rightarrow> ('ua, 'x) proposal \<Rightarrow> 't tx_map \<Rightarrow> 't tx_map \<times> ('e backend_error + unit)"

record ('addr, 'pay, 'req, 'ua, 'x, 't, 'e) send_lib =
  se_addresses :: "'addr address_lib"
  se_zip321 :: "('addr, 'pay, 'req) zip321"
  se_proposals :: "('req, 'ua, 'x, 't, 'e) proposal_lib"
  se_memo_format :: "'ua memo_format"
  se_marginal_fee :: u64
  se_transparent_addresses :: "transparent_address list"
  se_debug :: "string \<Rightarrow> string"
  se_display :: display_lib

section \<open>Creating proposals\<close>

datatype 'e propose_send_error =
    PS_Proposal "'e backend_error"
  | PS_TransactionRequestFailed string
  | PS_ZeroValueSendAll
  | PS_BalanceError balance_calc_error

datatype 'e propose_shield_error =
    PH_Receiver string
  | PH_Component "'e backend_error"

definition create_send_proposal ::
  "('addr, 'pay, 'req, 'ua, 'x, 't, 'e) send_lib \<Rightarrow> 'req \<Rightarrow> ('t, 'uri) light_wallet \<Rightarrow>
   'e propose_send_error + ('ua, 'x) proposal" where
  "create_send_proposal E request w =
     (let number_of_rejection_addresses = word_of_nat (length (tm_rejection_addresses (lw_tx_map w)));
          memo = change_memo_from_transaction_request (se_memo_format E) (pl_payments (se_proposals E) request)
            number_of_rejection_addresses;
          input_selector = build_default_giskit (Some memo)
      in map_sum PS_Proposal id
           (pl_propose_transfer (se_proposals E) (c_chain (lw_config w)) input_selector request 1 (lw_tx_map w)))"

definition create_shield_proposal ::
  "('addr, 'pay, 'req, 'ua, 'x, 't, 'e) send_lib \<Rightarrow> ('t, 'uri) light_wallet \<Rightarrow>
   'e propose_shield_error + ('ua, 'x) proposal" where
  "create_shield_proposal E w =
     map_sum PH_Component id
       (pl_propose_shielding (se_proposals E) (c_chain (lw_config w)) (build_default_giskit None) 10000
          (se_transparent_addresses E) 0 (lw_tx_map w))"

record ('t, 'uri, 'ua, 'x) light_client =
  lc_wallet :: "('t, 'uri) light_wallet"
  lc_latest_proposal :: "('ua, 'x) zingo_proposal option"
  lc_interrupt_sync :: bool

text \<open>\<open>None\<close> is one of the two \<open>expect\<close>s for hard coded values.\<close>

definition append_zingo_zenny_receiver ::
  "('addr, 'pay, 'req, 'ua, 'x, 't, 'e) send_lib \<Rightarrow> chain_type \<Rightarrow> 'addr receiver_to list \<Rightarrow> 'addr receiver_to list option" where
  "append_zingo_zenny_receiver E chain receivers =
     (let zfz_address = (case chain of
            Mainnet \<Rightarrow> ZENNIES_FOR_ZINGO_DONATION_ADDRESS
          | Testnet \<Rightarrow> ZENNIES_FOR_ZINGO_TESTNET_ADDRESS
          | Regtest _ \<Rightarrow> ZENNIES_FOR_ZINGO_REGTEST_ADDRESS)
      in case address_from_str (se_addresses E) zfz_address of
           Inl _ \<Rightarrow> None
         | Inr address \<Rightarrow>
             (case amt_from_u64 (al_amounts (se_addresses E)) ZENNIES_FOR_ZINGO_AMOUNT of
                Inl _ \<Rightarrow> None
              | Inr amount \<Rightarrow>
                  Some (receivers @ [\<lparr> rv_recipient_address = address, rv_amount = amount, rv_memo = None \<rparr>])))"

definition store_proposal ::
  "('ua, 'x) zingo_proposal \<Rightarrow> ('t, 'uri, 'ua, 'x) light_client \<Rightarrow> ('t, 'uri, 'ua, 'x) light_client" where
  "store_proposal proposal c = c\<lparr> lc_latest_proposal := Some proposal \<rparr>"

definition propose_send ::
  "('addr, 'pay, 'req, 'ua, 'x, 't, 'e) send_lib \<Rightarrow> 'req \<Rightarrow> ('t, 'uri, 'ua, 'x) light_client \<Rightarrow>
   ('t, 'uri, 'ua, 'x) light_client \<times> ('e propose_send_error + ('ua, 'x) proposal)" where
  "propose_send E request c =
     (case create_send_proposal E request (lc_wallet c) of
        Inl e \<Rightarrow> (c, Inl e)
      | Inr proposal \<Rightarrow> (store_proposal (Transfer proposal) c, Inr proposal))"

definition all_receivers ::
  "('addr, 'pay, 'req, 'ua, 'x, 't, 'e) send_lib \<Rightarrow> chain_type \<Rightarrow> 'addr \<Rightarrow> u64 \<Rightarrow> byte list option \<Rightarrow> bool \<Rightarrow>
   'addr receiver_to list option" where
  "all_receivers E chain address amount memo zennies_for_zingo =
     (let receivers = [\<lparr> rv_recipient_address = address, rv_amount = amount, rv_memo = memo \<rparr>]
      in if zennies_for_zingo then append_zingo_zenny_receiver E chain receivers else Some receivers)"

definition shortfall_of ::
  "amount_ops \<Rightarrow> u64 \<Rightarrow> 'e propose_send_error + ('ua, 'x) proposal \<Rightarrow> 'e propose_send_error + u64" where
  "shortfall_of M confirmed_shielded_balance failing_proposal =
     (case failing_proposal of
        Inl (PS_Proposal (InsufficientFunds available required)) \<Rightarrow>
          ok_or (amt_sub M required confirmed_shielded_balance) (PS_Proposal (InsufficientFunds available required))
      | Inl e \<Rightarrow> Inl e
      | Inr _ \<Rightarrow> Inr 0)"

definition get_spendable_shielded_balance ::
  "('addr, 'pay, 'req, 'ua, 'x, 't, 'e) send_lib \<Rightarrow> 'addr \<Rightarrow> bool \<Rightarrow> ('t, 'uri) light_wallet \<Rightarrow>
   ('e propose_send_error + u64) option" where
  "get_spendable_shielded_balance E address zennies_for_zingo w =
     (case confirmed_shielded_balance_excluding_dust (se_marginal_fee E) (\<lambda>v. \<not> isl (amt_from_u64 (al_amounts (se_addresses E)) v)) w of
        Inl e \<Rightarrow> Some (Inl (PS_BalanceError e))
      | Inr confirmed_shielded_balance \<Rightarrow> do {
          receivers \<leftarrow> all_receivers E (c_chain (lw_config w)) address confirmed_shielded_balance None zennies_for_zingo;
          res \<leftarrow> transaction_request_from_receivers (se_zip321 E) receivers;
          Some (case res of
              Inl e \<Rightarrow> Inl (PS_TransactionRequestFailed e)
            | Inr request \<Rightarrow>
                res_bind (shortfall_of (al_amounts (se_addresses E)) confirmed_shielded_balance (create_send_proposal E request w)) (\<lambda>shortfall.
                  ok_or (amt_sub (al_amounts (se_addresses E)) confirmed_shielded_balance shortfall)
                    (PS_Proposal (InsufficientFunds confirmed_shielded_balance shortfall)))) })"

definition propose_send_all ::
  "('addr, 'pay, 'req, 'ua, 'x, 't, 'e) send_lib \<Rightarrow> 'addr \<Rightarrow> bool \<Rightarrow> byte list option \<Rightarrow> ('t, 'uri, 'ua, 'x) light_client \<Rightarrow>
   (('t, 'uri, 'ua, 'x) light_client \<times> ('e propose_send_error + ('ua, 'x) proposal)) option" where
  "propose_send_all E address zennies_for_zingo memo c = do {
     balance \<leftarrow> get_spendable_shielded_balance E address zennies_for_zingo (lc_wallet c);
     case balance of
       Inl e \<Rightarrow> Some (c, Inl e)
     | Inr spendable \<Rightarrow>
         if spendable = 0 then Some (c, Inl PS_ZeroValueSendAll)
         else do {
           receivers \<leftarrow> all_receivers E (c_chain (lw_config (lc_wallet c))) address spendable memo zennies_for_zingo;
           res \<leftarrow> transaction_request_from_receivers (se_zip321 E) receivers;
           case res of
             Inl e \<Rightarrow> Some (c, Inl (PS_TransactionRequestFailed e))
           | Inr request \<Rightarrow>
               (case create_send_proposal E request (lc_wallet c) of
                  Inl e \<Rightarrow> Some (c, Inl e)
                | Inr proposal \<Rightarrow> Some (store_proposal (Transfer proposal) c, Inr proposal)) } }"

definition propose_shield ::
  "('addr, 'pay, 'req, 'ua, 'x, 't, 'e) send_lib \<Rightarrow> ('t, 'uri, 'ua, 'x) light_client \<Rightarrow>
   ('t, 'uri, 'ua, 'x) light_client \<times> ('e propose_shield_error + ('ua, 'x) proposal)" where
  "propose_shield E c =
     (case create_shield_proposal E (lc_wallet c) of
        Inl e \<Rightarrow> (c, Inl e)
      | Inr proposal \<Rightarrow> (store_proposal (Shield proposal) c, Inr proposal))"

section \<open>Refund addresses of a transaction\<close>

fun repeat_new_rejection ::
  "(u32 \<Rightarrow> 'e + rejection_key) \<Rightarrow> nat \<Rightarrow> rejection_key list \<Rightarrow> rejection_key list \<times> ('e + rejection_key list)" where
  "repeat_new_rejection derive 0 keys = (keys, Inr [])"
| "repeat_new_rejection derive (Suc n) keys =
     (case new_rejection_address derive keys of
        (keys, Inl e) \<Rightarrow> (keys, Inl e)
      | (keys, Inr k) \<Rightarrow>
          (case repeat_new_rejection derive n keys of
             (keys, Inl e) \<Rightarrow> (keys, Inl e)
           | (keys, Inr ks) \<Rightarrow> (keys, Inr (k # ks))))"

datatype 'e ephemeral_error = EE_TexSendError 'e | EE_NoSpendCapability

definition reserve_next_n_ephemeral_addresses ::
  "(u32 \<Rightarrow> 'e + rejection_key) \<Rightarrow> nat \<Rightarrow> 't tx_map \<Rightarrow> 't tx_map \<times> ('e ephemeral_error + rejection_key list)" where
  "reserve_next_n_ephemeral_addresses derive n tm =
     (case tm_spending_data tm of
        None \<Rightarrow> (tm, Inl EE_NoSpendCapability)
      | Some spending_data \<Rightarrow>
          (case repeat_new_rejection derive n (tm_rejection_addresses tm) of
             (keys, res) \<Rightarrow> (tm\<lparr> tm_rejection_addresses := keys \<rparr>, map_sum EE_TexSendError id res)))"

section \<open>Building transactions\<close>

datatype 'e build_transaction_error =
    BT_NoSpendCapability
  | BT_SaplingParams string
  | BT_UnifiedSpendKey
  | BT_Calculation "'e backend_error"
  | BT_NonTexMultiStep

text \<open>Of the conversion of the key store the only error is that it holds no spending key. The Sapling parameters are part of
  the binary.\<close>

definition create_transaction_helper ::
  "('addr, 'pay, 'req, 'ua, 'x, 't, 'e) send_lib \<Rightarrow> ('ua, 'x) proposal \<Rightarrow> ('t, 'uri) light_wallet \<Rightarrow>
   ('t, 'uri) light_wallet \<times> ('e build_transaction_error + unit)" where
  "create_transaction_helper E proposal w =
     (if lw_key_store w \<noteq> KS_Spend then (w, Inl BT_UnifiedSpendKey)
      else (case pl_create_proposed_transactions (se_proposals E) (c_chain (lw_config w)) proposal (lw_tx_map w) of
              (tm, res) \<Rightarrow> (w\<lparr> lw_tx_map := tm \<rparr>, map_sum BT_Calculation id res)))"

definition has_tex :: "('ua, 'x) proposal_step \<Rightarrow> bool" where
  "has_tex step \<longleftrightarrow> list_ex (\<lambda>k. case k of AK_Tex \<Rightarrow> True | _ \<Rightarrow> False) (ps_payments step)"

definition create_transaction ::
  "('addr, 'pay, 'req, 'ua, 'x, 't, 'e) send_lib \<Rightarrow> ('ua, 'x) proposal \<Rightarrow> ('t, 'uri) light_wallet \<Rightarrow>
   ('t, 'uri) light_wallet \<times> ('e build_transaction_error + unit)" where
  "create_transaction E proposal w =
     (if witness_trees_of (lw_tx_map w) = None then (w, Inl BT_NoSpendCapability)
      else let w = reset_send_progress w
           in case proposal of
                [_] \<Rightarrow> create_transaction_helper E proposal w
              | [_, step] \<Rightarrow> if has_tex step then create_transaction_helper E proposal w else (w, Inl BT_NonTexMultiStep)
              | _ \<Rightarrow> (w, Inl BT_NonTexMultiStep))"

section \<open>The server\<close>

text \<open>The server answers from its own state.\<close>

record 's server =
  sv_latest_block :: "'s \<Rightarrow> 's \<times> (string + u64)"
  sv_send_transaction :: "byte list \<Rightarrow> 's \<Rightarrow> 's \<times> (string + string)"

definition get_latest_block :: "'s server \<Rightarrow> 's \<Rightarrow> 's \<times> (string + block_height)" where
  "get_latest_block S s = map_prod id (map_sum id ucast) (sv_latest_block S s)"

datatype transaction_cache_error = TC_NoSpendCapability | TC_NoCachedTx | TC_InvalidMultiStep

datatype broadcast_error =
    BC_Cache transaction_cache_error
  | BC_Height string
  | BC_Broadcast string

datatype record_cached_error =
    RC_Cache transaction_cache_error
  | RC_Height string
  | RC_Decode string

datatype 'e complete_error =
    CB_BuildTransaction "'e build_transaction_error"
  | CB_Record record_cached_error
  | CB_Broadcast broadcast_error
  | CB_EmptyList

datatype 'e stored_proposal_error =
    SP_NoStoredProposal
  | SP_CompleteAndBroadcast "'e complete_error"

datatype 'e quick_send_error =
    QS_ProposeSend "'e propose_send_error"
  | QS_CompleteAndBroadcast "'e complete_error"

datatype 'e quick_shield_error =
    QH_Propose "'e propose_shield_error"
  | QH_CompleteAndBroadcast "'e complete_error"

section \<open>Recording created transactions\<close>

text \<open>\<open>read_tx\<close> parses a transaction, given the height that determines the consensus branch. A clock that does not move
  during the call gives \<open>now\<close>.\<close>

fun record_transactions where
  "record_transactions C status now price [] tm txids = Some (tm, txids)"
| "record_transactions C status now price (transaction # transactions) tm txids = do {
     tm \<leftarrow> scan_full_tx C transaction status (Some (ucast (now :: u64))) (get_price now price) tm;
     m \<leftarrow> update_note_spend_statuses (sx_txid transaction) (Some (sx_txid transaction, status)) (tm_records tm);
     record_transactions C status now price transactions (tm\<lparr> tm_records := m \<rparr>) (txids @ [sx_txid transaction]) }"

definition record_created_transactions where
  "record_created_transactions C S read_tx now w s =
     (case get_latest_block S s of
        (s, Inl e) \<Rightarrow> Some (w, s, Inl (RC_Height e))
      | (s, Inr current_height) \<Rightarrow>
          (let target_height = bh_add (sc_tree_ops C) current_height 1
           in case tm_spending_data (lw_tx_map w) of
                None \<Rightarrow> Some (w, s, Inl (RC_Cache TC_NoSpendCapability))
              | Some spending_data \<Rightarrow>
                  (case collect_ok (map (\<lambda>(_, raw_tx). read_tx (c_chain (lw_config w)) target_height raw_tx)
                          (sd_cached_raw_transactions spending_data)) of
                     Inl e \<Rightarrow> Some (w, s, Inl (RC_Decode e))
                   | Inr transactions_to_record \<Rightarrow>
                       map_option (\<lambda>(tm, txids). (w\<lparr> lw_tx_map := tm \<rparr>, s, Inr txids))
                         (record_transactions C (Calculated target_height) now (lw_price w) transactions_to_record
                            (lw_tx_map w) []))))"

section \<open>Broadcasting created transactions\<close>

fun matches_calculated :: "confirmation_status \<Rightarrow> bool" where
  "matches_calculated (Calculated _) = True"
| "matches_calculated _ = False"

fun broadcast_loop ::
  "'s server \<Rightarrow> (string \<Rightarrow> string + byte list) \<Rightarrow> bool \<Rightarrow> block_height \<Rightarrow> (txid \<times> byte list) list \<Rightarrow>
   records \<Rightarrow> 's \<Rightarrow> txid list \<Rightarrow> (records \<times> 's \<times> (broadcast_error + txid list)) option" where
  "broadcast_loop S hex_decode accept_server_txids target_height [] m s txids = Some (m, s, Inr txids)"
| "broadcast_loop S hex_decode accept_server_txids target_height ((txid, raw_tx) # cache) m s txids =
     (case hm_get m txid of
        None \<Rightarrow> broadcast_loop S hex_decode accept_server_txids target_height cache m s txids
      | Some transaction_record \<Rightarrow>
          if matches_calculated (tr_status transaction_record)
          then (case sv_send_transaction S raw_tx s of
                  (s, Inr serverz_txid_string) \<Rightarrow>
                    (case update_note_spend_statuses (tr_txid transaction_record)
                            (Some (tr_txid transaction_record, Transmitted target_height))
                            (hm_modify txid (\<lambda>r. r\<lparr> tr_status := Transmitted target_height \<rparr>) m) of
                       None \<Rightarrow> None
                     | Some m \<Rightarrow>
                         broadcast_loop S hex_decode accept_server_txids target_height cache m s
                           (txids @ [compare_txid_to_string hex_decode txid serverz_txid_string accept_server_txids]))
                | (s, Inl server_err) \<Rightarrow> Some (m, s, Inl (BC_Broadcast server_err)))
          else broadcast_loop S hex_decode accept_server_txids target_height cache m s txids)"

definition broadcast_created_transactions ::
  "'t tree_ops \<Rightarrow> (string \<Rightarrow> string + byte list) \<Rightarrow> 's server \<Rightarrow> ('t, 'uri) light_wallet \<Rightarrow> 's \<Rightarrow>
   (('t, 'uri) light_wallet \<times> 's \<times> (broadcast_error + txid list)) option" where
  "broadcast_created_transactions ops hex_decode S w s =
     (case get_latest_block S s of
        (s, Inl e) \<Rightarrow> Some (w, s, Inl (BC_Height e))
      | (s, Inr current_height) \<Rightarrow>
          (case tm_spending_data (lw_tx_map w) of
             None \<Rightarrow> Some (w, s, Inl (BC_Cache TC_NoSpendCapability))
           | Some spending_data \<Rightarrow>
               map_option (\<lambda>(m, s, res).
                   (let tm = (lw_tx_map w)\<lparr> tm_records := m \<rparr>
                    in case res of
                         Inl e \<Rightarrow> (w\<lparr> lw_tx_map := tm \<rparr>, s, Inl e)
                       | Inr txids \<Rightarrow>
                           (w\<lparr> lw_tx_map := tm\<lparr> tm_spending_data :=
                               Some (spending_data\<lparr> sd_cached_raw_transactions := [] \<rparr>) \<rparr> \<rparr>, s, Inr txids)))
                 (broadcast_loop S hex_decode (c_accept_server_txids (lw_config w)) (bh_add ops current_height 1)
                    (sd_cached_raw_transactions spending_data) (tm_records (lw_tx_map w)) s [])))"

section \<open>Completing a proposal\<close>

fun transaction_cache_error_debug :: "transaction_cache_error \<Rightarrow> string" where
  "transaction_cache_error_debug TC_NoSpendCapability = ''NoSpendCapability''"
| "transaction_cache_error_debug TC_NoCachedTx = ''NoCachedTx''"
| "transaction_cache_error_debug TC_InvalidMultiStep = ''InvalidMultiStep''"

fun broadcast_error_display :: "(string \<Rightarrow> string) \<Rightarrow> broadcast_error \<Rightarrow> string" where
  "broadcast_error_display debug (BC_Cache e) = ''Cant broadcast: '' @ transaction_cache_error_debug e"
| "broadcast_error_display debug (BC_Height e) = ''Couldnt fetch server height: '' @ debug e"
| "broadcast_error_display debug (BC_Broadcast e) = ''Broadcast failed: '' @ debug e"

fun join :: "string \<Rightarrow> string list \<Rightarrow> string" where
  "join sep [] = []"
| "join sep [x] = x"
| "join sep (x # y # xs) = x @ sep @ join sep (y # xs)"

definition created_txids_text :: "display_lib \<Rightarrow> txid list \<Rightarrow> string" where
  "created_txids_text D vec_txids = join '' & '' (map (\<lambda>txid. ''created txid: '' @ dl_txid D txid) vec_txids)"

definition complete_and_broadcast where
  "complete_and_broadcast E C S read_tx now proposal w s =
     (case create_transaction E proposal w of
        (w, Inl e) \<Rightarrow> Some (w, s, Inl (CB_BuildTransaction e))
      | (w, Inr _) \<Rightarrow> do {
          (w, s, recorded) \<leftarrow> record_created_transactions C S read_tx now w s;
          case recorded of
            Inl e \<Rightarrow> Some (w, s, Inl (CB_Record e))
          | Inr _ \<Rightarrow> do {
              (w, s, broadcast_result) \<leftarrow>
                broadcast_created_transactions (sc_tree_ops C) (al_hex_decode (se_addresses E)) S w s;
              let w = set_send_result
                (map_sum (broadcast_error_display (se_debug E)) (created_txids_text (se_display E)) broadcast_result) w;
              Some (w, s, case broadcast_result of
                  Inl e \<Rightarrow> Inl (CB_Broadcast e)
                | Inr txids \<Rightarrow> if txids = [] then Inl CB_EmptyList else Inr txids) } })"

definition complete_and_broadcast_stored_proposal where
  "complete_and_broadcast_stored_proposal E C S read_tx now c s =
     (case lc_latest_proposal c of
        None \<Rightarrow> Some (c, s, Inl SP_NoStoredProposal)
      | Some proposal \<Rightarrow>
          map_option (\<lambda>(w, s, res). (c\<lparr> lc_wallet := w \<rparr>, s, map_sum SP_CompleteAndBroadcast id res))
            (case proposal of
               Transfer transfer_proposal \<Rightarrow> complete_and_broadcast E C S read_tx now transfer_proposal (lc_wallet c) s
             | Shield shield_proposal \<Rightarrow> complete_and_broadcast E C S read_tx now shield_proposal (lc_wallet c) s))"

definition quick_send where
  "quick_send E C S read_tx now request c s =
     (case create_send_proposal E request (lc_wallet c) of
        Inl e \<Rightarrow> Some (c, s, Inl (QS_ProposeSend e))
      | Inr proposal \<Rightarrow>
          map_option (\<lambda>(w, s, res). (c\<lparr> lc_wallet := w \<rparr>, s, map_sum QS_CompleteAndBroadcast id res))
            (complete_and_broadcast E C S read_tx now proposal (lc_wallet c) s))"

definition quick_shield where
  "quick_shield E C S read_tx now c s =
     (case create_shield_proposal E (lc_wallet c) of
        Inl e \<Rightarrow> Some (c, s, Inl (QH_Propose e))
      | Inr proposal \<Rightarrow>
          map_option (\<lambda>(w, s, res). (c\<lparr> lc_wallet := w \<rparr>, s, map_sum QH_CompleteAndBroadcast id res))
            (complete_and_broadcast E C S read_tx now proposal (lc_wallet c) s))"

section \<open>Progress of a send\<close>

record send_progress_report =
  lp_progress :: send_progress
  lp_interrupt_sync :: bool

definition do_send_progress :: "('t, 'uri, 'ua, 'x) light_client \<Rightarrow> string + send_progress_report" where
  "do_send_progress c =
     Inr \<lparr> lp_progress = lw_send_progress (lc_wallet c), lp_interrupt_sync = lc_interrupt_sync c \<rparr>"

definition send_progress_json :: "send_progress_report \<Rightarrow> json_value" where
  "send_progress_json p =
     (let last_result = sp_last_result (lp_progress p);
          txid = Option.bind last_result res_ok;
          error = Option.bind last_result (\<lambda>r. case r of Inl e \<Rightarrow> Some e | Inr _ \<Rightarrow> None)
      in JsonObject
        [(''id'', json_u32 (sp_id (lp_progress p))), (''sending'', JsonBoolean (sp_is_send_in_progress (lp_progress p))),
         (''progress'', json_u32 (sp_progress (lp_progress p))), (''total'', json_u32 (sp_total (lp_progress p))),
         (''txid'', json_option JsonString txid), (''error'', json_option JsonString error),
         (''sync_interrupt'', JsonBoolean (lp_interrupt_sync p))])"

end
