(* ===== verification/Commands.thy ===== *)
theory Commands
  imports Sending Value_Transfers
begin

text \<open>
  The commands of \<open>commands.rs\<close> that work on the modelled state, their table and the dispatch. Help texts and the texts of other crates' errors
  are arguments; a command's effect is the new client, the new state of the server and the answer.
\<close>

section \<open>Texts of errors\<close>

text \<open>The texts of errors of other crates, and the output of \<open>derive(Debug)\<close> for the nested errors.\<close>

record 'e error_texts =
  et_backend :: "'e backend_error \<Rightarrow> string"
  et_amount :: "balance_error \<Rightarrow> string"
  et_complete :: "'e complete_error \<Rightarrow> string"
  et_propose_send :: "'e propose_send_error \<Rightarrow> string"
  et_propose_shield :: "'e propose_shield_error \<Rightarrow> string"

fun balance_calc_error_display :: "balance_calc_error \<Rightarrow> string" where
  "balance_calc_error_display NoFullViewingKey = ''failed to retrieve full viewing key.''"
| "balance_calc_error_display ConversionFailed = ''conversion failed. '' @ conversion_error_display OutsideValidRange"

fun propose_send_error_display :: "'e error_texts \<Rightarrow> 'e propose_send_error \<Rightarrow> string" where
  "propose_send_error_display X (PS_Proposal e) = et_backend X e"
| "propose_send_error_display X (PS_TransactionRequestFailed e) = e"
| "propose_send_error_display X PS_ZeroValueSendAll =
     ''send all is transferring no value. only enough funds to pay the fees!''"
| "propose_send_error_display X (PS_BalanceError e) = ''failed to calculated balance. '' @ balance_calc_error_display e"

fun propose_shield_error_display :: "'e error_texts \<Rightarrow> 'e propose_shield_error \<Rightarrow> string" where
  "propose_shield_error_display X (PH_Receiver e) = e"
| "propose_shield_error_display X (PH_Component e) = et_backend X e"

fun stored_proposal_error_display :: "'e error_texts \<Rightarrow> 'e stored_proposal_error \<Rightarrow> string" where
  "stored_proposal_error_display X SP_NoStoredProposal = ''No proposal. Call do_propose first.''"
| "stored_proposal_error_display X (SP_CompleteAndBroadcast e) = ''send '' @ et_complete X e"

fun quick_send_error_display :: "'e error_texts \<Rightarrow> 'e quick_send_error \<Rightarrow> string" where
  "quick_send_error_display X (QS_ProposeSend e) = ''propose send '' @ et_propose_send X e"
| "quick_send_error_display X (QS_CompleteAndBroadcast e) = ''send '' @ et_complete X e"

fun quick_shield_error_display :: "'e error_texts \<Rightarrow> 'e quick_shield_error \<Rightarrow> string" where
  "quick_shield_error_display X (QH_Propose e) = ''propose shield '' @ et_propose_shield X e"
| "quick_shield_error_display X (QH_CompleteAndBroadcast e) = ''send '' @ et_complete X e"

section \<open>Answers\<close>

definition try_help :: "string \<Rightarrow> string \<Rightarrow> string" where
  "try_help name e = ''Error: '' @ e @ newline @ ''Try '' @ quoted (''help '' @ name) @ '' for correct usage and examples.''"

definition error_json :: "string \<Rightarrow> json_value" where
  "error_json e = JsonObject [(''error'', JsonString e)]"

definition txids_json :: "display_lib \<Rightarrow> txid list \<Rightarrow> json_value" where
  "txids_json D txids = JsonObject [(''txids'', json_vec (\<lambda>txid. JsonString (dl_txid D txid)) txids)]"

section \<open>Sending\<close>

definition send_answer :: "amount_ops \<Rightarrow> 'e error_texts \<Rightarrow> ('ua, 'x) proposal \<Rightarrow> json_value" where
  "send_answer M X proposal =
     (case total_fee M proposal of
        Inl e \<Rightarrow> error_json (et_amount X e)
      | Inr fee \<Rightarrow> JsonObject [(''fee'', json_u64 fee)])"

definition send_all_answer :: "amount_ops \<Rightarrow> 'e error_texts \<Rightarrow> ('ua, 'x) proposal \<Rightarrow> json_value" where
  "send_all_answer M X proposal =
     (case total_payment_amount M proposal of
        Inl e \<Rightarrow> error_json (et_amount X e)
      | Inr amount \<Rightarrow>
          (case total_fee M proposal of
             Inl e \<Rightarrow> error_json (et_amount X e)
           | Inr fee \<Rightarrow> JsonObject [(''amount'', json_u64 amount), (''fee'', json_u64 fee)]))"

fun try_fold_add :: "amount_ops \<Rightarrow> u64 \<Rightarrow> u64 list \<Rightarrow> u64 option" where
  "try_fold_add M acc [] = Some acc"
| "try_fold_add M acc (v # vs) = Option.bind (amt_add M acc v) (\<lambda>acc. try_fold_add M acc vs)"

definition shield_answer :: "amount_ops \<Rightarrow> ('ua, 'x) proposal \<Rightarrow> json_value" where
  "shield_answer M proposal =
     (case proposal of
        [step] \<Rightarrow>
          (case try_fold_add M 0 (ps_proposed_change step) of
             None \<Rightarrow> error_json ''shield amount outside valid range of zatoshis''
           | Some value_to_shield \<Rightarrow>
               JsonObject [(''value_to_shield'', json_u64 value_to_shield), (''fee'', json_u64 (ps_fee_required step))])
      | _ \<Rightarrow> error_json ''zip320 transactions not yet supported'')"

definition exec_send ::
  "json_lib \<Rightarrow> ('addr, 'pay, 'req, 'ua, 'x, 't, 'e) send_lib \<Rightarrow> 'e error_texts \<Rightarrow> string list \<Rightarrow>
   ('t, 'uri, 'ua, 'x) light_client \<Rightarrow> (('t, 'uri, 'ua, 'x) light_client \<times> string) option" where
  "exec_send J E X args c =
     (case parse_send_args J (se_addresses E) args of
        Inl e \<Rightarrow> Some (c, try_help ''send'' (command_error_display e))
      | Inr receivers \<Rightarrow> do {
          res \<leftarrow> transaction_request_from_receivers (se_zip321 E) receivers;
          Some (case res of
              Inl e \<Rightarrow> (c, try_help ''send'' e)
            | Inr request \<Rightarrow>
                (case propose_send E request c of
                   (c, Inl e) \<Rightarrow> (c, jl_pretty J 2 (error_json (propose_send_error_display X e)))
                 | (c, Inr proposal) \<Rightarrow>
                     (c, jl_pretty J 2 (send_answer (al_amounts (se_addresses E)) X proposal)))) })"

definition exec_send_all ::
  "json_lib \<Rightarrow> ('addr, 'pay, 'req, 'ua, 'x, 't, 'e) send_lib \<Rightarrow> 'e error_texts \<Rightarrow> string list \<Rightarrow>
   ('t, 'uri, 'ua, 'x) light_client \<Rightarrow> (('t, 'uri, 'ua, 'x) light_client \<times> string) option" where
  "exec_send_all J E X args c =
     (case parse_send_all_args J (se_addresses E) args of
        Inl e \<Rightarrow> Some (c, try_help ''sendall'' (command_error_display e))
      | Inr (address, zennies_for_zingo, memo) \<Rightarrow> do {
          (c, res) \<leftarrow> propose_send_all E address zennies_for_zingo memo c;
          Some (c, jl_pretty J 2 (case res of
              Inl e \<Rightarrow> error_json (propose_send_error_display X e)
            | Inr proposal \<Rightarrow> send_all_answer (al_amounts (se_addresses E)) X proposal)) })"

definition exec_shield ::
  "json_lib \<Rightarrow> ('addr, 'pay, 'req, 'ua, 'x, 't, 'e) send_lib \<Rightarrow> 'e error_texts \<Rightarrow> string list \<Rightarrow>
   ('t, 'uri, 'ua, 'x) light_client \<Rightarrow> ('t, 'uri, 'ua, 'x) light_client \<times> string" where
  "exec_shield J E X args c =
     (if args \<noteq> [] then (c, try_help ''shield'' (command_error_display CE_InvalidArguments))
      else (case propose_shield E c of
        (c, Inl e) \<Rightarrow> (c, jl_pretty J 2 (error_json (propose_shield_error_display X e)))
      | (c, Inr proposal) \<Rightarrow>
          (c, jl_pretty J 2 (shield_answer (al_amounts (se_addresses E)) proposal))))"

definition exec_confirm where
  "exec_confirm J E X C S read_tx now args c s =
     (if args \<noteq> [] then Some (c, s, try_help ''confirm'' (command_error_display CE_InvalidArguments))
      else map_option (\<lambda>(c, s, res). (c, s, jl_pretty J 2 (case res of
              Inr txids \<Rightarrow> txids_json (se_display E) txids
            | Inl e \<Rightarrow> error_json (stored_proposal_error_display X e))))
        (complete_and_broadcast_stored_proposal E C S read_tx now c s))"

definition exec_quick_send where
  "exec_quick_send J E X C S read_tx now args c s =
     (case parse_send_args J (se_addresses E) args of
        Inl e \<Rightarrow> Some (c, s, try_help ''quicksend'' (command_error_display e))
      | Inr receivers \<Rightarrow> do {
          res \<leftarrow> transaction_request_from_receivers (se_zip321 E) receivers;
          case res of
            Inl e \<Rightarrow> Some (c, s, try_help ''quicksend'' e)
          | Inr request \<Rightarrow>
              map_option (\<lambda>(c, s, res). (c, s, jl_pretty J 2 (case res of
                  Inr txids \<Rightarrow> txids_json (se_display E) txids
                | Inl e \<Rightarrow> error_json (quick_send_error_display X e))))
                (quick_send E C S read_tx now request c s) })"

definition exec_quick_shield where
  "exec_quick_shield J E X C S read_tx now args c s =
     (if args \<noteq> [] then Some (c, s, try_help ''shield'' (command_error_display CE_InvalidArguments))
      else map_option (\<lambda>(c, s, res). (c, s, jl_pretty J 2 (case res of
              Inr txids \<Rightarrow> txids_json (se_display E) txids
            | Inl e \<Rightarrow> error_json (quick_shield_error_display X e))))
        (quick_shield E C S read_tx now c s))"

definition exec_spendable_balance ::
  "json_lib \<Rightarrow> ('addr, 'pay, 'req, 'ua, 'x, 't, 'e) send_lib \<Rightarrow> 'e error_texts \<Rightarrow> string list \<Rightarrow>
   ('t, 'uri, 'ua, 'x) light_client \<Rightarrow> string option" where
  "exec_spendable_balance J E X args c = do {
     parsed \<leftarrow> parse_spendable_balance_args J (se_addresses E) args;
     case parsed of
       Inl e \<Rightarrow> Some (try_help ''spendablebalance'' (command_error_display e))
     | Inr (address, zennies_for_zingo) \<Rightarrow> do {
         res \<leftarrow> get_spendable_shielded_balance E address zennies_for_zingo (lc_wallet c);
         Some (jl_pretty J 2 (case res of
             Inr bal \<Rightarrow> JsonObject [(''balance'', json_u64 bal)]
           | Inl e \<Rightarrow> error_json (propose_send_error_display X e))) } }"

section \<open>Names and tables\<close>

datatype command =
    GetVersionCommand | SyncCommand | SyncStatusCommand | EncryptMessageCommand | DecryptMessageCommand | ParseAddressCommand
  | ParseViewKeyCommand | InterruptCommand | ChangeServerCommand | RescanCommand | ClearCommand | HelpCommand | BalanceCommand
  | AddressCommand | HeightCommand | SendProgressCommand | SetOptionCommand | ValueTransfersCommand | TransactionsCommand
  | DetailedTransactionsCommand | ValueToAddressCommand | SendsToAddressCommand | MemoBytesToAddressCommand | GetOptionCommand
  | ExportUfvkCommand | InfoCommand | UpdateCurrentPriceCommand | SendCommand | ShieldCommand | DeprecatedNoCommand | QuitCommand
  | NotesCommand | NewAddressCommand | DefaultFeeCommand | SeedCommand | GetBirthdayCommand | WalletKindCommand | DeleteCommand
  | SpendableBalanceCommand | SendAllCommand | QuickSendCommand | QuickShieldCommand | ConfirmCommand

definition get_commands :: "(string, command) hash_map" where
  "get_commands =
     [(''version'', GetVersionCommand), (''sync'', SyncCommand), (''syncstatus'', SyncStatusCommand),
      (''encryptmessage'', EncryptMessageCommand), (''decryptmessage'', DecryptMessageCommand),
      (''parse_address'', ParseAddressCommand), (''parse_viewkey'', ParseViewKeyCommand),
      (''interrupt_sync_after_batch'', InterruptCommand), (''changeserver'', ChangeServerCommand), (''rescan'', RescanCommand),
      (''clear'', ClearCommand), (''help'', HelpCommand), (''balance'', BalanceCommand), (''addresses'', AddressCommand),
      (''height'', HeightCommand), (''sendprogress'', SendProgressCommand), (''setoption'', SetOptionCommand),
      (''valuetransfers'', ValueTransfersCommand), (''transactions'', TransactionsCommand),
      (''detailed_transactions'', DetailedTransactionsCommand), (''value_to_address'', ValueToAddressCommand),
      (''sends_to_address'', SendsToAddressCommand), (''memobytes_to_address'', MemoBytesToAddressCommand),
      (''getoption'', GetOptionCommand), (''exportufvk'', ExportUfvkCommand), (''info'', InfoCommand),
      (''updatecurrentprice'', UpdateCurrentPriceCommand), (''send'', SendCommand), (''shield'', ShieldCommand),
      (''save'', DeprecatedNoCommand), (''quit'', QuitCommand), (''notes'', NotesCommand), (''new'', NewAddressCommand),
      (''defaultfee'', DefaultFeeCommand), (''seed'', SeedCommand), (''get_birthday'', GetBirthdayCommand),
      (''wallet_kind'', WalletKindCommand), (''delete'', DeleteCommand), (''spendablebalance'', SpendableBalanceCommand),
      (''sendall'', SendAllCommand), (''quicksend'', QuickSendCommand), (''quickshield'', QuickShieldCommand),
      (''confirm'', ConfirmCommand)]"

definition ascii_lowercase :: "char \<Rightarrow> char" where
  "ascii_lowercase c = (if 65 \<le> (of_char c :: nat) \<and> (of_char c :: nat) \<le> 90 then char_of ((of_char c :: nat) + 32) else c)"

definition to_ascii_lowercase :: "string \<Rightarrow> string" where
  "to_ascii_lowercase s = map ascii_lowercase s"

text \<open>The help texts are constants of the commands; the order of strings is the order of their bytes.\<close>

record help_texts =
  ht_help :: "command \<Rightarrow> string"
  ht_short_help :: "command \<Rightarrow> string"

definition compare_strings :: "string \<Rightarrow> string \<Rightarrow> ordering" where
  "compare_strings s t =
     (if s = t then Equal else if (s, t) \<in> lexord {(c, d). (of_char c :: nat) < of_char d} then Less else Greater)"

fun exec_help :: "help_texts \<Rightarrow> string list \<Rightarrow> string" where
  "exec_help H [] =
     join newline (sort_by compare_strings
       (''Available commands:'' # map (\<lambda>(cmd, obj). cmd @ '' - '' @ ht_short_help H obj) get_commands))"
| "exec_help H [name] =
     (case hm_get get_commands name of
        Some cmd \<Rightarrow> ht_help H cmd
      | None \<Rightarrow> ''Command '' @ name @ '' not found'')"
| "exec_help H _ = ht_help H HelpCommand"

section \<open>Options\<close>

fun split_on :: "char \<Rightarrow> string \<Rightarrow> string list" where
  "split_on c [] = [[]]"
| "split_on c (x # xs) =
     (if x = c then [] # split_on c xs
      else (case split_on c xs of part # parts \<Rightarrow> (x # part) # parts | [] \<Rightarrow> [[x]]))"

definition success_json :: json_value where
  "success_json = JsonObject [(''success'', JsonBoolean True)]"

definition set_transaction_size_filter :: "u32 \<Rightarrow> ('t, 'uri) light_wallet \<Rightarrow> ('t, 'uri) light_wallet" where
  "set_transaction_size_filter number w =
     w\<lparr> lw_wallet_options := (lw_wallet_options w)\<lparr> wo_transaction_size_filter := Some number \<rparr> \<rparr>"

text \<open>\<open>Couldn't\<close> and \<open>couldn't\<close>: an apostrophe ends a string literal.\<close>

definition could_not :: "string \<Rightarrow> string" where
  "could_not what = ''Couldn'' @ [char_of (39 :: nat)] @ ''t '' @ what"

definition could_not_lower :: "string \<Rightarrow> string" where
  "could_not_lower what = ''couldn'' @ [char_of (39 :: nat)] @ ''t '' @ what"

definition set_option ::
  "string \<Rightarrow> string \<Rightarrow> ('t, 'uri) light_wallet \<Rightarrow> ('t, 'uri) light_wallet \<times> (string + unit)" where
  "set_option option_name option_value w =
     (if option_name = ''download_memos''
      then (if option_value = ''none'' then (set_download_memo NoMemos w, Inr ())
            else if option_value = ''wallet'' then (set_download_memo WalletMemos w, Inr ())
            else if option_value = ''all'' then (set_download_memo AllMemos w, Inr ())
            else (w, Inl (''Error: '' @ could_not ''understand '' @ option_name @
                    '' value '' @ option_value)))
      else if option_name = ''transaction_filter_threshold''
      then (case parse_u32 option_value of
              Inr number \<Rightarrow> (set_transaction_size_filter number w, Inr ())
            | Inl e \<Rightarrow> (w, Inl (''Error '' @ parse_int_error_display e @ '', '' @ could_not_lower ''parse '' @ option_value @ '' as number'')))
      else (w, Inl (''Error: '' @ could_not ''understand '' @ option_name)))"

definition exec_set_option ::
  "json_lib \<Rightarrow> help_texts \<Rightarrow> string list \<Rightarrow> ('t, 'uri) light_wallet \<Rightarrow> ('t, 'uri) light_wallet \<times> string" where
  "exec_set_option J H args w =
     (case args of
        [option] \<Rightarrow>
          (case split_on (CHR ''='') option of
             [option_name, option_value] \<Rightarrow>
               (case set_option option_name option_value w of
                  (w, Inl e) \<Rightarrow> (w, e)
                | (w, Inr _) \<Rightarrow> (w, jl_pretty J 2 success_json))
           | _ \<Rightarrow> (w, ''Error: Please set option value like: <optionname>=<optionvalue>''))
      | _ \<Rightarrow> (w, ''Error: Need exactly 1 argument'' @ newline @ newline @ ht_help H SetOptionCommand))"

fun memo_option_name :: "memo_download_option \<Rightarrow> string" where
  "memo_option_name NoMemos = ''none''"
| "memo_option_name WalletMemos = ''wallet''"
| "memo_option_name AllMemos = ''all''"

definition get_option :: "string \<Rightarrow> ('t, 'uri) light_wallet \<Rightarrow> string + string" where
  "get_option option_name w =
     (if option_name = ''download_memos'' then Inr (memo_option_name (wo_download_memos (lw_wallet_options w)))
      else if option_name = ''transaction_filter_threshold''
      then Inr (case wo_transaction_size_filter (lw_wallet_options w) of
                  Some limit \<Rightarrow> u32_to_string limit
                | None \<Rightarrow> ''No filter'')
      else Inl (''Error: '' @ could_not ''understand '' @ option_name))"

definition exec_get_option :: "json_lib \<Rightarrow> help_texts \<Rightarrow> string list \<Rightarrow> ('t, 'uri) light_wallet \<Rightarrow> string" where
  "exec_get_option J H args w =
     (case args of
        [option_name] \<Rightarrow>
          (case get_option option_name w of
             Inl e \<Rightarrow> e
           | Inr v \<Rightarrow> jl_pretty J 2 (JsonObject [(option_name, JsonString v)]))
      | _ \<Rightarrow> ''Error: Need exactly 1 argument'' @ newline @ newline @ ht_help H GetOptionCommand)"

section \<open>Descriptions of the wallet\<close>

definition exec_height :: "json_lib \<Rightarrow> u64 \<Rightarrow> ('t, 'uri) light_wallet \<Rightarrow> string" where
  "exec_height J activation w = jl_pretty J 2 (JsonObject [(''height'', json_u64 (last_synced_height activation w))])"

definition exec_get_birthday :: "u64 \<Rightarrow> ('t, 'uri) light_wallet \<Rightarrow> string" where
  "exec_get_birthday activation w = u64_to_string (get_birthday activation w)"

definition wallet_kind_json :: "string \<Rightarrow> bool \<Rightarrow> bool \<Rightarrow> bool \<Rightarrow> json_value" where
  "wallet_kind_json kind transparent sapling orchard = JsonObject
     [(''kind'', JsonString kind), (''transparent'', JsonBoolean transparent), (''sapling'', JsonBoolean sapling),
      (''orchard'', JsonBoolean orchard)]"

definition exec_wallet_kind :: "json_lib \<Rightarrow> u64 \<Rightarrow> ('t, 'uri) light_wallet \<Rightarrow> string" where
  "exec_wallet_kind J activation w = jl_pretty J 4
     (if \<not> isl (do_seed_phrase activation w) then wallet_kind_json ''Loaded from seed phrase'' True True True
      else (case lw_key_store w of
          KS_Spend \<Rightarrow> wallet_kind_json ''Loaded from unified spending key'' True True True
        | KS_View ufvk \<Rightarrow> wallet_kind_json ''Loaded from unified full viewing key''
            (vk_transparent ufvk) (vk_sapling ufvk) (vk_orchard ufvk)
        | KS_Empty \<Rightarrow> wallet_kind_json ''No keys found'' False False False))"

fun exec_default_fee :: "json_lib \<Rightarrow> help_texts \<Rightarrow> u64 \<Rightarrow> string list \<Rightarrow> string" where
  "exec_default_fee J H minimum_fee args =
     (if length args > 1 then ''Was expecting at most 1 argument'' @ newline @ ht_help H DefaultFeeCommand
      else jl_pretty J 2 (JsonObject [(''defaultfee'', json_u64 minimum_fee)]))"

definition exec_notes ::
  "json_lib \<Rightarrow> help_texts \<Rightarrow> display_lib \<Rightarrow> listing \<Rightarrow> string list \<Rightarrow> ('t, 'uri) light_wallet \<Rightarrow> string option" where
  "exec_notes J H D L args w =
     (case args of
        [] \<Rightarrow> map_option (jl_pretty J 2) (do_list_notes D L False w)
      | [a] \<Rightarrow>
          if a = ''all'' then map_option (jl_pretty J 2) (do_list_notes D L True w)
          else Some (''Invalid argument '' @ double_quote @ a @ double_quote @ ''. Specify '' @ quoted ''all'' @ '' to include unspent notes'')
      | _ \<Rightarrow> Some (ht_short_help H NotesCommand))"

definition invalid_arguments :: "string \<Rightarrow> string" where
  "invalid_arguments name = ''Error: invalid arguments'' @ newline @ ''Try '' @ quoted (''help '' @ name) @
     '' for correct usage and examples''"

definition records_of :: "('t, 'uri) light_wallet \<Rightarrow> records" where
  "records_of w = tm_records (lw_tx_map w)"

definition exec_value_transfers :: "display_lib \<Rightarrow> presentation \<Rightarrow> string list \<Rightarrow> ('t, 'uri) light_wallet \<Rightarrow> string option" where
  "exec_value_transfers D P args w =
     (if args \<noteq> [] then Some (invalid_arguments ''valuetransfers'')
      else map_option (value_transfers_display D) (value_transfers P (records_of w) (c_chain (lw_config w))))"

definition exec_transactions :: "display_lib \<Rightarrow> string list \<Rightarrow> ('t, 'uri) light_wallet \<Rightarrow> string option" where
  "exec_transactions D args w =
     (if args \<noteq> [] then Some (invalid_arguments ''transactions'')
      else map_option (transaction_summaries_display D) (transaction_summaries (records_of w) (c_chain (lw_config w))))"

definition exec_detailed_transactions :: "display_lib \<Rightarrow> string list \<Rightarrow> ('t, 'uri) light_wallet \<Rightarrow> string option" where
  "exec_detailed_transactions D args w =
     (if args \<noteq> [] then Some (invalid_arguments ''detailed_transactions'')
      else map_option (detailed_transaction_summaries_display D)
        (detailed_transaction_summaries D (records_of w) (c_chain (lw_config w))))"

definition not_understood :: "help_texts \<Rightarrow> command \<Rightarrow> string" where
  "not_understood H cmd = ''didn'' @ [char_of (39 :: nat)] @ ''t understand arguments'' @ newline @ ht_help H cmd"

definition exec_memo_bytes_to_address ::
  "json_lib \<Rightarrow> help_texts \<Rightarrow> presentation \<Rightarrow> string list \<Rightarrow> ('t, 'uri) light_wallet \<Rightarrow> string option" where
  "exec_memo_bytes_to_address J H P args w =
     (if length args > 1 then Some (not_understood H MemoBytesToAddressCommand)
      else map_option (jl_pretty J 2 \<circ> total_memo_bytes_json) (do_total_memobytes_to_address P (records_of w) (c_chain (lw_config w))))"

definition exec_value_to_address ::
  "json_lib \<Rightarrow> help_texts \<Rightarrow> presentation \<Rightarrow> string list \<Rightarrow> ('t, 'uri) light_wallet \<Rightarrow> string option" where
  "exec_value_to_address J H P args w =
     (if length args > 1 then Some (not_understood H ValueToAddressCommand)
      else map_option (jl_pretty J 2 \<circ> total_value_json) (do_total_value_to_address P (records_of w) (c_chain (lw_config w))))"

definition exec_sends_to_address ::
  "json_lib \<Rightarrow> help_texts \<Rightarrow> presentation \<Rightarrow> string list \<Rightarrow> ('t, 'uri) light_wallet \<Rightarrow> string option" where
  "exec_sends_to_address J H P args w =
     (if length args > 1 then Some (not_understood H SendsToAddressCommand)
      else map_option (jl_pretty J 2 \<circ> total_sends_json) (do_total_spends_to_address P (records_of w) (c_chain (lw_config w))))"

definition exec_send_progress :: "json_lib \<Rightarrow> ('t, 'uri, 'ua, 'x) light_client \<Rightarrow> string" where
  "exec_send_progress J c =
     (case do_send_progress c of Inr p \<Rightarrow> jl_pretty J 2 (send_progress_json p) | Inl e \<Rightarrow> e)"

definition interrupt_sync_after_batch :: "bool \<Rightarrow> ('t, 'uri, 'ua, 'x) light_client \<Rightarrow> ('t, 'uri, 'ua, 'x) light_client" where
  "interrupt_sync_after_batch set_interrupt c = c\<lparr> lc_interrupt_sync := set_interrupt \<rparr>"

definition exec_interrupt ::
  "help_texts \<Rightarrow> string list \<Rightarrow> ('t, 'uri, 'ua, 'x) light_client \<Rightarrow> ('t, 'uri, 'ua, 'x) light_client \<times> string" where
  "exec_interrupt H args c =
     (if args = [''true''] then (interrupt_sync_after_batch True c, ''true'')
      else if args = [''false''] then (interrupt_sync_after_batch False c, ''false'')
      else (c, ht_help H InterruptCommand))"

section \<open>Dispatch\<close>

record 'e shell =
  sh_json :: json_lib
  sh_help :: help_texts
  sh_texts :: "'e error_texts"
  sh_presentation :: presentation
  sh_listing :: listing
  sh_activation :: u64
  sh_minimum_fee :: u64

text \<open>\<open>other\<close> is the effect of the commands that are not modelled: synchronisation, messages, keys and addresses, the wallet file
  and requests to the server.\<close>

definition answer_only :: "'c \<Rightarrow> 's \<Rightarrow> string \<Rightarrow> ('c \<times> 's \<times> string) option" where
  "answer_only c s text = Some (c, s, text)"

definition exec_command where
  "exec_command B E C S read_tx now other cmd args c s =
     (let J = sh_json B; H = sh_help B; X = sh_texts B; w = lc_wallet c; D = se_display E
      in case cmd of
           SendCommand \<Rightarrow> map_option (\<lambda>(c, text). (c, s, text)) (exec_send J E X args c)
         | SendAllCommand \<Rightarrow> map_option (\<lambda>(c, text). (c, s, text)) (exec_send_all J E X args c)
         | ShieldCommand \<Rightarrow> (case exec_shield J E X args c of (c, text) \<Rightarrow> Some (c, s, text))
         | ConfirmCommand \<Rightarrow> exec_confirm J E X C S read_tx now args c s
         | QuickSendCommand \<Rightarrow> exec_quick_send J E X C S read_tx now args c s
         | QuickShieldCommand \<Rightarrow> exec_quick_shield J E X C S read_tx now args c s
         | SpendableBalanceCommand \<Rightarrow> Option.bind (exec_spendable_balance J E X args c) (answer_only c s)
         | SetOptionCommand \<Rightarrow> (case exec_set_option J H args w of (w, text) \<Rightarrow> Some (c\<lparr> lc_wallet := w \<rparr>, s, text))
         | GetOptionCommand \<Rightarrow> answer_only c s (exec_get_option J H args w)
         | InterruptCommand \<Rightarrow> (case exec_interrupt H args c of (c, text) \<Rightarrow> Some (c, s, text))
         | HelpCommand \<Rightarrow> answer_only c s (exec_help H args)
         | HeightCommand \<Rightarrow> answer_only c s (exec_height J (sh_activation B) w)
         | GetBirthdayCommand \<Rightarrow> answer_only c s (exec_get_birthday (sh_activation B) w)
         | WalletKindCommand \<Rightarrow> answer_only c s (exec_wallet_kind J (sh_activation B) w)
         | DefaultFeeCommand \<Rightarrow> answer_only c s (exec_default_fee J H (sh_minimum_fee B) args)
         | SendProgressCommand \<Rightarrow> answer_only c s (exec_send_progress J c)
         | NotesCommand \<Rightarrow> Option.bind (exec_notes J H D (sh_listing B) args w) (answer_only c s)
         | ValueTransfersCommand \<Rightarrow> Option.bind (exec_value_transfers D (sh_presentation B) args w) (answer_only c s)
         | TransactionsCommand \<Rightarrow> Option.bind (exec_transactions D args w) (answer_only c s)
         | DetailedTransactionsCommand \<Rightarrow> Option.bind (exec_detailed_transactions D args w) (answer_only c s)
         | MemoBytesToAddressCommand \<Rightarrow> Option.bind (exec_memo_bytes_to_address J H (sh_presentation B) args w) (answer_only c s)
         | ValueToAddressCommand \<Rightarrow> Option.bind (exec_value_to_address J H (sh_presentation B) args w) (answer_only c s)
         | SendsToAddressCommand \<Rightarrow> Option.bind (exec_sends_to_address J H (sh_presentation B) args w) (answer_only c s)
         | DeprecatedNoCommand \<Rightarrow> answer_only c s ''.deprecated.''
         | _ \<Rightarrow> other cmd args c s)"

definition do_user_command where
  "do_user_command B E C S read_tx now other cmd args c s =
     (case hm_get get_commands (to_ascii_lowercase cmd) of
        Some command \<Rightarrow> exec_command B E C S read_tx now other command args c s
      | None \<Rightarrow> answer_only c s (''Unknown command : '' @ cmd @ ''. Type '' @ quoted ''help'' @ '' for a list of commands''))"

end
