(* ===== verification/Command_Args_Laws.thy ===== *)
theory Command_Args_Laws
  imports Command_Args
begin

text \<open>
  Laws of the argument parsers: numbers and white space, what the parsers guarantee of the receivers they return, and
  that the two forms of the send arguments agree.
\<close>

section \<open>Numbers as text\<close>

lemma parse_digits_append:
  "parse_digits b r (xs @ ys) = res_bind (parse_digits b r xs) (\<lambda>r'. parse_digits b r' ys)"
  by (induction b r xs rule: parse_digits.induct) (auto split: option.split)

lemma digit_value_digit [simp]: "digit_value (digit n) = Some (n mod 10)"
proof -
  have "(48 + n mod 10) mod 256 = 48 + n mod 10" by (intro mod_less) linarith
  then show ?thesis by (simp add: digit_value_def)
qed

lemma digits_digit [simp]: "digit_value c \<noteq> None \<Longrightarrow> c \<noteq> CHR ''+''"
  by (auto simp: digit_value_def split: if_splits)

lemma dec_digits: "list_all (\<lambda>c. digit_value c \<noteq> None) (dec n) \<and> dec n \<noteq> []"
proof (induction n rule: dec.induct)
  case (1 n)
  then show ?case by (subst (1 2) dec.simps) (auto simp del: digit.simps)
qed

lemma parse_digits_dec: "n < b \<Longrightarrow> parse_digits b 0 (dec n) = Inr n"
proof (induction n rule: dec.induct)
  case (1 n)
  show ?case
  proof (cases "n < 10")
    case True
    then show ?thesis using 1 by (subst dec.simps) (simp del: digit.simps)
  next
    case False
    have "n div 10 * 10 + n mod 10 = n" by presburger
    then show ?thesis using 1 False by (subst dec.simps) (simp add: parse_digits_append del: digit.simps)
  qed
qed

lemma parse_unsigned_dec: "n < b \<Longrightarrow> parse_unsigned b (dec n) = Inr n"
  using dec_digits [of n] parse_digits_dec [of n b] by (cases "dec n") auto

lemma parse_u64_to_string [simp]: "parse_u64 (u64_to_string v) = Inr v"
proof -
  have "unat v < 2 ^ 64" using unsigned_less [where 'b = 64, of v] by simp
  then show ?thesis by (simp add: parse_u64_def u64_to_string_def parse_unsigned_dec)
qed

lemma parse_u32_to_string [simp]: "parse_u32 (u32_to_string v) = Inr v"
proof -
  have "unat v < 2 ^ 32" using unsigned_less [where 'b = 32, of v] by simp
  then show ?thesis by (simp add: parse_u32_def u32_to_string_def parse_unsigned_dec)
qed

section \<open>White space\<close>

definition prefix_free :: "string list \<Rightarrow> bool" where
  "prefix_free ws \<longleftrightarrow> list_all (\<lambda>v. v \<noteq> [] \<and> list_all (\<lambda>w. prefix v w \<longrightarrow> v = w) ws) ws"

lemma white_space_prefix_free: "prefix_free white_space" "prefix_free (map rev white_space)"
  by code_simp+

lemma strip_any_append:
  assumes "prefix_free ws" "w \<in> set ws"
  shows "strip_any ws (w @ s) = Some s"
proof -
  have "\<exists>v. List.find (\<lambda>v. prefix v (w @ s)) ws = Some v"
    using assms(2) by (cases "List.find (\<lambda>v. prefix v (w @ s)) ws") (auto simp: find_None_iff)
  then obtain v where v: "List.find (\<lambda>v. prefix v (w @ s)) ws = Some v" by blast
  then have "v \<in> set ws" "prefix v (w @ s)" by (auto simp: find_Some_iff)
  then have "prefix v w \<or> prefix w v" by (metis prefixI prefix_same_cases)
  then have "v = w" using assms \<open>v \<in> set ws\<close> by (auto simp: prefix_free_def list_all_iff)
  then show ?thesis using v by (simp add: strip_any_def)
qed

lemma strip_all_append:
  assumes "prefix_free ws" "set bs \<subseteq> set ws"
  shows "strip_all ws (concat bs @ s) = strip_all ws s"
  using assms(2)
proof (induction bs)
  case (Cons w bs)
  have "w \<noteq> []" using assms(1) Cons.prems by (auto simp: prefix_free_def list_all_iff)
  then show ?case
    using Cons strip_any_append [OF assms(1), of w "concat bs @ s"]
    by (subst strip_all.simps) simp
qed simp

lemma strip_all_stop: "strip_any ws s = None \<Longrightarrow> strip_all ws s = s"
  by (subst strip_all.simps) simp

lemma digits_no_space:
  assumes "digit_value c \<noteq> None"
  shows "strip_any white_space (c # s) = None" "strip_any (map rev white_space) (c # s) = None"
proof -
  have "list_all (\<lambda>w. w \<noteq> [] \<and> digit_value (hd w) = None) white_space"
    "list_all (\<lambda>w. w \<noteq> [] \<and> digit_value (hd w) = None) (map rev white_space)"
    by code_simp+
  then have n: "\<not> prefix w (c # s)" if "w \<in> set white_space \<or> w \<in> set (map rev white_space)" for w
    using that assms unfolding list_all_iff by (metis list.sel(1) prefix_Cons)
  show "strip_any white_space (c # s) = None" "strip_any (map rev white_space) (c # s) = None"
    unfolding strip_any_def option.map_disc_iff find_None_iff using n by blast+
qed

lemma trim_digits:
  assumes "list_all (\<lambda>c. digit_value c \<noteq> None) ds" "ds \<noteq> []" "set before \<subseteq> set white_space" "set after \<subseteq> set white_space"
  shows "trim (concat before @ ds @ concat after) = ds"
proof -
  obtain c cs where ds: "ds = c # cs" using assms(2) by (cases ds) auto
  obtain d es where rds: "rev ds = d # es" using assms(2) by (cases "rev ds") auto
  have "d \<in> set ds" using rds by (metis list.set_intros(1) set_rev)
  then have dig: "digit_value c \<noteq> None" "digit_value d \<noteq> None" using assms(1) ds by (auto simp: list_all_iff)
  have "strip_all white_space (concat before @ ds @ concat after) = ds @ concat after"
    using strip_all_append [OF white_space_prefix_free(1) assms(3)] strip_all_stop [OF digits_no_space(1) [OF dig(1)]]
    by (simp add: ds)
  moreover have "rev (concat after) = concat (map rev (rev after))" by (simp add: rev_concat rev_map)
  moreover have "strip_all (map rev white_space) (concat (map rev (rev after)) @ rev ds) = rev ds"
    using strip_all_append [OF white_space_prefix_free(2), of "map rev (rev after)" "rev ds"] assms(4)
      strip_all_stop [OF digits_no_space(2) [OF dig(2)]] by (auto simp: rds)
  ultimately show ?thesis by (simp add: trim_def)
qed

lemma parse_amount_text:
  assumes "set before \<subseteq> set white_space" "set after \<subseteq> set white_space"
  shows "parse_u64 (trim (concat before @ u64_to_string v @ concat after)) = Inr v"
  using trim_digits [OF _ _ assms, of "u64_to_string v"] dec_digits [of "unat v"] parse_u64_to_string [of v]
  by (simp add: u64_to_string_def)

section \<open>Receivers\<close>

lemma map_sum_Inr_iff [simp]: "map_sum f g r = Inr y \<longleftrightarrow> (\<exists>x. r = Inr x \<and> y = g x)"
  by (cases r) auto

lemma res_bind_Inr [simp]: "res_bind r f = Inr y \<longleftrightarrow> (\<exists>x. r = Inr x \<and> f x = Inr y)"
  by (cases r) auto

lemma collect_ok_Inr: "collect_ok rs = Inr xs \<longleftrightarrow> rs = map Inr xs"
  by (induction rs arbitrary: xs) (auto simp: Cons_eq_map_conv)

text \<open>A receiver whose memo can be delivered.\<close>

definition receivable :: "'addr address_lib \<Rightarrow> 'addr receiver_to \<Rightarrow> bool" where
  "receivable A r \<longleftrightarrow> (\<exists>v. amt_from_u64 (al_amounts A) v = Inr (rv_amount r)) \<and> (rv_memo r = None \<or> al_can_receive_memo A (rv_recipient_address r))"

lemma check_memo_compatibility_Inr [simp]:
  "check_memo_compatibility A a memo = Inr u \<longleftrightarrow> memo = None \<or> al_can_receive_memo A a"
  by (auto simp: check_memo_compatibility_def)

lemma zatoshis_from_u64_Inr [simp]: "zatoshis_from_u64 A v = Inr w \<longleftrightarrow> amt_from_u64 (al_amounts A) v = Inr w"
  by (auto simp: zatoshis_from_u64_def)

lemma receiver_from_json_receivable: "receiver_from_json J A j = Inr r \<Longrightarrow> receivable A r"
  by (auto simp: receiver_from_json_def receivable_def zatoshis_from_json_def split: if_splits option.splits)

lemma receiver_from_args_receivable: "receiver_from_args A a v m = Inr r \<Longrightarrow> receivable A r"
  by (auto simp: receiver_from_args_def receivable_def)

lemma parse_send_args_receivable:
  assumes "parse_send_args J A args = Inr rs"
  shows "list_all (receivable A) rs"
  using assms
proof (induction J A args rule: parse_send_args.induct)
  case (1 J A arg)
  then show ?case
    by (auto simp: collect_ok_Inr list_all_length map_equality_iff split: if_splits
        dest: receiver_from_json_receivable)
qed (auto intro: receiver_from_args_receivable)

lemma parse_send_all_args_compatible:
  assumes "parse_send_all_args J A args = Inr (address, zennies, memo)"
  shows "memo = None \<or> al_can_receive_memo A address"
  using assms by (induction J A args rule: parse_send_all_args.induct) (auto split: sum.splits if_splits)

text \<open>The documented behaviour of \<open>Payment::new\<close>: it refuses only a memo to an address that cannot receive one.\<close>

definition payment_new_ok :: "'addr address_lib \<Rightarrow> ('addr, 'pay, 'req) zip321 \<Rightarrow> bool" where
  "payment_new_ok A Z \<longleftrightarrow>
     (\<forall>a v m. m = None \<or> al_can_receive_memo A a \<longrightarrow> z3_payment_new Z a v m \<noteq> None)"

lemma request_total:
  assumes "payment_new_ok A Z" "list_all (\<lambda>r. rv_memo r = None \<or> al_can_receive_memo A (rv_recipient_address r)) rs"
  shows "\<exists>res. transaction_request_from_receivers Z rs = Some res"
proof -
  have "list_all (\<lambda>r. payment_from_receiver Z r \<noteq> None) rs"
    using assms unfolding payment_new_ok_def payment_from_receiver_def list_all_iff by blast
  then have "those (map (payment_from_receiver Z) rs) \<noteq> None" by (induction rs) auto
  then show ?thesis by (auto simp: transaction_request_from_receivers_def)
qed

section \<open>Concrete libraries\<close>

text \<open>Addresses are their text: \<open>t..\<close> is transparent, the others are shielded.\<close>

definition plain_address_lib :: "string address_lib" where
  "plain_address_lib = \<lparr> al_try_from_encoded = (\<lambda>s. if s \<noteq> [] \<and> hd s \<in> set ''tzu'' then Inr s else Inl ''not an address''),
     al_can_receive_memo = (\<lambda>a. hd a \<noteq> CHR ''t''), al_amounts = example_amount_ops,
     al_hex_decode = (\<lambda>_. Inl ''odd''), al_memo_from_bytes = (\<lambda>bs. if length bs \<le> 512 then Some bs else None), al_debug = id \<rparr>"

definition plain_zip321 :: "(string, string \<times> u64 \<times> byte list option, (string \<times> u64 \<times> byte list option) list) zip321" where
  "plain_zip321 = \<lparr> z3_payment_new = (\<lambda>a v m. if m = None \<or> hd a \<noteq> CHR ''t'' then Some (a, v, m) else None), z3_request_new = Inr \<rparr>"

definition one_payment :: "string \<Rightarrow> u64 \<Rightarrow> string \<Rightarrow> json_value" where
  "one_payment address amount memo =
     JsonObject [(''address'', JsonString address), (''amount'', json_u64 amount), (''memo'', JsonString memo)]"

definition plain_json_lib :: json_lib where
  "plain_json_lib = \<lparr> jl_parse = (\<lambda>s. if s = ''j'' then Inr (JsonArray [one_payment ''z1'' 70 ''hi'']) else Inl ''no''),
     jl_to_string = (\<lambda>_. []), jl_pretty = (\<lambda>_ _. []),
     jl_is_empty = (\<lambda>j. j = JsonArray []),
     jl_as_u64 = (\<lambda>n. case n of JsonInt i \<Rightarrow> if 0 \<le> i \<and> i < 2 ^ 64 then Some (word_of_int i) else None | _ \<Rightarrow> None) \<rparr>"

lemma plain_payment_new_ok: "payment_new_ok plain_address_lib plain_zip321"
  by (simp add: payment_new_ok_def plain_address_lib_def plain_zip321_def)

section \<open>Properties\<close>

text \<open>C22. What the send parser accepts, the payment code accepts: every receiver it returns has an amount in the
  valid range and a memo only if its address can receive one, so that building the transaction request
  from the receivers does not reach the \<open>expect\<close> of the conversion to payments.\<close>

theorem parsed_receivers_make_request:
  assumes "parse_send_args J A args = Inr receivers" "payment_new_ok A Z"
  shows "list_all (receivable A) receivers \<and>
    (\<exists>res. transaction_request_from_receivers Z receivers = Some res)"
proof
  show r: "list_all (receivable A) receivers" using assms(1) by (rule parse_send_args_receivable)
  then show "\<exists>res. transaction_request_from_receivers Z receivers = Some res"
    by (intro request_total [OF assms(2)]) (auto simp: list_all_iff receivable_def)
qed

theorem parsed_receivers_make_request_witness:
  "list_all (receivable plain_address_lib) [\<lparr> rv_recipient_address = ''z1'', rv_amount = 70, rv_memo = Some [104, 105] \<rparr>] \<and>
   (\<exists>res. transaction_request_from_receivers plain_zip321
     [\<lparr> rv_recipient_address = ''z1'', rv_amount = 70, rv_memo = Some [104, 105] \<rparr>] = Some res)"
proof -
  have "parse_send_args plain_json_lib plain_address_lib [''j''] =
      Inr [\<lparr> rv_recipient_address = ''z1'', rv_amount = 70, rv_memo = Some [104, 105] \<rparr>]"
    by (simp add: plain_json_lib_def one_payment_def json_u64_def receiver_from_json_def address_from_json_def address_from_str_def
        plain_address_lib_def zatoshis_from_json_def zatoshis_from_u64_def example_amount_ops_def memo_from_json_def interpret_memo_string_def
        starts_with_0x_def string_bytes_def check_memo_compatibility_def)
  from parsed_receivers_make_request [OF this plain_payment_new_ok] show ?thesis .
qed

text \<open>C23. The two forms of the send command agree: a JSON array with one object that has an address, an amount and a
  memo means the same as these three as arguments, with the amount written in decimal and white space around it,
  errors included. The \<open>json\<close> crate is assumed to read the number of the amount back.\<close>

theorem json_and_positional_sends_agree:
  assumes "jl_parse J text = Inr (JsonArray [one_payment address amount memo])"
    and "\<not> jl_is_empty J (JsonArray [one_payment address amount memo])"
    and "jl_as_u64 J (JsonInt (uint amount)) = Some amount"
    and "set before \<subseteq> set white_space" "set after \<subseteq> set white_space"
  shows "parse_send_args J A [text] =
    parse_send_args J A [address, concat before @ u64_to_string amount @ concat after, memo]"
proof -
  have "receiver_from_json J A (one_payment address amount memo) =
      receiver_from_args A address (concat before @ u64_to_string amount @ concat after) (Some memo)"
    by (cases "address_from_str A address"; cases "zatoshis_from_u64 A amount"; cases "interpret_memo_string A memo")
       (simp_all add: receiver_from_json_def receiver_from_args_def one_payment_def address_from_json_def zatoshis_from_json_def
        memo_from_json_def json_u64_def parse_amount_text [OF assms(4,5)] assms(3))
  then show ?thesis
    using assms(1,2) by (cases "receiver_from_args A address (concat before @ u64_to_string amount @ concat after) (Some memo)")
      simp_all
qed

theorem json_and_positional_sends_agree_witness:
  "parse_send_args plain_json_lib plain_address_lib [''j''] =
   parse_send_args plain_json_lib plain_address_lib [''z1'', '' '' @ u64_to_string 70, ''hi'']"
proof -
  have "jl_parse plain_json_lib ''j'' = Inr (JsonArray [one_payment ''z1'' 70 ''hi''])"
    "\<not> jl_is_empty plain_json_lib (JsonArray [one_payment ''z1'' 70 ''hi''])"
    "jl_as_u64 plain_json_lib (JsonInt (uint (70 :: u64))) = Some 70"
    by (simp_all add: plain_json_lib_def)
  moreover have "list_all (\<lambda>w. w \<in> set white_space) ['' '']" by code_simp
  ultimately show ?thesis
    using json_and_positional_sends_agree [of plain_json_lib "''j''" "''z1''" 70 "''hi''" "['' '']" "[]" plain_address_lib]
    by (simp del: parse_send_args.simps)
qed

lemma spendable_balance_without_arguments: "parse_spendable_balance_args J A [] = None"
  by (simp add: parse_spendable_balance_args_def)

lemma send_all_refuses_arrays:
  assumes "address_from_str A arg = Inl e" "jl_parse J arg = Inr (JsonArray xs)"
  shows "parse_send_all_args J A [arg] = Inl (CE_JsonArrayNotObj (jl_to_string J (JsonArray xs)))"
  using assms by simp

end
