(* ===== verification/Sending_Laws.thy ===== *)
theory Sending_Laws
  imports Sending Command_Args_Laws Shielded_Scan_Laws
begin

text \<open>
  Laws of sending. The scan of a calculated transaction keeps the cache and changes statuses only to calculated; a broadcast
  marks what it sent (\<open>broadcast_done\<close>); a wallet is \<open>blocked\<close> when its cache begins with a calculated transaction,
  and no send leaves that state while the server refuses the transaction. Sending everything spends exactly the balance.
\<close>

section \<open>Statuses and the cache during a scan\<close>

text \<open>What the scan of a pending transaction leaves alone: the spending data with the cached transactions, and every status that it
  does not set to its own.\<close>

lemma mark_note_spending_data:
  "mark_note_as_spent ops gn upd nv rm nf t st src oi tm = Some (tm', res) \<Longrightarrow> \<not> is_confirmed st \<Longrightarrow>
   tm_spending_data tm' = tm_spending_data tm"
  by (cases st) (auto simp: mark_note_as_spent_def split: option.splits)

lemma found_internal_spending_data:
  assumes "found_spent_nullifier_internal ops gn upd nv rm sns ip t st ts nf src oi tm = Some (tm', res)" "\<not> is_confirmed st"
  shows "tm_spending_data tm' = tm_spending_data tm"
proof -
  obtain tm1 res1 where m: "mark_note_as_spent ops gn upd nv rm nf t st src oi tm = Some (tm1, res1)"
    using assms(1) by (auto simp: found_spent_nullifier_internal_def split: option.splits)
  then show ?thesis
    using assms(1) mark_note_spending_data [OF m assms(2)]
    by (cases res1) (auto simp: found_spent_nullifier_internal_def split: option.splits)
qed

lemma found_spent_spending_data:
  "found_spent_nullifier ops t st ts nf src oi tm = Some (tm', res) \<Longrightarrow> \<not> is_confirmed st \<Longrightarrow>
   tm_spending_data tm' = tm_spending_data tm"
  by (cases nf) (auto elim: found_internal_spending_data)

lemma pending_spends_spending_data:
  "pending_spends_loop ops ip us txid st bt nfs tm = Some tm' \<Longrightarrow> \<not> is_confirmed st \<Longrightarrow>
   tm_spending_data tm' = tm_spending_data tm"
proof (induction nfs arbitrary: tm)
  case (Cons nf nfs)
  show ?case
  proof (cases "find (\<lambda>(x, _, _, _). x = nf) us")
    case None
    with Cons show ?thesis by simp
  next
    case (Some u)
    obtain x v t oi where u: "u = (x, v, t, oi)" by (cases u)
    obtain tm1 res where "found_spent_nullifier ops txid st bt (ip x) t oi tm = Some (tm1, res)"
      "pending_spends_loop ops ip us txid st bt nfs tm1 = Some tm'"
      using Cons.prems(1) by (auto simp: Some u split: Option.bind_splits)
    with Cons show ?thesis by (metis found_spent_spending_data)
  qed
qed simp

lemma domain_spending_data:
  assumes "decrypt_transaction_to_record_domain lib ma F U as ops gn upd nv vn ip txid b st bt (tm, out, memos) =
     Some (tm', out', memos')"
  shows "tm_spending_data tm' = tm_spending_data tm"
proof (cases "sl_viewing lib")
  case None
  with assms show ?thesis by (simp add: decrypt_transaction_to_record_domain_def)
next
  case (Some v)
  obtain ivk ovk where v: "v = (ivk, ovk)" by (cases v)
  obtain m us nfs where "(if \<not> is_confirmed st then pending_spends_loop ops ip us txid st bt nfs (tm\<lparr> tm_records := m \<rparr>)
      else Some (tm\<lparr> tm_records := m \<rparr>)) = Some tm'"
    using assms unfolding decrypt_transaction_to_record_domain_def Let_def by (auto simp: Some v split: Option.bind_splits if_splits)
  then show ?thesis using pending_spends_spending_data by (fastforce split: if_splits)
qed

lemma scan_spending_data:
  assumes "scan_full_tx C tx st bt price tm = Some tm'"
  shows "tm_spending_data tm' = tm_spending_data tm"
proof -
  obtain tm1 out1 memos tex out where p:
    "decrypt_transaction_to_record C tx st bt (tm, [], [], False) = Some (tm1, out1, memos, tex)"
    "post_process_scan_results C tx tex (tm_records tm1) out1 = Some out"
    using assms unfolding scan_full_tx_def by (auto simp: Option.bind_eq_Some_conv)
  have "tm_spending_data tm' = tm_spending_data tm1"
    using assms unfolding scan_full_tx_def by (auto simp: p Let_def split: prod.splits sum.splits)
  moreover obtain m tm2 out2 memos2 where
    "decrypt_transaction_to_record_sapling C tx st bt (tm\<lparr> tm_records := m \<rparr>, [], []) = Some (tm2, out2, memos2)"
    "decrypt_transaction_to_record_orchard C tx st bt (tm2, out2, memos2) = Some (tm1, out1, memos)"
    using p(1) by (rule decrypt_phases)
  then have "tm_spending_data tm1 = tm_spending_data tm"
    unfolding decrypt_transaction_to_record_sapling_def decrypt_transaction_to_record_orchard_def
    by (auto dest!: domain_spending_data)
  ultimately show ?thesis by simp
qed

lemma handle_uas_status: "tr_status (handle_uas U uas r) = tr_status r"
  unfolding handle_uas_def by (induction uas arbitrary: r) simp_all

lemma moves_zingomemos:
  "update_from_zingomemos U derive memos (m, keys) = ((m', keys'), res) \<Longrightarrow> moves st m m'"
proof (induction memos arbitrary: m keys)
  case (Cons p memos)
  obtain pm t where p: "p = (pm, t)" by (cases p)
  have h: "moves st m (hm_modify t (handle_uas U uas) m)" for uas
    by (rule moves_modify) (rule handle_uas_status)
  show ?case
  proof (cases "hm_get m t")
    case None
    with Cons show ?thesis by (simp add: p)
  next
    case (Some r)
    show ?thesis
    proof (cases pm)
      case (Version0 uas)
      with Cons h [of uas] show ?thesis by (auto simp: p Some intro: moves_trans)
    next
      case (Version1 uas idx)
      obtain ks r1 where "handle_texes derive idx keys = (ks, r1)" by (cases "handle_texes derive idx keys")
      with Version1 Cons h [of uas] show ?thesis by (cases r1) (auto simp: p Some Let_def intro: moves_trans)
    qed
  qed
qed simp

lemma moves_scan:
  assumes "scan_full_tx C tx st bt price tm = Some tm'"
  shows "moves st (tm_records tm) (tm_records tm')"
proof -
  obtain tm1 out1 memos tex out m where p:
    "decrypt_transaction_to_record C tx st bt (tm, [], [], False) = Some (tm1, out1, memos, tex)"
    "update_from_zingomemos (sc_ua_encodings C) (sc_derive_rejection C) memos
       (if out \<noteq> [] then add_outgoing_metadata (sx_txid tx) out (tm_records tm1) else tm_records tm1,
        tm_rejection_addresses tm1) = ((m, tm_rejection_addresses tm'), Inr ())"
    "tm_records tm' = set_price (sx_txid tx) price m"
    using assms by (rule scan_full_tx_phases)
  have "moves st (tm_records tm) (tm_records tm1)"
    using decrypt_to_record_effect(1) [OF p(1)] by (simp add: quiet_def)
  moreover have "moves st (tm_records tm1) (add_outgoing_metadata (sx_txid tx) out (tm_records tm1))"
    unfolding add_outgoing_metadata_def by (rule moves_modify) simp
  moreover have "moves st m (tm_records tm')"
    unfolding p(3) set_price_def by (cases price) (simp_all add: moves_modify)
  ultimately show ?thesis using moves_zingomemos [OF p(2), of st] by (auto intro: moves_trans split: if_splits)
qed

lemma update_note_spend_status_statuses:
  assumes "update_note_spend_status gn upd nf sp m = Some m'" "\<And>f r. tr_status (upd f r) = tr_status r"
  shows "map_option tr_status (hm_get m' t) = map_option tr_status (hm_get m t)"
  using assms by (auto simp: update_note_spend_status_def hm_simps Let_def split: option.splits)

lemma for_each_nullifier_statuses:
  assumes "for_each_nullifier f nfs m = Some m'"
    and "\<And>nf m m'. f nf m = Some m' \<Longrightarrow> map_option tr_status (hm_get m' t) = map_option tr_status (hm_get m t)"
  shows "map_option tr_status (hm_get m' t) = map_option tr_status (hm_get m t)"
  using assms(1)
proof (induction nfs arbitrary: m)
  case (Cons nf nfs)
  then obtain m1 where "f nf m = Some m1" "for_each_nullifier f nfs m1 = Some m'" by (auto split: option.splits)
  with Cons.IH assms(2) show ?case by metis
qed simp

lemma update_note_spend_statuses_statuses:
  assumes "update_note_spend_statuses txid sp m = Some m'"
  shows "map_option tr_status (hm_get m' t) = map_option tr_status (hm_get m t)"
proof (cases "hm_get m txid")
  case (Some tx)
  then obtain m1 where "for_each_nullifier (\<lambda>nf. update_orchard_note_spend_status nf sp) (tr_spent_orchard_nullifiers tx) m = Some m1"
    "for_each_nullifier (\<lambda>nf. update_sapling_note_spend_status nf sp) (tr_spent_sapling_nullifiers tx) m1 = Some m'"
    using assms by (auto simp: update_note_spend_statuses_def split: option.splits)
  then have "map_option tr_status (hm_get m1 t) = map_option tr_status (hm_get m t)"
    "map_option tr_status (hm_get m' t) = map_option tr_status (hm_get m1 t)"
    by (auto elim!: for_each_nullifier_statuses
        simp: update_orchard_note_spend_status_def update_sapling_note_spend_status_def update_note_spend_status_statuses)
  then show ?thesis by simp
qed (use assms in \<open>simp add: update_note_spend_statuses_def\<close>)

section \<open>Broadcasts\<close>

definition status_of :: "records \<Rightarrow> txid \<Rightarrow> confirmation_status option" where
  "status_of m t = map_option tr_status (hm_get m t)"

definition calculated_in :: "records \<Rightarrow> txid \<Rightarrow> bool" where
  "calculated_in m t \<longleftrightarrow> (case status_of m t of Some st \<Rightarrow> matches_calculated st | None \<Rightarrow> False)"

text \<open>The cached transactions that are still to be sent, and the state of the server after sending some.\<close>

definition to_send :: "records \<Rightarrow> (txid \<times> byte list) list \<Rightarrow> (txid \<times> byte list) list" where
  "to_send m cache = filter (\<lambda>(t, _). calculated_in m t) cache"

definition send_raws :: "'s server \<Rightarrow> (txid \<times> byte list) list \<Rightarrow> 's \<Rightarrow> 's" where
  "send_raws S txs s = fold (\<lambda>(_, raw) s. fst (sv_send_transaction S raw s)) txs s"

fun accepts_all :: "'s server \<Rightarrow> (txid \<times> byte list) list \<Rightarrow> 's \<Rightarrow> bool" where
  "accepts_all S [] s \<longleftrightarrow> True"
| "accepts_all S ((t, raw) # txs) s \<longleftrightarrow>
     \<not> isl (snd (sv_send_transaction S raw s)) \<and> accepts_all S txs (fst (sv_send_transaction S raw s))"

definition mark_transmitted :: "block_height \<Rightarrow> txid set \<Rightarrow> (txid \<Rightarrow> confirmation_status option) \<Rightarrow> txid \<Rightarrow> confirmation_status option" where
  "mark_transmitted h ts st t = (if t \<in> ts then Some (Transmitted h) else st t)"

lemma calculated_in_get: "hm_get m t = Some r \<Longrightarrow> calculated_in m t \<longleftrightarrow> matches_calculated (tr_status r)"
  "hm_get m t = None \<Longrightarrow> \<not> calculated_in m t"
  by (simp_all add: calculated_in_def status_of_def)

lemma to_send_Cons: "to_send m ((t, raw) # cache) = (if calculated_in m t then (t, raw) # to_send m cache else to_send m cache)"
  by (simp add: to_send_def)

lemma to_send_cong: "(\<And>t. t \<in> fst ` set cache \<Longrightarrow> status_of m t = status_of m' t) \<Longrightarrow> to_send m cache = to_send m' cache"
  unfolding to_send_def by (rule filter_cong) (force simp: calculated_in_def)+

text \<open>What a broadcast has done: all went well, or the server refused one of the transactions.\<close>

definition broadcast_done ::
  "'s server \<Rightarrow> block_height \<Rightarrow> (txid \<times> byte list) list \<Rightarrow> records \<Rightarrow> 's \<Rightarrow> records \<times> 's \<times> (broadcast_error + txid list) \<Rightarrow> bool" where
  "broadcast_done S h pending m s = (\<lambda>(m', s', res). case res of
       Inr _ \<Rightarrow> accepts_all S pending s \<and> s' = send_raws S pending s \<and> status_of m' = mark_transmitted h (fst ` set pending) (status_of m)
     | Inl e \<Rightarrow> \<exists>sent t raw rest err. pending = sent @ (t, raw) # rest \<and> e = BC_Broadcast err \<and> accepts_all S sent s \<and>
         s' = send_raws S (sent @ [(t, raw)]) s \<and> snd (sv_send_transaction S raw (send_raws S sent s)) = Inl err \<and>
         status_of m' = mark_transmitted h (fst ` set sent) (status_of m))"

lemma broadcast_done_Cons:
  assumes "broadcast_done S h pending m1 (fst (sv_send_transaction S raw s)) out"
    and "status_of m1 = mark_transmitted h {t} (status_of m)" "\<not> isl (snd (sv_send_transaction S raw s))"
  shows "broadcast_done S h ((t, raw) # pending) m s out"
proof -
  obtain m' s' res where out: "out = (m', s', res)" by (cases out)
  have mt: "mark_transmitted h A (mark_transmitted h {t} st) = mark_transmitted h (insert t A) st" for A st
    by (auto simp: mark_transmitted_def)
  show ?thesis
  proof (cases res)
    case (Inr ids)
    with assms show ?thesis by (simp add: broadcast_done_def out send_raws_def mt)
  next
    case (Inl e)
    then obtain sent u raw' rest err where "pending = sent @ (u, raw') # rest" "e = BC_Broadcast err"
      "accepts_all S sent (fst (sv_send_transaction S raw s))"
      "s' = send_raws S (sent @ [(u, raw')]) (fst (sv_send_transaction S raw s))"
      "snd (sv_send_transaction S raw' (send_raws S sent (fst (sv_send_transaction S raw s)))) = Inl err"
      "status_of m' = mark_transmitted h (fst ` set sent) (status_of m1)"
      using assms(1) by (auto simp: broadcast_done_def out)
    then show ?thesis using Inl assms(2,3) unfolding broadcast_done_def out
      by (intro prod.case [THEN iffD2], simp, intro exI [of _ "(t, raw) # sent"]) (auto simp: send_raws_def mt)
  qed
qed

lemma broadcast_loop_done:
  assumes "records_wf m" "distinct (map fst cache)"
  shows "\<exists>out. broadcast_loop S hx acc h cache m s txids = Some out \<and> records_wf (fst out) \<and>
    broadcast_done S h (to_send m cache) m s out"
  using assms
proof (induction cache arbitrary: m s txids)
  case Nil
  then show ?case by (auto simp: to_send_def broadcast_done_def send_raws_def mark_transmitted_def fun_eq_iff)
next
  case (Cons c cache)
  obtain t raw where c: "c = (t, raw)" by (cases c)
  show ?case
  proof (cases "calculated_in m t")
    case False
    then have "broadcast_loop S hx acc h (c # cache) m s txids = broadcast_loop S hx acc h cache m s txids"
      by (auto simp: c calculated_in_get split: option.splits)
    with False Cons show ?thesis by (simp add: c to_send_Cons)
  next
    case True
    then obtain r where r: "hm_get m t = Some r" "matches_calculated (tr_status r)"
      by (auto simp: calculated_in_def status_of_def split: option.splits)
    have rt: "tr_txid r = t" using Cons.prems(1) r(1) by (simp add: records_wf_iff)
    obtain s1 ans where a: "sv_send_transaction S raw s = (s1, ans)" by (cases "sv_send_transaction S raw s")
    show ?thesis
    proof (cases ans)
      case (Inl err)
      have "broadcast_done S h ((t, raw) # to_send m cache) m s (m, s1, Inl (BC_Broadcast err))"
        unfolding broadcast_done_def prod.case sum.case
        by (rule exI [of _ "[]"]) (simp add: send_raws_def mark_transmitted_def fun_eq_iff a Inl)
      with a r True Inl show ?thesis using Cons.prems(1) by (simp add: c to_send_Cons)
    next
      case (Inr answer)
      let ?m = "hm_modify t (\<lambda>r. r\<lparr> tr_status := Transmitted h \<rparr>) m"
      have "records_wf ?m" using Cons.prems(1) by (simp add: records_wf_modify)
      then obtain m1 where m1: "update_note_spend_statuses t (Some (t, Transmitted h)) ?m = Some m1" "records_wf m1"
        using update_note_spend_statuses_total by blast
      have st: "status_of m1 = mark_transmitted h {t} (status_of m)"
        using update_note_spend_statuses_statuses [OF m1(1)] r(1)
        by (auto simp: status_of_def mark_transmitted_def hm_simps fun_eq_iff)
      have "to_send m1 cache = to_send m cache"
        using Cons.prems(2) by (intro to_send_cong) (auto simp: st mark_transmitted_def c)
      moreover obtain out where out: "broadcast_loop S hx acc h cache m1 s1
          (txids @ [compare_txid_to_string hx t answer acc]) = Some out" "records_wf (fst out)"
        "broadcast_done S h (to_send m1 cache) m1 s1 out"
        using Cons.IH [OF m1(2), of s1 "txids @ [compare_txid_to_string hx t answer acc]"] Cons.prems(2) by auto
      ultimately show ?thesis
        using broadcast_done_Cons [of S h "to_send m cache" m1 raw s out t m] st True r rt a Inr m1(1)
        by (auto simp: c to_send_Cons)
    qed
  qed
qed

text \<open>The pending transactions of a wallet.\<close>

definition cache_of :: "('t, 'uri) light_wallet \<Rightarrow> (txid \<times> byte list) list" where
  "cache_of w = (case tm_spending_data (lw_tx_map w) of None \<Rightarrow> [] | Some sd \<Rightarrow> sd_cached_raw_transactions sd)"

section \<open>A refused transaction\<close>

text \<open>\<open>create_proposed_transactions\<close> writes by \<open>store_transactions_to_be_sent\<close> and \<open>reserve_next_n_ephemeral_addresses\<close> only:
  it keeps the records and adds to the cache.\<close>

definition creation_appends :: "('addr, 'pay, 'req, 'ua, 'x, 't, 'e) send_lib \<Rightarrow> bool" where
  "creation_appends E \<longleftrightarrow> (\<forall>chain proposal tm tm' res sd.
     pl_create_proposed_transactions (se_proposals E) chain proposal tm = (tm', res) \<and> tm_spending_data tm = Some sd \<longrightarrow>
     tm_records tm' = tm_records tm \<and> (\<exists>sd' new. tm_spending_data tm' = Some sd' \<and>
       sd_cached_raw_transactions sd' = sd_cached_raw_transactions sd @ new))"

text \<open>A server that, from states in \<open>Q\<close>, refuses a transaction for ever.\<close>

definition refuses :: "'s server \<Rightarrow> byte list \<Rightarrow> ('s \<Rightarrow> bool) \<Rightarrow> bool" where
  "refuses S raw Q \<longleftrightarrow> (\<forall>s. Q s \<longrightarrow> Q (fst (sv_latest_block S s)) \<and> Q (fst (sv_send_transaction S raw s)) \<and>
     isl (snd (sv_send_transaction S raw s)))"

definition blocked :: "txid \<Rightarrow> byte list \<Rightarrow> ('t, 'uri) light_wallet \<Rightarrow> bool" where
  "blocked t raw w \<longleftrightarrow> (\<exists>rest. cache_of w = (t, raw) # rest) \<and> calculated_in (tm_records (lw_tx_map w)) t"

lemma blocked_spending_data:
  "blocked t raw w \<Longrightarrow> \<exists>sd. tm_spending_data (lw_tx_map w) = Some sd"
  by (auto simp: blocked_def cache_of_def split: option.splits)

lemma blocked_create_helper:
  assumes "blocked t raw w" "creation_appends E" "create_transaction_helper E proposal w = (w', res)"
  shows "blocked t raw w'"
proof (cases "lw_key_store w = KS_Spend")
  case True
  obtain sd where sd: "tm_spending_data (lw_tx_map w) = Some sd" using blocked_spending_data [OF assms(1)] by blast
  obtain tm' res' where c: "pl_create_proposed_transactions (se_proposals E) (c_chain (lw_config w)) proposal (lw_tx_map w) = (tm', res')"
    by (cases "pl_create_proposed_transactions (se_proposals E) (c_chain (lw_config w)) proposal (lw_tx_map w)")
  then obtain sd' new where "tm_records tm' = tm_records (lw_tx_map w)" "tm_spending_data tm' = Some sd'"
    "sd_cached_raw_transactions sd' = sd_cached_raw_transactions sd @ new"
    using assms(2) sd unfolding creation_appends_def by blast
  with True c sd assms(1,3) show ?thesis by (auto simp: create_transaction_helper_def blocked_def cache_of_def)
qed (use assms in \<open>simp add: create_transaction_helper_def\<close>)

lemma blocked_reset: "blocked t raw (reset_send_progress w) \<longleftrightarrow> blocked t raw w"
  by (simp add: blocked_def cache_of_def reset_send_progress_def)

lemma blocked_create:
  assumes "blocked t raw w" "creation_appends E" "create_transaction E proposal w = (w', res)"
  shows "blocked t raw w'"
proof -
  have b: "blocked t raw (reset_send_progress w)" using assms(1) by (simp add: blocked_reset)
  show ?thesis
    using assms(3) assms(1) b blocked_create_helper [OF b assms(2)]
    by (auto simp: create_transaction_def Let_def split: if_splits list.splits)
qed

lemma calculated_in_moves:
  assumes "moves (Calculated h) m m'" "calculated_in m t"
  shows "calculated_in m' t"
  using assms by (fastforce simp: moves_def calculated_in_def status_of_def split: option.splits)

lemma record_transactions_keeps:
  assumes "record_transactions C (Calculated h) now price txs tm txids = Some (tm', txids')"
  shows "tm_spending_data tm' = tm_spending_data tm \<and> (calculated_in (tm_records tm) t \<longrightarrow> calculated_in (tm_records tm') t)"
  using assms
proof (induction txs arbitrary: tm txids)
  case (Cons tx txs)
  obtain tm1 m where s: "scan_full_tx C tx (Calculated h) (Some (ucast now)) (get_price now price) tm = Some tm1"
    and u: "update_note_spend_statuses (sx_txid tx) (Some (sx_txid tx, Calculated h)) (tm_records tm1) = Some m"
    and r: "record_transactions C (Calculated h) now price txs (tm1\<lparr> tm_records := m \<rparr>) (txids @ [sx_txid tx]) = Some (tm', txids')"
    using Cons.prems by (auto split: Option.bind_splits)
  have "calculated_in m t = calculated_in (tm_records tm1) t"
    using update_note_spend_statuses_statuses [OF u, of t] by (simp add: calculated_in_def status_of_def)
  then show ?case
    using Cons.IH [OF r] scan_spending_data [OF s] calculated_in_moves [OF moves_scan [OF s]] by simp
qed simp

lemma blocked_record:
  assumes "blocked t raw w" "record_created_transactions C S read_tx now w s = Some (w', s', res)"
  shows "blocked t raw w' \<and> s' = fst (sv_latest_block S s)"
proof -
  obtain s1 hgt where l: "get_latest_block S s = (s1, hgt)" "s1 = fst (sv_latest_block S s)"
    by (cases "sv_latest_block S s") (auto simp: get_latest_block_def)
  have "blocked t raw (w\<lparr> lw_tx_map := tm \<rparr>)"
    if "record_transactions C (Calculated h) now price txs (lw_tx_map w) [] = Some (tm, ids)" for h price txs tm ids
    using record_transactions_keeps [OF that, of t] assms(1) by (auto simp: blocked_def cache_of_def)
  then show ?thesis using assms l
    by (auto simp: record_created_transactions_def Let_def split: sum.splits option.splits)
qed

lemma blocked_broadcast:
  assumes "blocked t raw w" "refuses S raw Q" "Q s"
    and "broadcast_created_transactions ops hx S w s = Some (w', s', res)"
  shows "blocked t raw w' \<and> Q s' \<and> isl res"
proof -
  obtain s1 hgt where l: "sv_latest_block S s = (s1, hgt)" by (cases "sv_latest_block S s")
  then have q: "Q s1" using assms(2,3) unfolding refuses_def by (metis fst_conv)
  then obtain s2 err where a: "sv_send_transaction S raw s1 = (s2, Inl err)" "Q s2"
    using assms(2) unfolding refuses_def by (metis isl_def prod.collapse)
  obtain sd where sd: "tm_spending_data (lw_tx_map w) = Some sd" using blocked_spending_data [OF assms(1)] by blast
  obtain rest r where c: "sd_cached_raw_transactions sd = (t, raw) # rest"
    and r: "hm_get (tm_records (lw_tx_map w)) t = Some r" "matches_calculated (tr_status r)"
    using assms(1) sd by (auto simp: blocked_def cache_of_def calculated_in_def status_of_def split: option.splits)
  show ?thesis
  proof (cases hgt)
    case (Inl e)
    with assms(1,4) l q show ?thesis by (auto simp: broadcast_created_transactions_def get_latest_block_def)
  next
    case (Inr h)
    with assms(1,4) l a sd c r have "w' = w\<lparr> lw_tx_map := (lw_tx_map w)\<lparr> tm_records := tm_records (lw_tx_map w) \<rparr> \<rparr>"
      "s' = s2" "res = Inl (BC_Broadcast err)"
      by (simp_all add: broadcast_created_transactions_def get_latest_block_def)
    with assms(1) a show ?thesis by (simp add: blocked_def cache_of_def)
  qed
qed

lemma blocked_complete:
  assumes "blocked t raw w" "creation_appends E" "refuses S raw Q" "Q s"
    and "complete_and_broadcast E C S read_tx now proposal w s = Some (w', s', res)"
  shows "blocked t raw w' \<and> Q s' \<and> isl res"
proof -
  obtain w1 res1 where c: "create_transaction E proposal w = (w1, res1)" by (cases "create_transaction E proposal w")
  have b1: "blocked t raw w1" by (rule blocked_create [OF assms(1,2) c])
  show ?thesis
  proof (cases res1)
    case (Inl e)
    with c assms(4,5) b1 show ?thesis by (auto simp: complete_and_broadcast_def)
  next
    case (Inr u)
    obtain w2 s2 res2 where r: "record_created_transactions C S read_tx now w1 s = Some (w2, s2, res2)"
      using assms(5) c Inr by (auto simp: complete_and_broadcast_def split: Option.bind_splits)
    have b2: "blocked t raw w2" "Q s2"
      using blocked_record [OF b1 r] assms(3,4) by (auto simp: refuses_def)
    show ?thesis
    proof (cases res2)
      case (Inl e)
      with c Inr r b2 assms(5) show ?thesis by (auto simp: complete_and_broadcast_def)
    next
      case (Inr ids)
      obtain w3 s3 res3 where b: "broadcast_created_transactions (sc_tree_ops C) (al_hex_decode (se_addresses E)) S w2 s2 = Some (w3, s3, res3)"
        using assms(5) c r \<open>res1 = Inr u\<close> Inr by (auto simp: complete_and_broadcast_def split: Option.bind_splits)
      have b3: "blocked t raw w3" "Q s3" "isl res3" using blocked_broadcast [OF b2(1) assms(3) b2(2) b] by blast+
      then obtain e where "res3 = Inl e" by (cases res3) auto
      moreover have "blocked t raw (set_send_result x w3)" for x
        using b3(1) by (simp add: blocked_def cache_of_def set_send_result_def)
      ultimately show ?thesis
        using assms(5) c r \<open>res1 = Inr u\<close> Inr b b3(2) by (auto simp: complete_and_broadcast_def Let_def)
    qed
  qed
qed

text \<open>Any number of sends, one after the other, at the times \<open>now\<close>.\<close>

fun complete_all where
  "complete_all E C S read_tx [] w s = Some (w, s, [])"
| "complete_all E C S read_tx ((now, proposal) # sends) w s = do {
     (w, s, res) \<leftarrow> complete_and_broadcast E C S read_tx now proposal w s;
     (w, s, results) \<leftarrow> complete_all E C S read_tx sends w s;
     Some (w, s, res # results) }"

lemma blocked_complete_all:
  assumes "blocked t raw w" "creation_appends E" "refuses S raw Q" "Q s"
    and "complete_all E C S read_tx sends w s = Some (w', s', results)"
  shows "blocked t raw w' \<and> list_all isl results"
  using assms(1,4,5)
proof (induction sends arbitrary: w s results)
  case (Cons x sends)
  obtain now proposal where x: "x = (now, proposal)" by (cases x)
  obtain w1 s1 res rs where c: "complete_and_broadcast E C S read_tx now proposal w s = Some (w1, s1, res)"
    "complete_all E C S read_tx sends w1 s1 = Some (w', s', rs)" "results = res # rs"
    using Cons.prems(3) by (auto simp: x split: Option.bind_splits)
  note b = blocked_complete [OF Cons.prems(1) assms(2,3) Cons.prems(2) c(1)]
  from Cons.IH [of w1 s1 rs] b c show ?case by auto
qed simp

section \<open>An example\<close>

text \<open>A wallet with two calculated transactions and a server that accepts a transaction unless it is \<open>[20]\<close>.\<close>

definition demo_server :: "byte list list server" where
  "demo_server = \<lparr> sv_latest_block = (\<lambda>s. (s, Inr 7)),
     sv_send_transaction = (\<lambda>raw s. if raw = [20] then (s, Inl ''refused'') else (s @ [raw], Inr ''ok'')) \<rparr>"

definition cached_wallet :: "(txid \<times> byte list) list \<Rightarrow> records \<Rightarrow> (unit, unit) light_wallet" where
  "cached_wallet cache m = example_wallet\<lparr> lw_tx_map := (new_treeless [])\<lparr> tm_records := m,
     tm_spending_data := Some \<lparr> sd_witness_trees = default_trees demo_tree_ops, sd_cached_raw_transactions = cache, sd_rejection_ivk = [] \<rparr> \<rparr> \<rparr>"

definition two_calculated :: records where
  "two_calculated = [([1], new_record (Calculated 5) 9 [1]), ([2], new_record (Calculated 5) 9 [2])]"

lemma cached_wallet_simps [simp]:
  "tm_records (lw_tx_map (cached_wallet cache m)) = m" "cache_of (cached_wallet cache m) = cache"
  "tm_spending_data (lw_tx_map (cached_wallet cache m)) =
     Some \<lparr> sd_witness_trees = default_trees demo_tree_ops, sd_cached_raw_transactions = cache, sd_rejection_ivk = [] \<rparr>"
  by (simp_all add: cached_wallet_def cache_of_def)

text \<open>A backend without funds for a fee of 10000: it proposes only a request of at most 20000.\<close>

definition demo_proposal :: "(receiver list, unit) proposal" where
  "demo_proposal = [\<lparr> ps_payments = [], ps_request_total = Inr 20000, ps_fee_required = 10000, ps_proposed_change = [], ps_inputs = () \<rparr>]"

definition demo_send_lib ::
  "(string, string \<times> u64 \<times> byte list option, (string \<times> u64 \<times> byte list option) list, receiver list, unit, unit, unit) send_lib" where
  "demo_send_lib = \<lparr> se_addresses = plain_address_lib, se_zip321 = plain_zip321,
     se_proposals = \<lparr> pl_payments = (\<lambda>_. []),
       pl_propose_transfer = (\<lambda>_ _ req _ _. let total = sum_list (map (fst \<circ> snd) req)
          in if total \<le> 20000 then Inr demo_proposal else Inl (InsufficientFunds 30000 (total + 10000))),
       pl_propose_shielding = (\<lambda>_ _ _ _ _ _. Inl (OtherBackendError ())),
       pl_create_proposed_transactions = (\<lambda>_ _ tm. map_prod id (map_sum (\<lambda>_. OtherBackendError ()) id)
          (store_transactions_to_be_sent Some (\<lambda>x. x @ [9]) [[30]] tm)) \<rparr>,
     se_memo_format = compact_format, se_marginal_fee = 5000, se_transparent_addresses = [], se_debug = id,
     se_display = \<lparr> dl_txid = (\<lambda>_. ''id''), dl_datetime = (\<lambda>_. None), dl_f64 = (\<lambda>_. []), dl_hex = (\<lambda>_. []) \<rparr> \<rparr>"

lemma demo_creation_appends: "creation_appends demo_send_lib"
  by (auto simp: creation_appends_def demo_send_lib_def)

lemma demo_refuses: "refuses demo_server [20] (\<lambda>_. True)"
  by (simp add: refuses_def demo_server_def)

section \<open>Properties\<close>

text \<open>C17. A broadcast sends exactly the cached transactions whose record is calculated, in the order of the cache. When the server
  accepts all of them they become transmitted, nothing else changes its status, and the cache is emptied. When it
  refuses one, those before it are transmitted, the refused one and all others keep their status, and the cache is kept.\<close>

theorem broadcast_marks_what_was_sent:
  assumes "tm_spending_data (lw_tx_map w) = Some sd" "records_wf (tm_records (lw_tx_map w))" "distinct (map fst (cache_of w))"
    and "get_latest_block S s = (s1, Inr h)"
  shows "\<exists>w' s' res. broadcast_created_transactions ops hx S w s = Some (w', s', res) \<and>
    broadcast_done S (bh_add ops h 1) (to_send (tm_records (lw_tx_map w)) (cache_of w)) (tm_records (lw_tx_map w)) s1
      (tm_records (lw_tx_map w'), s', res) \<and>
    cache_of w' = (if isl res then cache_of w else [])"
proof -
  have c: "cache_of w = sd_cached_raw_transactions sd" using assms(1) by (simp add: cache_of_def)
  obtain m' s' res where l: "broadcast_loop S hx (c_accept_server_txids (lw_config w)) (bh_add ops h 1)
      (sd_cached_raw_transactions sd) (tm_records (lw_tx_map w)) s1 [] = Some (m', s', res)"
    "broadcast_done S (bh_add ops h 1) (to_send (tm_records (lw_tx_map w)) (sd_cached_raw_transactions sd))
       (tm_records (lw_tx_map w)) s1 (m', s', res)"
    using broadcast_loop_done [OF assms(2), of "sd_cached_raw_transactions sd" S hx "c_accept_server_txids (lw_config w)"
        "bh_add ops h 1" s1 "[]"] assms(3) c by auto
  then show ?thesis using assms(1,4)
    by (cases res) (auto simp: broadcast_created_transactions_def c cache_of_def Let_def)
qed

theorem broadcast_marks_what_was_sent_witness:
  "\<exists>w'. broadcast_created_transactions demo_tree_ops (\<lambda>_. Inl []) demo_server
       (cached_wallet [([1], [10]), ([3], [15]), ([2], [20])] two_calculated) [] =
     Some (w', [[10]], Inl (BC_Broadcast ''refused'')) \<and>
     status_of (tm_records (lw_tx_map w')) [1] = Some (Transmitted 8) \<and>
     status_of (tm_records (lw_tx_map w')) [2] = Some (Calculated 5) \<and>
     cache_of w' = [([1], [10]), ([3], [15]), ([2], [20])]"
proof -
  let ?w = "cached_wallet [([1], [10]), ([3], [15]), ([2], [20])] two_calculated"
  have ts: "to_send two_calculated [([1], [10]), ([3], [15]), ([2], [20])] = [([1], [10]), ([2], [20])]"
    by (simp add: to_send_def calculated_in_def status_of_def two_calculated_def new_record_def)
  have "records_wf two_calculated" by (simp add: records_wf_def hm_wf_def two_calculated_def new_record_def)
  moreover have "get_latest_block demo_server [] = ([], Inr 7)" by (simp add: get_latest_block_def demo_server_def)
  ultimately obtain w' s' res where b:
    "broadcast_created_transactions demo_tree_ops (\<lambda>_. Inl []) demo_server ?w [] = Some (w', s', res)"
    "broadcast_done demo_server 8 [([1], [10]), ([2], [20])] two_calculated [] (tm_records (lw_tx_map w'), s', res)"
    "cache_of w' = (if isl res then cache_of ?w else [])"
    using broadcast_marks_what_was_sent [of ?w _ demo_server "[]" "[]" 7 demo_tree_ops "\<lambda>_. Inl []"]
    by (auto simp: ts demo_tree_ops_def)
  have "\<not> accepts_all demo_server [([1], [10]), ([2], [20])] []" by (simp add: demo_server_def)
  with b(2) obtain e where e: "res = Inl e" by (cases res) (auto simp: broadcast_done_def)
  with b(2) obtain sent t raw rest err where d: "[([1], [10]), ([2], [20])] = sent @ (t, raw) # rest" "e = BC_Broadcast err"
    "s' = send_raws demo_server (sent @ [(t, raw)]) []" "snd (sv_send_transaction demo_server raw (send_raws demo_server sent [])) = Inl err"
    "status_of (tm_records (lw_tx_map w')) = mark_transmitted 8 (fst ` set sent) (status_of two_calculated)"
    by (auto simp: broadcast_done_def)
  have raw: "raw = [20]" "err = ''refused''" using d(4) by (simp_all add: demo_server_def split: if_splits)
  with d(1) have "sent = [([1], [10])]" by (auto simp: Cons_eq_append_conv)
  with d raw have r: "s' = [[10]]" "res = Inl (BC_Broadcast ''refused'')"
    "status_of (tm_records (lw_tx_map w')) = mark_transmitted 8 {[1]} (status_of two_calculated)"
    using e by (simp_all add: send_raws_def demo_server_def)
  have "status_of two_calculated [2] = Some (Calculated 5)" by (simp add: status_of_def two_calculated_def new_record_def)
  with b(1,3) r show ?thesis by (simp add: mark_transmitted_def)
qed

text \<open>C18. A refused transaction blocks all later sends: while it is the first of the cache and the server goes on
  refusing it, every send ends with an error, whatever it proposes and however many there are.\<close>

theorem refused_transaction_blocks_sends:
  assumes "blocked t raw w" "creation_appends E" "refuses S raw Q" "Q s"
    and "complete_all E C S read_tx sends w s = Some (w', s', results)"
  shows "list_all isl results \<and> calculated_in (tm_records (lw_tx_map w')) t"
  using blocked_complete_all [OF assms] by (simp add: blocked_def)

section \<open>Sends do not panic\<close>

lemma record_transactions_total:
  assumes "scan_apis_ok C" "list_all (\<lambda>tx. no_script_hashes (sc_taddr_lib C) (sx_transparent_bundle tx)) txs"
    and "records_wf (tm_records tm)"
  shows "\<exists>tm' ids. record_transactions C st now price txs tm txids = Some (tm', ids) \<and> records_wf (tm_records tm')"
  using assms(2,3)
proof (induction txs arbitrary: tm txids)
  case (Cons tx txs)
  obtain tm1 where s: "scan_full_tx C tx st (Some (ucast now)) (get_price now price) tm = Some tm1" "records_wf (tm_records tm1)"
    using scan_full_tx_total [OF assms(1)] Cons.prems by (auto simp: list_all_iff) blast
  obtain m where u: "update_note_spend_statuses (sx_txid tx) (Some (sx_txid tx, st)) (tm_records tm1) = Some m" "records_wf m"
    using update_note_spend_statuses_total [OF s(2)] by blast
  with Cons.IH [of "tm1\<lparr> tm_records := m \<rparr>" "txids @ [sx_txid tx]"] Cons.prems s show ?case by simp
qed simp

lemma broadcast_loop_total:
  "records_wf m \<Longrightarrow> \<exists>m' s' res. broadcast_loop S hx acc h cache m s txids = Some (m', s', res) \<and> records_wf m'"
proof (induction cache arbitrary: m s txids)
  case (Cons c cache)
  obtain t raw where c: "c = (t, raw)" by (cases c)
  have u: "\<exists>m'. update_note_spend_statuses x sp (hm_modify t (\<lambda>r. r\<lparr> tr_status := Transmitted h \<rparr>) m) = Some m' \<and> records_wf m'"
    for x sp
    using Cons.prems by (intro update_note_spend_statuses_total records_wf_modify) simp_all
  obtain s1 ans where a: "sv_send_transaction S raw s = (s1, ans)" by (cases "sv_send_transaction S raw s")
  show ?case
  proof (cases "hm_get m t")
    case None
    with Cons show ?thesis by (simp add: c)
  next
    case (Some r)
    show ?thesis
    proof (cases "matches_calculated (tr_status r)")
      case True
      obtain m1 where m1: "update_note_spend_statuses (tr_txid r) (Some (tr_txid r, Transmitted h))
          (hm_modify t (\<lambda>r. r\<lparr> tr_status := Transmitted h \<rparr>) m) = Some m1" "records_wf m1"
        using u by blast
      with True Some a Cons show ?thesis by (cases ans) (simp_all add: c)
    qed (use Some Cons in \<open>simp add: c\<close>)
  qed
qed simp

definition wallet_wf :: "('t, 'uri) light_wallet \<Rightarrow> bool" where
  "wallet_wf w \<longleftrightarrow> records_wf (tm_records (lw_tx_map w))"

lemma create_transaction_wf:
  assumes "creation_appends E" "wallet_wf w" "create_transaction E proposal w = (w', res)"
  shows "wallet_wf w'"
proof -
  let ?w = "reset_send_progress w"
  have r: "wallet_wf ?w" using assms(2) by (simp add: wallet_wf_def reset_send_progress_def)
  have h: "wallet_wf w''" if "create_transaction_helper E proposal ?w = (w'', res')" "witness_trees_of (lw_tx_map w) \<noteq> None" for w'' res'
  proof -
    obtain sd where "tm_spending_data (lw_tx_map w) = Some sd"
      using \<open>witness_trees_of (lw_tx_map w) \<noteq> None\<close> by (auto simp: witness_trees_of_def)
    moreover obtain tm' r' where
      "pl_create_proposed_transactions (se_proposals E) (c_chain (lw_config ?w)) proposal (lw_tx_map ?w) = (tm', r')"
      by (cases "pl_create_proposed_transactions (se_proposals E) (c_chain (lw_config ?w)) proposal (lw_tx_map ?w)")
    ultimately show ?thesis
      using assms(1) r that(1) unfolding creation_appends_def
      by (fastforce simp: create_transaction_helper_def wallet_wf_def reset_send_progress_def split: if_splits)
  qed
  show ?thesis
    using assms(2,3) r h by (auto simp: create_transaction_def Let_def split: if_splits list.splits)
qed

lemma record_created_total:
  assumes "scan_apis_ok C" "wallet_wf w"
    and "\<forall>c h raw tx. read_tx c h raw = Inr tx \<longrightarrow> no_script_hashes (sc_taddr_lib C) (sx_transparent_bundle tx)"
  shows "\<exists>w' s' res. record_created_transactions C S read_tx now w s = Some (w', s', res) \<and> wallet_wf w'"
proof -
  obtain s1 hgt where l: "get_latest_block S s = (s1, hgt)" by (cases "get_latest_block S s")
  show ?thesis
  proof (cases "\<exists>h sd txs. hgt = Inr h \<and> tm_spending_data (lw_tx_map w) = Some sd \<and>
      collect_ok (map (\<lambda>(_, raw). read_tx (c_chain (lw_config w)) (bh_add (sc_tree_ops C) h 1) raw)
        (sd_cached_raw_transactions sd)) = Inr txs")
    case True
    then obtain h sd txs where t: "hgt = Inr h" "tm_spending_data (lw_tx_map w) = Some sd"
      "collect_ok (map (\<lambda>(_, raw). read_tx (c_chain (lw_config w)) (bh_add (sc_tree_ops C) h 1) raw)
        (sd_cached_raw_transactions sd)) = Inr txs"
      by blast
    have "list_all (\<lambda>tx. no_script_hashes (sc_taddr_lib C) (sx_transparent_bundle tx)) txs"
    proof -
      have "map (\<lambda>(_, raw). read_tx (c_chain (lw_config w)) (bh_add (sc_tree_ops C) h 1) raw) (sd_cached_raw_transactions sd) =
          map Inr txs"
        using t(3) by (simp only: collect_ok_Inr)
      then have "Inr ` set txs \<subseteq> range (\<lambda>raw. read_tx (c_chain (lw_config w)) (bh_add (sc_tree_ops C) h 1) raw)"
        by (metis (mono_tags, lifting) case_prod_unfold image_subsetI list.set_map rangeI)
      then show ?thesis using assms(3) unfolding list_all_iff by (metis image_subset_iff rangeE)
    qed
    then obtain tm' ids where "record_transactions C (Calculated (bh_add (sc_tree_ops C) h 1)) now (lw_price w) txs (lw_tx_map w) [] =
        Some (tm', ids)" "records_wf (tm_records tm')"
      using record_transactions_total [OF assms(1)] assms(2) unfolding wallet_wf_def by blast
    then show ?thesis using l t by (simp add: record_created_transactions_def Let_def wallet_wf_def)
  next
    case False
    then show ?thesis using l assms(2)
      by (auto simp: record_created_transactions_def Let_def split: sum.splits option.splits)
  qed
qed

lemma broadcast_created_total:
  assumes "wallet_wf w"
  shows "\<exists>w' s' res. broadcast_created_transactions ops hx S w s = Some (w', s', res) \<and> wallet_wf w'"
proof -
  obtain s1 hgt where l: "get_latest_block S s = (s1, hgt)" by (cases "get_latest_block S s")
  show ?thesis
  proof (cases "\<exists>h sd. hgt = Inr h \<and> tm_spending_data (lw_tx_map w) = Some sd")
    case True
    then obtain h sd where t: "hgt = Inr h" "tm_spending_data (lw_tx_map w) = Some sd" by blast
    obtain m' s' res where "broadcast_loop S hx (c_accept_server_txids (lw_config w)) (bh_add ops h 1)
        (sd_cached_raw_transactions sd) (tm_records (lw_tx_map w)) s1 [] = Some (m', s', res)" "records_wf m'"
      using broadcast_loop_total [of "tm_records (lw_tx_map w)" S hx "c_accept_server_txids (lw_config w)" "bh_add ops h 1"
          "sd_cached_raw_transactions sd" s1 "[]"] assms unfolding wallet_wf_def by blast
    then show ?thesis using l t
      by (cases res) (simp_all add: broadcast_created_transactions_def wallet_wf_def Let_def)
  qed (use l assms in \<open>auto simp: broadcast_created_transactions_def split: sum.splits option.splits\<close>)
qed

lemma complete_total:
  assumes "scan_apis_ok C" "creation_appends E" "wallet_wf w"
    and "\<forall>c h raw tx. read_tx c h raw = Inr tx \<longrightarrow> no_script_hashes (sc_taddr_lib C) (sx_transparent_bundle tx)"
  shows "\<exists>w' s' res. complete_and_broadcast E C S read_tx now proposal w s = Some (w', s', res) \<and> wallet_wf w'"
proof -
  obtain w1 res1 where c: "create_transaction E proposal w = (w1, res1)" by (cases "create_transaction E proposal w")
  have w1: "wallet_wf w1" by (rule create_transaction_wf [OF assms(2,3) c])
  obtain w2 s2 res2 where r: "record_created_transactions C S read_tx now w1 s = Some (w2, s2, res2)" "wallet_wf w2"
    using record_created_total [OF assms(1) w1 assms(4), of S now s] by blast
  obtain w3 s3 res3 where b: "broadcast_created_transactions (sc_tree_ops C) (al_hex_decode (se_addresses E)) S w2 s2 =
      Some (w3, s3, res3)" "wallet_wf w3"
    using broadcast_created_total [OF r(2), of "sc_tree_ops C" "al_hex_decode (se_addresses E)" S s2] by blast
  have "wallet_wf (set_send_result x w3)" for x using b(2) by (simp add: wallet_wf_def set_send_result_def)
  with c w1 r b show ?thesis
    by (cases res1; cases res2) (simp_all add: complete_and_broadcast_def Let_def)
qed

lemma complete_all_total:
  assumes "scan_apis_ok C" "creation_appends E" "wallet_wf w"
    and "\<forall>c h raw tx. read_tx c h raw = Inr tx \<longrightarrow> no_script_hashes (sc_taddr_lib C) (sx_transparent_bundle tx)"
  shows "\<exists>w' s' results. complete_all E C S read_tx sends w s = Some (w', s', results) \<and> wallet_wf w'"
  using assms(3)
proof (induction sends arbitrary: w s)
  case (Cons x sends)
  obtain now proposal where x: "x = (now, proposal)" by (cases x)
  obtain w1 s1 res where c: "complete_and_broadcast E C S read_tx now proposal w s = Some (w1, s1, res)" "wallet_wf w1"
    using complete_total [OF assms(1,2) Cons.prems assms(4), of S now proposal s] by blast
  with Cons.IH [OF c(2), of s1] show ?case by (auto simp: x)
qed simp

definition demo_read_tx :: "chain_type \<Rightarrow> block_height \<Rightarrow> byte list \<Rightarrow> string + (bool, bool) full_tx" where
  "demo_read_tx chain h raw = Inr (demo_full_tx\<lparr> sx_txid := raw \<rparr>)"

lemma demo_read_tx_ok:
  "\<forall>c h raw tx. demo_read_tx c h raw = Inr tx \<longrightarrow> no_script_hashes (sc_taddr_lib demo_scan_context) (sx_transparent_bundle tx)"
  by (auto simp: demo_read_tx_def demo_full_tx_def no_script_hashes_def)

lemma two_calculated_wf: "wallet_wf (cached_wallet cache two_calculated)"
  by (simp add: wallet_wf_def records_wf_def hm_wf_def two_calculated_def new_record_def)

theorem refused_transaction_blocks_sends_witness:
  "\<exists>w' s' results. complete_all demo_send_lib demo_scan_context demo_server demo_read_tx [(9, demo_proposal), (10, demo_proposal)]
     (cached_wallet [([2], [20])] two_calculated) [] = Some (w', s', results) \<and> list_all isl results \<and>
     calculated_in (tm_records (lw_tx_map w')) [2]"
proof -
  let ?w = "cached_wallet [([2], [20])] two_calculated"
  obtain w' s' results where c: "complete_all demo_send_lib demo_scan_context demo_server demo_read_tx
      [(9, demo_proposal), (10, demo_proposal)] ?w [] = Some (w', s', results)"
    using complete_all_total [OF demo_apis_ok demo_creation_appends two_calculated_wf demo_read_tx_ok,
        of demo_server "[(9, demo_proposal), (10, demo_proposal)]" "[([2], [20])]" "[]"] by blast
  have b: "blocked [2] [20] ?w"
    by (simp add: blocked_def calculated_in_def status_of_def two_calculated_def new_record_def)
  show ?thesis using refused_transaction_blocks_sends [OF b demo_creation_appends demo_refuses TrueI c] c by blast
qed



section \<open>Sending all\<close>

definition donation :: "bool \<Rightarrow> nat" where
  "donation zennies_for_zingo = (if zennies_for_zingo then unat ZENNIES_FOR_ZINGO_AMOUNT else 0)"

lemma donation_amount: "amount_laws mx ops \<Longrightarrow> amt_from_u64 ops ZENNIES_FOR_ZINGO_AMOUNT = Inr v \<Longrightarrow> v = ZENNIES_FOR_ZINGO_AMOUNT"
  by (auto simp: amount_laws_def split: if_splits)

lemma all_receivers_total:
  assumes "amount_laws mx (al_amounts (se_addresses E))" "all_receivers E chain a v memo z = Some rs"
  shows "sum_list (map (unat \<circ> rv_amount) rs) = unat v + donation z"
  using assms donation_amount [OF assms(1)]
  by (auto simp: all_receivers_def append_zingo_zenny_receiver_def donation_def Let_def split: if_splits sum.splits)

lemma all_receivers_Some:
  "all_receivers E chain a v memo z = Some rs \<Longrightarrow> \<exists>rs'. all_receivers E chain a v' memo' z = Some rs'"
  by (auto simp: all_receivers_def append_zingo_zenny_receiver_def Let_def split: if_splits sum.splits)

text \<open>C19. The spendable balance is what a send of everything can pay: when the backend refuses to send the whole balance because the
  fee, and the donation if there is one, are missing, then either the balance covers both, and the amount sent plus donation
  plus fee is exactly the confirmed balance, or it does not, and the result is the error that names the shortfall.\<close>

theorem send_all_spends_the_balance:
  assumes "amount_laws mx (al_amounts (se_addresses E))"
    and "confirmed_shielded_balance_excluding_dust (se_marginal_fee E) (\<lambda>v. \<not> isl (amt_from_u64 (al_amounts (se_addresses E)) v)) w = Inr bal"
    and "all_receivers E (c_chain (lw_config w)) address bal None zennies = Some receivers"
    and "transaction_request_from_receivers (se_zip321 E) receivers = Some (Inr request)"
    and "create_send_proposal E request w = Inl (PS_Proposal (InsufficientFunds available required))"
    and "unat required = unat bal + donation zennies + fee"
  shows "if donation zennies + fee \<le> unat bal
    then \<exists>v rs. get_spendable_shielded_balance E address zennies w = Some (Inr v) \<and>
      all_receivers E (c_chain (lw_config w)) address v memo zennies = Some rs \<and>
      sum_list (map (unat \<circ> rv_amount) rs) + fee = unat bal
    else get_spendable_shielded_balance E address zennies w = Some (Inl (PS_Proposal (InsufficientFunds bal (required - bal))))"
proof -
  have sub: "amt_sub (al_amounts (se_addresses E)) a b = (if b \<le> a then Some (a - b) else None)" for a b
    using assms(1) by (simp add: amount_laws_def)
  have le: "bal \<le> required" using assms(6) by (simp add: word_le_nat_alt)
  then have short: "unat (required - bal) = donation zennies + fee" using assms(6) by (simp add: unat_sub)
  define v where "v = bal - (required - bal)"
  have g: "get_spendable_shielded_balance E address zennies w =
      Some (if donation zennies + fee \<le> unat bal then Inr v
            else Inl (PS_Proposal (InsufficientFunds bal (required - bal))))"
    using le by (simp add: get_spendable_shielded_balance_def assms(2-5) shortfall_of_def sub word_le_nat_alt short v_def)
  show ?thesis
  proof (cases "donation zennies + fee \<le> unat bal")
    case True
    obtain rs where rs: "all_receivers E (c_chain (lw_config w)) address v memo zennies = Some rs"
      using all_receivers_Some [OF assms(3)] by blast
    have "required - bal \<le> bal" using True short by (simp add: word_le_nat_alt)
    then have "unat v = unat bal - (donation zennies + fee)" unfolding v_def using unat_sub [of "required - bal" bal] short by (simp only:)
    with all_receivers_total [OF assms(1) rs] rs g True show ?thesis by simp
  qed (use g in simp)
qed

theorem send_all_spends_the_balance_witness:
  "\<exists>v rs. get_spendable_shielded_balance demo_send_lib ''z1'' False example_wallet = Some (Inr v) \<and>
     all_receivers demo_send_lib Mainnet ''z1'' v None False = Some rs \<and>
     sum_list (map (unat \<circ> rv_amount) rs) + 10000 = (30000 :: nat)"
proof -
  let ?A = "al_amounts (se_addresses demo_send_lib)"
  have laws: "amount_laws 2100000000000000 ?A" using example_amount_laws by (simp add: demo_send_lib_def plain_address_lib_def)
  have "confirmed_shielded_balance_excluding_dust 5000 (\<lambda>v. True) example_wallet = Inr 30000" by code_simp
  then have bal: "confirmed_shielded_balance_excluding_dust (se_marginal_fee demo_send_lib) (\<lambda>v. \<not> isl (amt_from_u64 ?A v)) example_wallet = Inr 30000"
    by (auto simp: confirmed_shielded_balance_excluding_dust_def demo_send_lib_def plain_address_lib_def example_amount_ops_def
        split: option.splits)
  let ?r = "[\<lparr> rv_recipient_address = ''z1'', rv_amount = 30000 :: u64, rv_memo = None \<rparr>]"
  have chain: "c_chain (lw_config example_wallet) = Mainnet"
    by (simp add: example_wallet_def create_config_def default_builder_def)
  have req: "transaction_request_from_receivers (se_zip321 demo_send_lib) ?r = Some (Inr [(''z1'', 30000, None)])"
    by (simp add: transaction_request_from_receivers_def payment_from_receiver_def demo_send_lib_def plain_zip321_def)
  have p: "create_send_proposal demo_send_lib [(''z1'', 30000, None)] example_wallet =
      Inl (PS_Proposal (InsufficientFunds 30000 40000))"
    by (simp add: create_send_proposal_def demo_send_lib_def Let_def)
  show ?thesis
    using send_all_spends_the_balance [OF laws bal _ req p, where zennies = False and fee = 10000 and address = "''z1''" and memo = None]
    by (simp add: all_receivers_def chain donation_def Let_def)
qed

section \<open>Refund addresses\<close>

lemma repeat_new_rejection_indexes:
  assumes "\<forall>i. \<exists>a. derive i = Inr (a, i)"
  shows "\<exists>ks. repeat_new_rejection derive n keys = (keys @ ks, Inr ks) \<and>
    map snd ks = map (\<lambda>i. word_of_nat (length keys + i)) [0..<n]"
proof (induction n arbitrary: keys)
  case (Suc n)
  obtain a where a: "derive (word_of_nat (length keys)) = Inr (a, word_of_nat (length keys))" using assms by blast
  obtain ks where "repeat_new_rejection derive n (keys @ [(a, word_of_nat (length keys))]) =
      ((keys @ [(a, word_of_nat (length keys))]) @ ks, Inr ks)"
    "map snd ks = map (\<lambda>i. word_of_nat (length (keys @ [(a, word_of_nat (length keys) :: u32)]) + i)) [0..<n]"
    using Suc by blast
  then show ?case using a
    by (intro exI [of _ "(a, word_of_nat (length keys)) # ks"])
       (simp add: new_rejection_address_def upt_conv_Cons map_Suc_upt [symmetric] comp_def del: upt_Suc map_Suc_upt)
qed simp

text \<open>The refund indexes in the memo are the ones used: a proposal with TEX recipients writes into the memo of its change
  the indexes that the reservation of refund addresses hands out when the proposal is completed from the same state.\<close>

theorem memo_names_reserved_addresses:
  assumes "\<forall>i. \<exists>a. derive i = Inr (a, i)" "tm_spending_data tm = Some sd"
    and "collect_payments payments (word_of_nat (length (tm_rejection_addresses tm))) ([], []) = (uas, indexes)"
  shows "\<exists>tm' ks. reserve_next_n_ephemeral_addresses derive (length (filter (\<lambda>p. p = AK_Tex) payments)) tm = (tm', Inr ks) \<and>
    map snd ks = indexes \<and> tm_rejection_addresses tm' = tm_rejection_addresses tm @ ks"
proof -
  obtain ks where "repeat_new_rejection derive (length (filter (\<lambda>p. p = AK_Tex) payments)) (tm_rejection_addresses tm) =
      (tm_rejection_addresses tm @ ks, Inr ks)"
    "map snd ks = map (\<lambda>i. word_of_nat (length (tm_rejection_addresses tm) + i)) [0..<length (filter (\<lambda>p. p = AK_Tex) payments)]"
    using repeat_new_rejection_indexes [OF assms(1)] by blast
  moreover have "indexes = map (\<lambda>i. word_of_nat (length (tm_rejection_addresses tm)) + word_of_nat i) [0..<tex_count payments]"
    using assms(3) by (simp add: collect_payments_eq)
  ultimately show ?thesis using assms(2)
    by (simp add: reserve_next_n_ephemeral_addresses_def tex_count_def)
qed

theorem memo_names_reserved_addresses_witness:
  "\<exists>tm' ks. reserve_next_n_ephemeral_addresses (\<lambda>i. Inr (''t'', i) :: unit + rejection_key) 1
       (lw_tx_map (cached_wallet [] [])) = (tm', Inr ks) \<and>
     map snd ks = snd (collect_payments [AK_Other, AK_Tex :: receiver list address_kind] 0 ([], []))"
proof -
  let ?tm = "lw_tx_map (cached_wallet [] [])" and ?p = "[AK_Other, AK_Tex :: receiver list address_kind]"
  have "collect_payments ?p (word_of_nat (length (tm_rejection_addresses ?tm))) ([], []) = ([], [0])"
    by (simp add: cached_wallet_def new_treeless_def)
  from memo_names_reserved_addresses [OF _ cached_wallet_simps(3) this, of "\<lambda>i. Inr (''t'', i) :: unit + rejection_key"]
  show ?thesis by auto
qed

end
