(* ===== verification/Commands_Laws.thy ===== *)
theory Commands_Laws
  imports Commands Sending_Laws
begin

text \<open>
  Laws of the commands: options are read back as they were set, and a confirmation completes a proposal that was shown.
\<close>

section \<open>Options\<close>

lemma split_on_free: "c \<notin> set s \<Longrightarrow> split_on c s = [s]"
  by (induction s) auto

lemma split_on_append: "c \<notin> set s \<Longrightarrow> split_on c (s @ c # t) = s # split_on c t"
  by (induction s) auto

lemma dec_no_equals: "CHR ''='' \<notin> set (dec n)"
  using dec_digits [of n] by (auto simp: list_all_iff digit_value_def split: if_splits)

text \<open>The values an option can have.\<close>

definition option_text :: "memo_download_option + u32 \<Rightarrow> string \<times> string" where
  "option_text v = (case v of
     Inl memos \<Rightarrow> (''download_memos'', memo_option_name memos)
   | Inr limit \<Rightarrow> (''transaction_filter_threshold'', u32_to_string limit))"

lemma memo_option_name_free: "CHR ''='' \<notin> set (memo_option_name m)"
  by (cases m) simp_all

text \<open>C24. Setting an option with \<open>name=value\<close> is read back by asking for the name: for each memo setting and each number
  that fits 32 bits the command succeeds, the option then prints as the value given, the other option and
  everything else of the wallet are unchanged.\<close>

theorem set_option_get_option:
  assumes "option_text v = (name, val)"
  shows "\<exists>w'. exec_set_option J H [name @ ''='' @ val] w = (w', jl_pretty J 2 success_json) \<and>
    exec_get_option J H [name] w' = jl_pretty J 2 (JsonObject [(name, JsonString val)]) \<and>
    (\<forall>other. other \<noteq> name \<longrightarrow> get_option other w' = get_option other w) \<and>
    w'\<lparr> lw_wallet_options := lw_wallet_options w \<rparr> = w"
proof (cases v)
  case (Inl memos)
  have "split_on (CHR ''='') (''download_memos='' @ memo_option_name memos) = [''download_memos'', memo_option_name memos]"
    using split_on_append [of "CHR ''=''" "''download_memos''" "memo_option_name memos"]
      split_on_free [OF memo_option_name_free [of memos]] by simp
  then show ?thesis
    using assms Inl by (cases memos)
      (auto simp: option_text_def exec_set_option_def exec_get_option_def set_option_def get_option_def set_download_memo_def)
next
  case (Inr limit)
  have "split_on (CHR ''='') (''transaction_filter_threshold='' @ u32_to_string limit) =
      [''transaction_filter_threshold'', u32_to_string limit]"
    using split_on_append [of "CHR ''=''" "''transaction_filter_threshold''" "u32_to_string limit"]
      split_on_free [OF dec_no_equals [of "unat limit"]] by (simp add: u32_to_string_def)
  moreover have "set_option ''transaction_filter_threshold'' (u32_to_string limit) w = (set_transaction_size_filter limit w, Inr ())"
    by (simp add: set_option_def)
  ultimately have "exec_set_option J H [''transaction_filter_threshold='' @ u32_to_string limit] w =
      (set_transaction_size_filter limit w, jl_pretty J 2 success_json)"
    by (simp add: exec_set_option_def)
  moreover have nv: "name = ''transaction_filter_threshold''" "val = u32_to_string limit"
    using assms Inr by (simp_all add: option_text_def)
  ultimately show ?thesis unfolding nv
    by (intro exI [of _ "set_transaction_size_filter limit w"])
       (simp add: exec_get_option_def get_option_def set_transaction_size_filter_def)
qed

theorem set_option_get_option_witness:
  "\<exists>w'. exec_set_option plain_json_lib \<lparr> ht_help = (\<lambda>_. []), ht_short_help = (\<lambda>_. []) \<rparr> [''download_memos'' @ ''='' @ ''all''] example_wallet =
       (w', jl_pretty plain_json_lib 2 success_json) \<and>
     get_option ''transaction_filter_threshold'' w' = get_option ''transaction_filter_threshold'' example_wallet"
proof -
  have "option_text (Inl AllMemos) = (''download_memos'', ''all'')" by (simp add: option_text_def)
  from set_option_get_option [OF this, of plain_json_lib "\<lparr> ht_help = (\<lambda>_. []), ht_short_help = (\<lambda>_. []) \<rparr>" example_wallet]
  show ?thesis by auto
qed

text \<open>No name and no command occurs twice in the table, and names are in lower case.\<close>

lemma get_commands_distinct: "distinct (map fst get_commands)" "distinct (map snd get_commands)"
  by code_simp+

lemma get_commands_lowercase: "list_all (\<lambda>(name, _). to_ascii_lowercase name = name) get_commands"
  by code_simp

section \<open>Runs of commands\<close>

fun run_commands where
  "run_commands B E C S read_tx other [] c s = Some (c, s, [])"
| "run_commands B E C S read_tx other ((now, cmd, args) # cmds) c s = do {
     (c, s, text) \<leftarrow> do_user_command B E C S read_tx now other cmd args c s;
     (c, s, texts) \<leftarrow> run_commands B E C S read_tx other cmds c s;
     Some (c, s, text # texts) }"

text \<open>The answers with which a proposal is shown to the user.\<close>

definition shows_proposal ::
  "'e shell \<Rightarrow> ('addr, 'pay, 'req, 'ua, 'x, 't, 'e) send_lib \<Rightarrow> ('ua, 'x) zingo_proposal \<Rightarrow> string \<Rightarrow> bool" where
  "shows_proposal B E p text \<longleftrightarrow>
     (let M = al_amounts (se_addresses E); pretty = jl_pretty (sh_json B) 2
      in case p of
           Transfer q \<Rightarrow> text = pretty (send_answer M (sh_texts B) q) \<or> text = pretty (send_all_answer M (sh_texts B) q)
         | Shield q \<Rightarrow> text = pretty (shield_answer M q))"

text \<open>The commands that are not modelled do not touch the stored proposal: the field is written by \<open>store_proposal\<close> only.\<close>

definition keeps_proposal where
  "keeps_proposal other \<longleftrightarrow> (\<forall>cmd args c s c' s' text. other cmd args c s = Some (c', s', text) \<longrightarrow>
     lc_latest_proposal c' = lc_latest_proposal c)"

lemma exec_send_proposal:
  assumes "exec_send J E X args c = Some (c', text)"
  shows "lc_latest_proposal c' = lc_latest_proposal c \<or>
    (\<exists>q. lc_latest_proposal c' = Some (Transfer q) \<and> text = jl_pretty J 2 (send_answer (al_amounts (se_addresses E)) X q))"
  using assms by (auto simp: exec_send_def propose_send_def store_proposal_def split: sum.splits Option.bind_splits)

lemma exec_send_all_proposal:
  assumes "exec_send_all J E X args c = Some (c', text)"
  shows "lc_latest_proposal c' = lc_latest_proposal c \<or>
    (\<exists>q. lc_latest_proposal c' = Some (Transfer q) \<and> text = jl_pretty J 2 (send_all_answer (al_amounts (se_addresses E)) X q))"
  using assms
  by (auto simp: exec_send_all_def propose_send_all_def store_proposal_def split: sum.splits Option.bind_splits if_splits prod.splits)

lemma exec_shield_proposal:
  assumes "exec_shield J E X args c = (c', text)"
  shows "lc_latest_proposal c' = lc_latest_proposal c \<or>
    (\<exists>q. lc_latest_proposal c' = Some (Shield q) \<and> text = jl_pretty J 2 (shield_answer (al_amounts (se_addresses E)) q))"
  using assms by (auto simp: exec_shield_def propose_shield_def store_proposal_def split: sum.splits if_splits)

lemma stored_proposal_kept:
  "complete_and_broadcast_stored_proposal E C S read_tx now c s = Some (c', s', res) \<Longrightarrow> lc_latest_proposal c' = lc_latest_proposal c"
  by (auto simp: complete_and_broadcast_stored_proposal_def split: option.splits zingo_proposal.splits)

lemma quick_send_keeps_proposal:
  "quick_send E C S read_tx now request c s = Some (c', s', res) \<Longrightarrow> lc_latest_proposal c' = lc_latest_proposal c"
  by (auto simp: quick_send_def split: sum.splits)

lemma quick_shield_keeps_proposal:
  "quick_shield E C S read_tx now c s = Some (c', s', res) \<Longrightarrow> lc_latest_proposal c' = lc_latest_proposal c"
  by (auto simp: quick_shield_def split: sum.splits)

lemma exec_other_proposals:
  "exec_confirm J E X C S read_tx now args c s = Some (c', s', text) \<Longrightarrow> lc_latest_proposal c' = lc_latest_proposal c"
  "exec_quick_shield J E X C S read_tx now args c s = Some (c', s', text) \<Longrightarrow> lc_latest_proposal c' = lc_latest_proposal c"
  "exec_interrupt H args c = (c', text) \<Longrightarrow> lc_latest_proposal c' = lc_latest_proposal c"
  by (auto simp: exec_confirm_def exec_quick_shield_def exec_interrupt_def interrupt_sync_after_batch_def
      dest: stored_proposal_kept quick_shield_keeps_proposal split: if_splits)

lemma exec_quick_send_proposal:
  assumes "exec_quick_send J E X C S read_tx now args c s = Some (c', s', text)"
  shows "lc_latest_proposal c' = lc_latest_proposal c"
proof (cases "parse_send_args J (se_addresses E) args")
  case (Inr receivers)
  then obtain res where r: "transaction_request_from_receivers (se_zip321 E) receivers = Some res"
    using assms by (auto simp: exec_quick_send_def split: Option.bind_splits)
  show ?thesis
    using assms Inr r by (cases res) (auto simp: exec_quick_send_def elim: quick_send_keeps_proposal)
qed (use assms in \<open>simp add: exec_quick_send_def\<close>)

lemma answer_only_client:
  "answer_only c s text = Some (c', s', text') \<Longrightarrow> c' = c"
  "Option.bind x (answer_only c s) = Some (c', s', text') \<Longrightarrow> c' = c"
  by (auto simp: answer_only_def split: Option.bind_splits)

lemma exec_command_proposal:
  assumes "exec_command B E C S read_tx now other cmd args c s = Some (c', s', text)" "keeps_proposal other"
  shows "lc_latest_proposal c' = lc_latest_proposal c \<or> (\<exists>p. lc_latest_proposal c' = Some p \<and> shows_proposal B E p text)"
proof -
  have o: "other k args c s = Some (c', s', text) \<Longrightarrow> lc_latest_proposal c' = lc_latest_proposal c" for k
    using assms(2) unfolding keeps_proposal_def by blast
  note e = assms(1) [unfolded exec_command_def Let_def]
  show ?thesis
  proof (cases cmd)
    case SendCommand
    with e have "exec_send (sh_json B) E (sh_texts B) args c = Some (c', text)" by auto
    from exec_send_proposal [OF this] show ?thesis by (auto simp: shows_proposal_def Let_def)
  next
    case SendAllCommand
    with e have "exec_send_all (sh_json B) E (sh_texts B) args c = Some (c', text)" by auto
    from exec_send_all_proposal [OF this] show ?thesis by (auto simp: shows_proposal_def Let_def)
  next
    case ShieldCommand
    with e have "exec_shield (sh_json B) E (sh_texts B) args c = (c', text)" by (auto split: prod.splits)
    from exec_shield_proposal [OF this] show ?thesis by (auto simp: shows_proposal_def Let_def)
  next
    case SetOptionCommand
    with e show ?thesis by (auto split: prod.splits)
  next
    case InterruptCommand
    with e show ?thesis by (auto split: prod.splits dest: exec_other_proposals)
  qed (use e o in \<open>auto dest: exec_other_proposals exec_quick_send_proposal answer_only_client\<close>)
qed

lemma user_command_proposal:
  assumes "do_user_command B E C S read_tx now other cmd args c s = Some (c', s', text)" "keeps_proposal other"
  shows "lc_latest_proposal c' = lc_latest_proposal c \<or> (\<exists>p. lc_latest_proposal c' = Some p \<and> shows_proposal B E p text)"
proof (cases "hm_get get_commands (to_ascii_lowercase cmd)")
  case None
  with assms(1) show ?thesis by (simp add: do_user_command_def answer_only_def)
next
  case (Some command)
  with assms(1) show ?thesis by (intro exec_command_proposal [OF _ assms(2)]) (simp add: do_user_command_def)
qed

text \<open>C20. What is confirmed has been shown: whatever commands a user gives to a client without a proposal, the proposal that a
  confirmation would complete is one that a command of the run answered with its fee (or with the error of
  computing it).\<close>

theorem confirmed_proposal_was_shown:
  assumes "run_commands B E C S read_tx other cmds c s = Some (c', s', answers)" "keeps_proposal other"
    and "lc_latest_proposal c = None" "lc_latest_proposal c' = Some p"
  shows "\<exists>text. text \<in> set answers \<and> shows_proposal B E p text"
proof -
  have "lc_latest_proposal c' = lc_latest_proposal c \<or>
      (\<exists>p text. lc_latest_proposal c' = Some p \<and> text \<in> set answers \<and> shows_proposal B E p text)"
    using assms(1)
  proof (induction cmds arbitrary: c s answers)
    case (Cons x cmds)
    obtain now cmd args where x: "x = (now, cmd, args)" by (cases x)
    obtain c1 s1 answer texts where u: "do_user_command B E C S read_tx now other cmd args c s = Some (c1, s1, answer)"
      "run_commands B E C S read_tx other cmds c1 s1 = Some (c', s', texts)" "answers = answer # texts"
      using Cons.prems by (auto simp: x split: Option.bind_splits)
    from Cons.IH [OF u(2)] user_command_proposal [OF u(1) assms(2)] u(3) show ?case by auto
  qed simp
  with assms(3,4) show ?thesis by auto
qed

definition demo_client :: "(unit, unit, receiver list, unit) light_client" where
  "demo_client = \<lparr> lc_wallet = example_wallet, lc_latest_proposal = None, lc_interrupt_sync = False \<rparr>"

definition demo_shell :: "unit shell" where
  "demo_shell = \<lparr> sh_json = plain_json_lib, sh_help = \<lparr> ht_help = (\<lambda>_. []), ht_short_help = (\<lambda>_. []) \<rparr>,
     sh_texts = \<lparr> et_backend = (\<lambda>_. []), et_amount = (\<lambda>_. []), et_complete = (\<lambda>_. []), et_propose_send = (\<lambda>_. []),
       et_propose_shield = (\<lambda>_. []) \<rparr>,
     sh_presentation = \<lparr> pr_iter = remdups, pr_pool = (\<lambda>_. []), pr_len = length \<rparr>,
     sh_listing = \<lparr> ls_sapling_fvk = None, ls_orchard_fvk = None, ls_decode = (\<lambda>_. None) \<rparr>,
     sh_activation = 1, sh_minimum_fee = 10000 \<rparr>"

theorem confirmed_proposal_was_shown_witness:
  "\<exists>c' s' answers text. run_commands demo_shell demo_send_lib demo_scan_context demo_server demo_read_tx
       (\<lambda>_ _ c s. Some (c, s, [])) [(9, ''Send'', [''j''])] demo_client [] = Some (c', s', answers) \<and>
     lc_latest_proposal c' = Some (Transfer demo_proposal) \<and> text \<in> set answers \<and>
     shows_proposal demo_shell demo_send_lib (Transfer demo_proposal) text"
proof -
  let ?r = "[\<lparr> rv_recipient_address = ''z1'', rv_amount = 70, rv_memo = Some [104, 105] \<rparr>]"
  have cmd: "hm_get get_commands (to_ascii_lowercase ''Send'') = Some SendCommand" by code_simp
  have "parse_send_args plain_json_lib plain_address_lib [''j''] = Inr ?r"
    by (simp add: plain_json_lib_def one_payment_def json_u64_def receiver_from_json_def address_from_json_def address_from_str_def
        plain_address_lib_def zatoshis_from_json_def zatoshis_from_u64_def example_amount_ops_def memo_from_json_def
        interpret_memo_string_def starts_with_0x_def string_bytes_def check_memo_compatibility_def)
  moreover have "transaction_request_from_receivers plain_zip321 ?r = Some (Inr [(''z1'', 70, Some [104, 105])])"
    by (simp add: transaction_request_from_receivers_def payment_from_receiver_def plain_zip321_def)
  moreover have "create_send_proposal demo_send_lib [(''z1'', 70, Some [104, 105])] example_wallet = Inr demo_proposal"
    by (simp add: create_send_proposal_def demo_send_lib_def Let_def)
  ultimately have e: "exec_send (sh_json demo_shell) demo_send_lib (sh_texts demo_shell) [''j''] demo_client =
      Some (demo_client\<lparr> lc_latest_proposal := Some (Transfer demo_proposal) \<rparr>,
        jl_pretty plain_json_lib 2 (send_answer (al_amounts (se_addresses demo_send_lib)) (sh_texts demo_shell) demo_proposal))"
    by (simp add: exec_send_def propose_send_def store_proposal_def demo_client_def demo_shell_def demo_send_lib_def del: parse_send_args.simps)
  obtain c' s' answers where run: "run_commands demo_shell demo_send_lib demo_scan_context demo_server demo_read_tx
      (\<lambda>_ _ c s. Some (c, s, [])) [(9, ''Send'', [''j''])] demo_client [] = Some (c', s', answers)"
    and c': "lc_latest_proposal c' = Some (Transfer demo_proposal)"
    using e by (simp add: do_user_command_def cmd exec_command_def Let_def)
  have "keeps_proposal (\<lambda>_ _ c s. Some (c, s, []))" "lc_latest_proposal demo_client = None"
    by (simp_all add: keeps_proposal_def demo_client_def)
  from confirmed_proposal_was_shown [OF run this c'] run c' show ?thesis by blast
qed

end
