(* ===== verification/Spec2Isabelle.thy ===== *)
theory Spec2Isabelle
  imports Tx_Map_Laws Reorg_Protocol Shielded_Scan_Laws Sync_Properties Value_Transfers_Laws
    Commands_Laws
begin

text \<open>
  Verification of the core of zingolib.
\<close>

section \<open>Properties that span components\<close>



end
